(* ===== verification/Prelude.thy ===== *)
theory Prelude
  imports Complex_Main "HOL-Library.AList"
begin

text \<open>
  Shared vocabulary of the development: the lemma collections the component theories fill,
  Python dictionaries as association lists in insertion order, and a few generic facts on
  lists and options. Nothing here mentions the worker itself.
\<close>

named_theorems dict_simps
  \<open>rewrite rules for reads of updated dictionaries\<close>

named_theorems frame_simps
  \<open>fields of the worker state an operation leaves alone\<close>

section \<open>Results of fallible code\<close>

text \<open>
  Code that may raise returns \<open>Inl e\<close> for the exception and \<open>Inr v\<close> for the value.
  \<open>and_then\<close> is statement sequencing: the first exception ends the block.
\<close>

fun and_then :: "'e + 'a \<Rightarrow> ('a \<Rightarrow> 'e + 'b) \<Rightarrow> 'e + 'b" where
  "and_then (Inl e) f = Inl e"
| "and_then (Inr x) f = f x"

lemma and_then_Inr_iff: "and_then r f = Inr y \<longleftrightarrow> (\<exists>x. r = Inr x \<and> f x = Inr y)"
  by (cases r) auto

lemma and_then_Inl_iff:
  "and_then r f = Inl e \<longleftrightarrow> r = Inl e \<or> (\<exists>x. r = Inr x \<and> f x = Inl e)"
  by (cases r) auto

definition is_ok :: "'e + 'a \<Rightarrow> bool" where
  "is_ok r = (case r of Inl _ \<Rightarrow> False | Inr _ \<Rightarrow> True)"

lemma is_ok_simps [simp]: "\<not> is_ok (Inl e)" "is_ok (Inr x)"
  by (simp_all add: is_ok_def)

section \<open>Dictionaries\<close>

text \<open>
  A Python \<open>dict\<close> iterates in insertion order: assigning an existing key keeps its place,
  a new key goes to the end. The library's \<open>AList.update\<close> and \<open>AList.delete\<close> do exactly that.
\<close>

type_synonym ('k, 'v) dict = "('k \<times> 'v) list"

definition dget :: "('k, 'v) dict \<Rightarrow> 'k \<Rightarrow> 'v option" where
  "dget d k = map_of d k"

definition dget_or :: "('k, 'v) dict \<Rightarrow> 'k \<Rightarrow> 'v \<Rightarrow> 'v" where
  "dget_or d k v = (case dget d k of None \<Rightarrow> v | Some w \<Rightarrow> w)"

definition dset :: "'k \<Rightarrow> 'v \<Rightarrow> ('k, 'v) dict \<Rightarrow> ('k, 'v) dict" where
  "dset k v d = AList.update k v d"

definition dpop :: "'k \<Rightarrow> ('k, 'v) dict \<Rightarrow> ('k, 'v) dict" where
  "dpop k d = AList.delete k d"

definition dkeys :: "('k, 'v) dict \<Rightarrow> 'k list" where
  "dkeys d = map fst d"

definition dhas :: "('k, 'v) dict \<Rightarrow> 'k \<Rightarrow> bool" where
  "dhas d k = (k \<in> set (dkeys d))"

definition dict_wf :: "('k, 'v) dict \<Rightarrow> bool" where
  "dict_wf d = distinct (dkeys d)"

text \<open>\<open>a.update(b)\<close> and \<open>{**a, **b}\<close>: the second wins, its new keys go to the end.\<close>

fun dmerge :: "('k, 'v) dict \<Rightarrow> ('k, 'v) dict \<Rightarrow> ('k, 'v) dict" where
  "dmerge a [] = a"
| "dmerge a ((k, v) # b) = dmerge (dset k v a) b"

text \<open>
  The interface the components rely on: what a lookup returns after a store or a removal,
  and the key set and its order. Client lemmas are proved from the laws only.
\<close>

locale dictionary =
  fixes get :: "'d \<Rightarrow> 'k \<Rightarrow> 'v option"
    and put :: "'k \<Rightarrow> 'v \<Rightarrow> 'd \<Rightarrow> 'd"
    and rem :: "'k \<Rightarrow> 'd \<Rightarrow> 'd"
    and keys :: "'d \<Rightarrow> 'k list"
  assumes get_put: "get (put k v d) j = (if j = k then Some v else get d j)"
    and get_rem: "get (rem k d) j = (if j = k then None else get d j)"
    and keys_get: "j \<in> set (keys d) \<longleftrightarrow> get d j \<noteq> None"
    and keys_put_old: "k \<in> set (keys d) \<Longrightarrow> keys (put k v d) = keys d"
    and keys_put_new: "k \<notin> set (keys d) \<Longrightarrow> keys (put k v d) = keys d @ [k]"
    and keys_rem: "keys (rem k d) = filter (\<lambda>j. j \<noteq> k) (keys d)"
begin

lemma get_put_same: "get (put k v d) k = Some v"
  by (simp add: get_put)

lemma get_put_other: "j \<noteq> k \<Longrightarrow> get (put k v d) j = get d j"
  by (simp add: get_put)

lemma get_rem_other: "j \<noteq> k \<Longrightarrow> get (rem k d) j = get d j"
  by (simp add: get_rem)

lemma set_keys_put: "set (keys (put k v d)) = insert k (set (keys d))"
  by (cases "k \<in> set (keys d)") (auto simp: keys_put_old keys_put_new)

lemma set_keys_rem: "set (keys (rem k d)) = set (keys d) - {k}"
  by (auto simp: keys_rem)

lemma distinct_put: "distinct (keys d) \<Longrightarrow> distinct (keys (put k v d))"
  by (cases "k \<in> set (keys d)") (auto simp: keys_put_old keys_put_new)

lemma distinct_rem: "distinct (keys d) \<Longrightarrow> distinct (keys (rem k d))"
  by (simp add: keys_rem)

text \<open>Taking an entry out after storing it under a fresh key gives back every lookup.\<close>

lemma get_rem_put: "get d k = None \<Longrightarrow> get (rem k (put k v d)) = get d"
  by (rule ext) (simp add: get_put get_rem)

lemma length_keys_put_new:
  "get d k = None \<Longrightarrow> length (keys (put k v d)) = Suc (length (keys d))"
  using keys_get [of k d] by (simp add: keys_put_new)

lemma length_keys_rem:
  assumes "distinct (keys d)" and "get d k \<noteq> None"
  shows "Suc (length (keys (rem k d))) = length (keys d)"
proof -
  have "k \<in> set (keys d)" using assms(2) keys_get by blast
  moreover have "keys (rem k d) = remove1 k (keys d)"
    using assms(1) by (simp add: keys_rem distinct_remove1_removeAll removeAll_filter_not_eq)
      (metis (lifting))
  moreover from \<open>k \<in> set (keys d)\<close> have "0 < length (keys d)"
    by (rule length_pos_if_in_set)
  ultimately show ?thesis by (simp add: length_remove1)
qed

end

lemma dkeys_dset_old: "k \<in> set (dkeys d) \<Longrightarrow> dkeys (dset k v d) = dkeys d"
  by (simp add: dkeys_def dset_def update_keys)

lemma dkeys_dset_new: "k \<notin> set (dkeys d) \<Longrightarrow> dkeys (dset k v d) = dkeys d @ [k]"
  by (simp add: dkeys_def dset_def update_keys)

lemma dkeys_dpop: "dkeys (dpop k d) = filter (\<lambda>j. j \<noteq> k) (dkeys d)"
  by (induction d) (auto simp: dkeys_def dpop_def)

interpretation dict: dictionary dget dset dpop dkeys
proof unfold_locales
  fix k :: 'a and v :: 'b and d :: "('a \<times> 'b) list" and j :: 'a
  show "dget (dset k v d) j = (if j = k then Some v else dget d j)"
    by (simp add: dget_def dset_def update_conv')
  show "dget (dpop k d) j = (if j = k then None else dget d j)"
    by (simp add: dget_def dpop_def delete_conv')
  show "(j \<in> set (dkeys d)) = (dget d j \<noteq> None)"
    by (simp add: dkeys_def dget_def map_of_eq_None_iff)
  show "k \<in> set (dkeys d) \<Longrightarrow> dkeys (dset k v d) = dkeys d"
    by (rule dkeys_dset_old)
  show "k \<notin> set (dkeys d) \<Longrightarrow> dkeys (dset k v d) = dkeys d @ [k]"
    by (rule dkeys_dset_new)
  show "dkeys (dpop k d) = filter (\<lambda>j. j \<noteq> k) (dkeys d)"
    by (rule dkeys_dpop)
qed

lemmas [dict_simps] =
  dict.get_put dict.get_rem dict.set_keys_put dict.set_keys_rem

lemma dget_Nil [simp]: "dget [] k = None"
  by (simp add: dget_def)

lemma dget_Cons [simp]: "dget ((j, v) # d) k = (if k = j then Some v else dget d k)"
  by (simp add: dget_def)

lemma dkeys_Nil [simp]: "dkeys [] = []" and dkeys_Cons [simp]: "dkeys (p # d) = fst p # dkeys d"
  by (simp_all add: dkeys_def)

lemma dset_Nil [simp]: "dset k v [] = [(k, v)]"
  and dset_Cons [simp]: "dset k v ((j, w) # d) = (if j = k then (k, v) # d else (j, w) # dset k v d)"
  by (simp_all add: dset_def)

lemma dpop_Nil [simp]: "dpop k [] = []"
  and dpop_Cons [simp]: "dpop k ((j, w) # d) = (if j = k then dpop k d else (j, w) # dpop k d)"
  by (simp_all add: dpop_def)

lemma dset_dset [simp]: "dset k v (dset k w d) = dset k v d"
  by (induction d) auto

lemma dget_or_dset [dict_simps]:
  "dget_or (dset k v d) j w = (if j = k then v else dget_or d j w)"
  by (simp add: dget_or_def dict.get_put)

lemma dget_or_dpop [dict_simps]:
  "dget_or (dpop k d) j w = (if j = k then w else dget_or d j w)"
  by (simp add: dget_or_def dict.get_rem)

lemma dhas_iff: "dhas d k \<longleftrightarrow> dget d k \<noteq> None"
  by (simp add: dhas_def dict.keys_get)

lemma dhas_simps [simp]: "\<not> dhas [] k" "dhas ((j, v) # d) k = (k = j \<or> dhas d k)"
  by (auto simp: dhas_def)

lemma dhas_dset [dict_simps]: "dhas (dset k v d) j \<longleftrightarrow> j = k \<or> dhas d j"
  by (simp add: dhas_iff dict.get_put)

lemma dhas_dpop [dict_simps]: "dhas (dpop k d) j \<longleftrightarrow> j \<noteq> k \<and> dhas d j"
  by (simp add: dhas_iff dict.get_rem)

lemma dict_wf_dset [intro]: "dict_wf d \<Longrightarrow> dict_wf (dset k v d)"
  by (simp add: dict_wf_def dict.distinct_put)

lemma dict_wf_dpop [intro]: "dict_wf d \<Longrightarrow> dict_wf (dpop k d)"
  by (simp add: dict_wf_def dict.distinct_rem)

lemma dget_append:
  "dget (a @ b) k = (case dget a k of None \<Rightarrow> dget b k | Some v \<Rightarrow> Some v)"
  by (induction a) (auto simp: dget_def)

lemma dget_dmerge:
  "dget (dmerge a b) k = (case dget (rev b) k of None \<Rightarrow> dget a k | Some v \<Rightarrow> Some v)"
proof (induction a b rule: dmerge.induct)
  case (1 a)
  then show ?case by simp
next
  case (2 a k' v b)
  then show ?case
    by (cases "dget (rev b) k")
      (auto simp: dict.get_put dget_append split: option.splits)
qed

lemma dict_wf_dmerge [intro]: "dict_wf a \<Longrightarrow> dict_wf (dmerge a b)"
  by (induction a b rule: dmerge.induct) (auto intro: dict_wf_dset)

lemma dget_rev: "dict_wf d \<Longrightarrow> dget (rev d) k = dget d k"
proof (induction d)
  case (Cons p d)
  then have "fst p \<notin> set (dkeys d)" "dget (rev d) k = dget d k" by (simp_all add: dict_wf_def)
  then show ?case
    using dict.keys_get [of k d] by (cases p) (auto simp: dget_append split: option.splits)
qed simp

section \<open>Lists\<close>

lemma sum_list_map_add:
  "sum_list (map (\<lambda>x. f x + g x) xs) = sum_list (map f xs) + (sum_list (map g xs) :: 'a :: comm_monoid_add)"
  by (induction xs) (simp_all add: ac_simps)

lemma foldr_preserves:
  assumes "P z" and "\<And>x y. x \<in> set xs \<Longrightarrow> P y \<Longrightarrow> P (f x y)"
  shows "P (foldr f xs z)"
  using assms by (induction xs) auto

end
