(* ===== verification/Py_Num.thy ===== *)
theory Py_Num
  imports Prelude
begin

text \<open>
  Python numbers. An \<open>int\<close> is HOL's \<open>int\<close>. A \<open>float\<close> is an exact rational or one of the three
  special values: rounding of IEEE doubles is not modelled, the order, infinities and NaN are
  (\<open>float(''inf'')\<close> can come out of a \<open>Retry-After\<close> header, and every comparison with NaN is False).
  \<open>py_max\<close> and \<open>py_min\<close> keep their first argument on a tie or a failed comparison, as CPython does.
  \<open>int(s)\<close> and \<open>float(s)\<close> on strings follow the language reference for ASCII text.
\<close>

section \<open>Floats\<close>

datatype pyfloat = Fin rat | Inf | NegInf | NaN

instantiation pyfloat :: "{ord, zero, plus, minus, times}"
begin

definition zero_pyfloat :: pyfloat where
  "zero_pyfloat = Fin 0"

fun less_pyfloat :: "pyfloat \<Rightarrow> pyfloat \<Rightarrow> bool" where
  "less_pyfloat NaN _ = False"
| "less_pyfloat _ NaN = False"
| "less_pyfloat (Fin a) (Fin b) = (a < b)"
| "less_pyfloat NegInf NegInf = False"
| "less_pyfloat NegInf _ = True"
| "less_pyfloat _ NegInf = False"
| "less_pyfloat Inf _ = False"
| "less_pyfloat _ Inf = True"

fun less_eq_pyfloat :: "pyfloat \<Rightarrow> pyfloat \<Rightarrow> bool" where
  "less_eq_pyfloat NaN _ = False"
| "less_eq_pyfloat _ NaN = False"
| "less_eq_pyfloat (Fin a) (Fin b) = (a \<le> b)"
| "less_eq_pyfloat NegInf _ = True"
| "less_eq_pyfloat _ Inf = True"
| "less_eq_pyfloat Inf _ = False"
| "less_eq_pyfloat _ NegInf = False"

fun plus_pyfloat :: "pyfloat \<Rightarrow> pyfloat \<Rightarrow> pyfloat" where
  "plus_pyfloat NaN _ = NaN"
| "plus_pyfloat _ NaN = NaN"
| "plus_pyfloat (Fin a) (Fin b) = Fin (a + b)"
| "plus_pyfloat Inf NegInf = NaN"
| "plus_pyfloat NegInf Inf = NaN"
| "plus_pyfloat Inf _ = Inf"
| "plus_pyfloat _ Inf = Inf"
| "plus_pyfloat NegInf _ = NegInf"
| "plus_pyfloat _ NegInf = NegInf"

fun neg_pyfloat :: "pyfloat \<Rightarrow> pyfloat" where
  "neg_pyfloat (Fin a) = Fin (- a)"
| "neg_pyfloat Inf = NegInf"
| "neg_pyfloat NegInf = Inf"
| "neg_pyfloat NaN = NaN"

definition minus_pyfloat :: "pyfloat \<Rightarrow> pyfloat \<Rightarrow> pyfloat" where
  "minus_pyfloat a b = a + neg_pyfloat b"

fun times_pyfloat :: "pyfloat \<Rightarrow> pyfloat \<Rightarrow> pyfloat" where
  "times_pyfloat NaN _ = NaN"
| "times_pyfloat _ NaN = NaN"
| "times_pyfloat (Fin a) (Fin b) = Fin (a * b)"
| "times_pyfloat (Fin a) x = (if a = 0 then NaN else if 0 < a then x else neg_pyfloat x)"
| "times_pyfloat x (Fin a) = (if a = 0 then NaN else if 0 < a then x else neg_pyfloat x)"
| "times_pyfloat Inf x = x"
| "times_pyfloat NegInf x = neg_pyfloat x"

instance ..

end

lemma Fin_minus [simp]: "Fin a - Fin b = Fin (a - b)"
  by (simp add: minus_pyfloat_def)

lemma less_Fin_Inf [simp]: "Fin a < Inf" "\<not> Inf < x" "\<not> x < NegInf"
  by (cases x; simp)+

lemma NaN_incomparable [simp]: "\<not> NaN < x" "\<not> x < NaN" "\<not> NaN \<le> x" "\<not> x \<le> NaN"
  by (cases x; simp)+

lemma zero_pyfloat_eq: "(0 :: pyfloat) = Fin 0"
  by (rule zero_pyfloat_def)

lemma pyfloat_pos_cases: "(0 :: pyfloat) < x \<longleftrightarrow> x = Inf \<or> (\<exists>a. x = Fin a \<and> 0 < a)"
  by (cases x) (simp_all add: zero_pyfloat_def)

lemma pyfloat_less_trans: "(a :: pyfloat) < b \<Longrightarrow> b < c \<Longrightarrow> a < c"
  by (cases a; cases b; cases c; simp)

lemma pyfloat_less_irrefl [simp]: "\<not> (a :: pyfloat) < a"
  by (cases a) simp_all

definition is_number :: "pyfloat \<Rightarrow> bool" where
  "is_number x = (x \<noteq> NaN)"

lemma pyfloat_not_less: "is_number a \<Longrightarrow> is_number b \<Longrightarrow> (\<not> a < b) = (b \<le> a)"
  by (cases a; cases b) (auto simp: is_number_def)

section \<open>max and min of the language\<close>

text \<open>\<open>max(a, b)\<close> returns \<open>b\<close> only where \<open>b > a\<close>; \<open>min(a, b)\<close> returns \<open>b\<close> only where \<open>b < a\<close>.\<close>

definition py_max :: "'a :: ord \<Rightarrow> 'a \<Rightarrow> 'a" where
  "py_max a b = (if a < b then b else a)"

definition py_min :: "'a :: ord \<Rightarrow> 'a \<Rightarrow> 'a" where
  "py_min a b = (if b < a then b else a)"

lemma py_max_Fin [simp]: "py_max (Fin a) (Fin b) = Fin (max a b)"
  by (simp add: py_max_def)

lemma py_min_Fin [simp]: "py_min (Fin a) (Fin b) = Fin (min a b)"
  by (simp add: py_min_def)

lemma py_max_linorder: "py_max a b = max (a :: 'a :: linorder) b"
  by (auto simp: py_max_def)

lemma py_min_linorder: "py_min a b = min (a :: 'a :: linorder) b"
  by (auto simp: py_min_def)

lemma py_max_pos: "(0 :: pyfloat) < a \<Longrightarrow> 0 < py_max a b"
  by (auto simp: py_max_def intro: pyfloat_less_trans)

lemma py_max_ge: "is_number a \<Longrightarrow> is_number b \<Longrightarrow> a \<le> py_max a b \<and> b \<le> py_max a b"
  by (cases a; cases b) (auto simp: py_max_def is_number_def)

section \<open>Characters and numerals\<close>

definition is_digit :: "char \<Rightarrow> bool" where
  "is_digit c = (48 \<le> (of_char c :: nat) \<and> (of_char c :: nat) \<le> 57)"

definition digit_val :: "char \<Rightarrow> nat" where
  "digit_val c = of_char c - 48"

definition to_lower :: "char \<Rightarrow> char" where
  "to_lower c = (let n = (of_char c :: nat) in if 65 \<le> n \<and> n \<le> 90 then char_of (n + 32) else c)"

definition lower :: "string \<Rightarrow> string" where
  "lower s = map to_lower s"

definition is_space :: "char \<Rightarrow> bool" where
  "is_space c = (let n = (of_char c :: nat) in n = 32 \<or> (9 \<le> n \<and> n \<le> 13) \<or> (28 \<le> n \<and> n \<le> 31))"

definition strip :: "string \<Rightarrow> string" where
  "strip s = rev (dropWhile is_space (rev (dropWhile is_space s)))"

text \<open>A run of digits; one underscore may stand between two digits.\<close>

fun take_digits :: "string \<Rightarrow> nat list \<times> string" where
  "take_digits [] = ([], [])"
| "take_digits [c] = (if is_digit c then ([digit_val c], []) else ([], [c]))"
| "take_digits [c, u] =
     (if is_digit c then (case take_digits [u] of (ds, r) \<Rightarrow> (digit_val c # ds, r)) else ([], [c, u]))"
| "take_digits (c # u # d # cs) =
     (if is_digit c
      then (if u = CHR ''_'' \<and> is_digit d
            then (case take_digits (d # cs) of (ds, r) \<Rightarrow> (digit_val c # ds, r))
            else (case take_digits (u # d # cs) of (ds, r) \<Rightarrow> (digit_val c # ds, r)))
      else ([], c # u # d # cs))"

definition digits_nat :: "nat list \<Rightarrow> nat" where
  "digits_nat ds = foldl (\<lambda>n d. 10 * n + d) 0 ds"

fun split_sign :: "string \<Rightarrow> int \<times> string" where
  "split_sign (c # cs) =
     (if c = CHR ''-'' then (- 1, cs) else if c = CHR ''+'' then (1, cs) else (1, c # cs))"
| "split_sign [] = (1, [])"

text \<open>\<open>int(s)\<close>; \<open>None\<close> is the ValueError.\<close>

definition py_int_of_string :: "string \<Rightarrow> int option" where
  "py_int_of_string s =
     (case split_sign (strip s) of (sg, body) \<Rightarrow>
      (case take_digits body of (ds, rest) \<Rightarrow>
        if ds \<noteq> [] \<and> rest = [] then Some (sg * int (digits_nat ds)) else None))"

text \<open>The exponent part: nothing, or \<open>e\<close> with an optional sign and digits.\<close>

definition take_exponent :: "string \<Rightarrow> int option" where
  "take_exponent s =
     (case s of [] \<Rightarrow> Some 0
      | c # cs \<Rightarrow> if to_lower c \<noteq> CHR ''e'' then None
          else (case split_sign cs of (sg, body) \<Rightarrow>
            (case take_digits body of (ds, rest) \<Rightarrow>
              if ds \<noteq> [] \<and> rest = [] then Some (sg * int (digits_nat ds)) else None)))"

definition pow10 :: "int \<Rightarrow> rat" where
  "pow10 e = (if 0 \<le> e then 10 ^ nat e else 1 / 10 ^ nat (- e))"

definition py_float_of_string :: "string \<Rightarrow> pyfloat option" where
  "py_float_of_string s =
     (case split_sign (strip s) of (sg, body) \<Rightarrow>
      if lower body = ''inf'' \<or> lower body = ''infinity''
      then Some (if sg < 0 then NegInf else Inf)
      else if lower body = ''nan'' then Some NaN
      else (case take_digits body of (ds, r) \<Rightarrow>
        (case (if r \<noteq> [] \<and> hd r = CHR ''.'' then take_digits (tl r) else ([], r)) of (fs, r') \<Rightarrow>
          if ds = [] \<and> fs = [] then None
          else map_option (\<lambda>e. Fin (rat_of_int sg *
                 rat_of_nat (digits_nat (ds @ fs)) * pow10 (e - int (length fs)))) (take_exponent r'))))"

end
