(* ===== verification/Py_Value.thy ===== *)
theory Py_Value
  imports Py_Num
begin

text \<open>
  Python values as they travel through the worker (decoded JSON, plus opaque references to
  live objects such as an injected helper), truthiness, exceptions with the class tests the
  \<open>except\<close> clauses make, the string methods the code calls, and \<open>os.path\<close> for POSIX.
\<close>

section \<open>Values\<close>

datatype pyval =
    PNone
  | PBool bool
  | PInt int
  | PFloat pyfloat
  | PStr string
  | PList "pyval list"
  | PDict "(string \<times> pyval) list"
  | PRef string \<comment> \<open>an object that is not data: a callback, a helper, a schema class\<close>

fun truthy :: "pyval \<Rightarrow> bool" where
  "truthy PNone = False"
| "truthy (PBool b) = b"
| "truthy (PInt i) = (i \<noteq> 0)"
| "truthy (PFloat x) = (x \<noteq> Fin 0)"
| "truthy (PStr s) = (s \<noteq> [])"
| "truthy (PList xs) = (xs \<noteq> [])"
| "truthy (PDict d) = (d \<noteq> [])"
| "truthy (PRef _) = True"

fun is_dict :: "pyval \<Rightarrow> bool" where
  "is_dict (PDict _) = True"
| "is_dict _ = False"

text \<open>\<open>x or y\<close> on optional strings: an empty string is falsy too.\<close>

definition str_or :: "string option \<Rightarrow> string \<Rightarrow> string" where
  "str_or x y = (case x of Some s \<Rightarrow> if s = [] then y else s | None \<Rightarrow> y)"

section \<open>Exceptions\<close>

text \<open>
  \<open>RxonRateLimitError\<close> carries the value found under \<open>retry_after\<close> in its \<open>details\<close>
  (\<open>PNone\<close> where absent). \<open>OtherError\<close> is any further subclass of \<open>Exception\<close>.
\<close>

datatype pyexn =
    KeyError string
  | TypeError string
  | ValueError string
  | AttributeError string
  | PermissionError string
  | RuntimeError string
  | OSError string
  | ImportError string
  | TimeoutError
  | ParamValidationError string
  | CancelledError
  | RxonError string
  | RxonNetworkError string
  | RxonRateLimitError string pyval
  | OtherError string

type_synonym 'a result = "pyexn + 'a"

text \<open>\<open>CancelledError\<close> derives from \<open>BaseException\<close>: \<open>except Exception\<close> lets it through.\<close>

definition is_exception :: "pyexn \<Rightarrow> bool" where
  "is_exception e = (e \<noteq> CancelledError)"

fun is_rxon_error :: "pyexn \<Rightarrow> bool" where
  "is_rxon_error (RxonError _) = True"
| "is_rxon_error (RxonNetworkError _) = True"
| "is_rxon_error (RxonRateLimitError _ _) = True"
| "is_rxon_error _ = False"

fun is_rate_limit :: "pyexn \<Rightarrow> bool" where
  "is_rate_limit (RxonRateLimitError _ _) = True"
| "is_rate_limit _ = False"

fun retry_after_of :: "pyexn \<Rightarrow> pyval" where
  "retry_after_of (RxonRateLimitError _ v) = v"
| "retry_after_of _ = PNone"

fun exn_str :: "pyexn \<Rightarrow> string" where
  "exn_str (KeyError s) = s"
| "exn_str (TypeError s) = s"
| "exn_str (ValueError s) = s"
| "exn_str (AttributeError s) = s"
| "exn_str (PermissionError s) = s"
| "exn_str (RuntimeError s) = s"
| "exn_str (OSError s) = s"
| "exn_str (ImportError s) = s"
| "exn_str TimeoutError = []"
| "exn_str (ParamValidationError s) = s"
| "exn_str CancelledError = []"
| "exn_str (RxonError s) = s"
| "exn_str (RxonNetworkError s) = s"
| "exn_str (RxonRateLimitError s _) = s"
| "exn_str (OtherError s) = s"

lemma rate_limit_is_rxon: "is_rate_limit e \<Longrightarrow> is_rxon_error e"
  by (cases e) simp_all

lemma rxon_is_exception: "is_rxon_error e \<Longrightarrow> is_exception e"
  by (cases e) (simp_all add: is_exception_def)

text \<open>\<open>float(v)\<close>: a TypeError for anything that is neither a number nor a string.\<close>

fun py_float :: "pyval \<Rightarrow> pyfloat result" where
  "py_float (PBool b) = Inr (Fin (if b then 1 else 0))"
| "py_float (PInt i) = Inr (Fin (rat_of_int i))"
| "py_float (PFloat x) = Inr x"
| "py_float (PStr s) =
     (case py_float_of_string s of Some x \<Rightarrow> Inr x | None \<Rightarrow> Inl (ValueError s))"
| "py_float _ = Inl (TypeError ''float'')"

section \<open>Strings\<close>

definition starts_with :: "string \<Rightarrow> string \<Rightarrow> bool" where
  "starts_with s p = (take (length p) s = p)"

definition ends_with :: "string \<Rightarrow> string \<Rightarrow> bool" where
  "ends_with s p = (drop (length s - length p) s = p)"

fun split_on :: "char \<Rightarrow> string \<Rightarrow> string list" where
  "split_on c [] = [[]]"
| "split_on c (x # xs) =
     (if x = c then [] # split_on c xs
      else (case split_on c xs of [] \<Rightarrow> [[x]] | w # ws \<Rightarrow> (x # w) # ws))"

fun join_with :: "string \<Rightarrow> string list \<Rightarrow> string" where
  "join_with sep [] = []"
| "join_with sep [w] = w"
| "join_with sep (w # ws) = w @ sep @ join_with sep ws"

definition lstrip_char :: "char \<Rightarrow> string \<Rightarrow> string" where
  "lstrip_char c s = dropWhile (\<lambda>x. x = c) s"

definition rstrip_char :: "char \<Rightarrow> string \<Rightarrow> string" where
  "rstrip_char c s = rev (lstrip_char c (rev s))"

text \<open>\<open>sub in s\<close> for strings.\<close>

fun contains :: "string \<Rightarrow> string \<Rightarrow> bool" where
  "contains [] p = (p = [])"
| "contains (x # xs) p = (starts_with (x # xs) p \<or> contains xs p)"

lemma starts_with_append [simp]: "starts_with (p @ s) p"
  by (simp add: starts_with_def)

lemma starts_with_iff: "starts_with s p \<longleftrightarrow> (\<exists>t. s = p @ t)"
proof
  assume "starts_with s p"
  then have "s = p @ drop (length p) s"
    unfolding starts_with_def by (metis append_take_drop_id)
  then show "\<exists>t. s = p @ t" ..
qed (auto simp: starts_with_def)

lemma contains_iff: "contains s p \<longleftrightarrow> (\<exists>a b. s = a @ p @ b)"
proof (induction s)
  case (Cons x xs)
  have "(\<exists>a b. x # xs = a @ p @ b) \<longleftrightarrow> (\<exists>b. x # xs = p @ b) \<or> (\<exists>a b. xs = a @ p @ b)"
    by (metis append_Cons append_Nil list.exhaust list.inject)
  with Cons show ?case by (simp add: starts_with_iff)
qed simp

lemma split_on_nonempty [simp]: "split_on c s \<noteq> []"
  by (induction c s rule: split_on.induct) (auto split: list.splits)

lemma join_split_on: "join_with [c] (split_on c s) = s"
proof (induction c s rule: split_on.induct)
  case (1 c)
  then show ?case by simp
next
  case (2 c x xs)
  obtain w ws where w: "split_on c xs = w # ws"
    by (meson neq_Nil_conv split_on_nonempty)
  with 2 show ?case by (cases ws) auto
qed

lemma split_on_no_sep: "c \<notin> set s \<Longrightarrow> split_on c s = [s]"
  by (induction s) auto

lemma length_split_on: "length (split_on c s) = Suc (count_list s c)"
  by (induction c s rule: split_on.induct) (auto split: list.splits)

section \<open>POSIX paths\<close>

abbreviation slash :: char where "slash \<equiv> CHR ''/''"

text \<open>\<open>os.path.join(a, b)\<close>: an absolute second part replaces the first.\<close>

definition path_join :: "string \<Rightarrow> string \<Rightarrow> string" where
  "path_join a b =
     (if starts_with b ''/'' then b
      else if a = [] \<or> ends_with a ''/'' then a @ b
      else a @ ''/'' @ b)"

text \<open>The tail after the last slash, and the head before it without trailing slashes.\<close>

definition basename :: "string \<Rightarrow> string" where
  "basename p = rev (takeWhile (\<lambda>c. c \<noteq> slash) (rev p))"

definition dirname :: "string \<Rightarrow> string" where
  "dirname p =
     (let head = rev (dropWhile (\<lambda>c. c \<noteq> slash) (rev p))
      in if head \<noteq> [] \<and> set head \<noteq> {slash} then rstrip_char slash head else head)"

lemma basename_no_slash: "slash \<notin> set (basename p)"
  by (auto simp: basename_def dest: set_takeWhileD)

lemma basename_idem [simp]: "slash \<notin> set p \<Longrightarrow> basename p = p"
proof -
  assume "slash \<notin> set p"
  then have "\<forall>c \<in> set (rev p). c \<noteq> slash" by auto
  then have "takeWhile (\<lambda>c. c \<noteq> slash) (rev p) = rev p"
    by (simp only: takeWhile_eq_all_conv)
  then show ?thesis by (simp only: basename_def rev_rev_ident)
qed

lemma path_join_relative:
  assumes "r \<noteq> []" and "\<not> ends_with r ''/''" and "\<not> starts_with f ''/''"
  shows "path_join r f = r @ ''/'' @ f"
  using assms by (simp add: path_join_def)

lemma basename_not_absolute [simp]: "\<not> starts_with (basename p) ''/''"
  using basename_no_slash [of p] by (auto simp: starts_with_iff)

text \<open>
  Path components with \<open>.\<close>, \<open>..\<close> and empty parts resolved: what the operating system opens
  when no component is a symbolic link.
\<close>

fun resolve_onto :: "string list \<Rightarrow> string list \<Rightarrow> string list" where
  "resolve_onto acc [] = rev acc"
| "resolve_onto acc (c # cs) =
     (if c = [] \<or> c = ''.'' then resolve_onto acc cs
      else if c = ''..'' then resolve_onto (tl acc) cs
      else resolve_onto (c # acc) cs)"

definition resolve :: "string list \<Rightarrow> string \<Rightarrow> string list" where
  "resolve cwd p =
     (if starts_with p ''/'' then resolve_onto [] (split_on slash p)
      else resolve_onto (rev cwd) (split_on slash p))"

definition inside :: "string list \<Rightarrow> string \<Rightarrow> string \<Rightarrow> bool" where
  "inside cwd r p = (take (length (resolve cwd r)) (resolve cwd p) = resolve cwd r)"

text \<open>A name that stands for itself in a path.\<close>

definition plain_name :: "string \<Rightarrow> bool" where
  "plain_name n = (n \<noteq> [] \<and> slash \<notin> set n \<and> n \<noteq> ''.'' \<and> n \<noteq> ''..'')"

lemma resolve_onto_append:
  "resolve_onto acc (xs @ ys) = resolve_onto (rev (resolve_onto acc xs)) ys"
  by (induction acc xs rule: resolve_onto.induct) auto

lemma split_on_join: "split_on c (a @ c # b) = split_on c a @ split_on c b"
  by (induction c a rule: split_on.induct) (auto split: list.splits)

lemma split_on_cons_sep: "split_on c (c # b) = [] # split_on c b"
  by simp

lemma ends_with_single: "ends_with s [c] \<longleftrightarrow> (\<exists>t. s = t @ [c])"
proof
  assume "ends_with s [c]"
  then have "s = take (length s - 1) s @ [c]"
    unfolding ends_with_def by (metis append_take_drop_id length_Cons list.size(3) One_nat_def)
  then show "\<exists>t. s = t @ [c]" ..
qed (auto simp: ends_with_def)

lemma starts_with_single: "starts_with s [c] \<longleftrightarrow> (\<exists>t. s = c # t)"
  by (auto simp: starts_with_iff)

text \<open>A relative second part is resolved from the directory the first part names.\<close>

lemma resolve_path_join:
  assumes "\<not> starts_with r ''/''"
  shows "resolve cwd (path_join d r) = resolve_onto (rev (resolve cwd d)) (split_on slash r)"
proof (cases "d = []")
  case True
  with assms show ?thesis by (simp add: path_join_def resolve_def starts_with_def)
next
  case False
  obtain c t where d: "d = c # t" using False by (cases d) auto
  show ?thesis
  proof (cases "ends_with d ''/''")
    case True
    then obtain e where e: "d = e @ [slash]" by (auto simp: ends_with_single)
    have "resolve_onto (rev (resolve_onto a (split_on slash e))) (split_on slash r) =
        resolve_onto (rev (resolve_onto a (split_on slash e @ [[]]))) (split_on slash r)" for a
      by (simp add: resolve_onto_append)
    moreover have "path_join d r = e @ slash # r"
      using assms True e by (simp add: path_join_def)
    moreover have "split_on slash d = split_on slash e @ [[]]"
      using split_on_join [of slash e "[]"] e by simp
    moreover have "starts_with (e @ slash # r) ''/'' = starts_with d ''/''"
      using e by (cases e) (auto simp: starts_with_single)
    ultimately show ?thesis
      by (simp add: resolve_def split_on_join resolve_onto_append)
  next
    case no_slash: False
    have "path_join d r = d @ slash # r"
      using assms no_slash False by (simp add: path_join_def)
    moreover have "starts_with (d @ slash # r) ''/'' = starts_with d ''/''"
      using d by (auto simp: starts_with_single)
    ultimately show ?thesis
      by (simp add: resolve_def split_on_join resolve_onto_append)
  qed
qed

lemma plain_name_relative: "plain_name n \<Longrightarrow> \<not> starts_with n ''/''"
  by (auto simp: plain_name_def starts_with_single)

lemma resolve_join_plain: "plain_name n \<Longrightarrow> resolve cwd (path_join d n) = resolve cwd d @ [n]"
  using plain_name_relative [of n]
  by (simp add: resolve_path_join plain_name_def split_on_no_sep)

end
