(* ===== verification/Skills.thy ===== *)
theory Skills
  imports Py_Value
begin

text \<open>
  Skill descriptions (\<open>SkillInfo\<close> objects), their dynamic construction, schema extraction from
  dataclasses, the \<open>skill\<close> decorator and \<open>SkillBlueprint\<close>. \<open>SkillInfo\<close> is a struct class of
  rxon: a class is its field list with defaults, an object is its class and field values.
  \<open>extract\<close> stands for rxon's \<open>extract_json_schema\<close>, \<open>cleandoc\<close> for \<open>inspect.cleandoc\<close>.
\<close>

section \<open>Struct classes and objects\<close>

record struct_class =
  sc_name :: string
  sc_fields :: "(string, pyval option) dict" \<comment> \<open>field name, default (\<open>None\<close>: required)\<close>

record skill_info =
  si_class :: struct_class
  si_fields :: "(string, pyval) dict"

definition known_fields :: "struct_class \<Rightarrow> string list" where
  "known_fields c = dkeys (sc_fields c)"

text \<open>\<open>getattr(info, name)\<close> for a declared field.\<close>

definition attr :: "skill_info \<Rightarrow> string \<Rightarrow> pyval" where
  "attr i f = dget_or (si_fields i) f PNone"

definition si_name :: "skill_info \<Rightarrow> string" where
  "si_name i = (case attr i ''name'' of PStr s \<Rightarrow> s | _ \<Rightarrow> [])"

definition si_type :: "skill_info \<Rightarrow> string option" where
  "si_type i = (case attr i ''type'' of PStr s \<Rightarrow> Some s | _ \<Rightarrow> None)"

text \<open>\<open>replace(obj, f=v)\<close>.\<close>

definition with_attr :: "string \<Rightarrow> pyval \<Rightarrow> skill_info \<Rightarrow> skill_info" where
  "with_attr f v i = i\<lparr>si_fields := dset f v (si_fields i)\<rparr>"

text \<open>\<open>cls(**kwargs)\<close>: unknown and missing keywords raise, absent fields take their default.\<close>

fun init_fields :: "(string, pyval option) dict \<Rightarrow> (string, pyval) dict \<Rightarrow> (string, pyval) dict result" where
  "init_fields [] kwargs = Inr []"
| "init_fields ((f, d) # fs) kwargs =
     (case (dget kwargs f, d) of
        (Some v, _) \<Rightarrow> and_then (init_fields fs kwargs) (\<lambda>r. Inr ((f, v) # r))
      | (None, Some v) \<Rightarrow> and_then (init_fields fs kwargs) (\<lambda>r. Inr ((f, v) # r))
      | (None, None) \<Rightarrow> Inl (TypeError f))"

definition new_struct :: "struct_class \<Rightarrow> (string, pyval) dict \<Rightarrow> skill_info result" where
  "new_struct c kwargs =
     (if list_all (\<lambda>k. k \<in> set (known_fields c)) (dkeys kwargs)
      then and_then (init_fields (sc_fields c) kwargs) (\<lambda>fs. Inr \<lparr>si_class = c, si_fields = fs\<rparr>)
      else Inl (TypeError ''unexpected keyword argument''))"

section \<open>Schema extraction\<close>

record dc_field =
  df_name :: string
  df_schema :: "pyval option" \<comment> \<open>what \<open>extract_json_schema\<close> gives for the field's type\<close>
  df_optional :: bool \<comment> \<open>the type is a union with \<open>None\<close>\<close>
  df_default :: bool \<comment> \<open>the field has a default or a default factory\<close>

datatype schema_type =
    ModelClass pyval \<comment> \<open>a pydantic model, with its \<open>model_json_schema()\<close>\<close>
  | DataClass "dc_field list"
  | OtherType pyval

fun dc_properties :: "dc_field list \<Rightarrow> (string, pyval) dict \<Rightarrow> string list
    \<Rightarrow> (string, pyval) dict \<times> string list" where
  "dc_properties [] props req = (props, req)"
| "dc_properties (f # fs) props req =
     (if starts_with (df_name f) ''_'' then dc_properties fs props req
      else dc_properties fs
             (dset (df_name f) (case df_schema f of Some s \<Rightarrow> s | None \<Rightarrow> PDict []) props)
             (if \<not> df_default f \<and> \<not> df_optional f then req @ [df_name f] else req))"

fun pydantic_extractor :: "bool \<Rightarrow> schema_type \<Rightarrow> pyval option" where
  "pydantic_extractor pydantic_installed (ModelClass s) = (if pydantic_installed then Some s else None)"
| "pydantic_extractor pydantic_installed (DataClass fs) =
     (case dc_properties fs [] [] of (props, req) \<Rightarrow>
        Some (PDict [(''type'', PStr ''object''), (''properties'', PDict props),
               (''required'', PList (map PStr req)), (''additionalProperties'', PBool False)]))"
| "pydantic_extractor pydantic_installed (OtherType _) = None"

section \<open>Creating skill objects\<close>

text \<open>
  \<open>extract\<close> is \<open>worker_extract_json_schema\<close> on the value given for a schema: rxon's extractor
  with the local one plugged in; \<open>PNone\<close> where it finds nothing.
\<close>

definition map_entry :: "string \<Rightarrow> (pyval \<Rightarrow> pyval) \<Rightarrow> (string, pyval) dict \<Rightarrow> (string, pyval) dict" where
  "map_entry k f d = (case dget d k of Some v \<Rightarrow> dset k (f v) d | None \<Rightarrow> d)"

definition extract_events :: "(pyval \<Rightarrow> pyval) \<Rightarrow> pyval \<Rightarrow> pyval" where
  "extract_events extract v =
     (case v of PDict es \<Rightarrow> PDict (map (\<lambda>(k, s). (k, extract s)) es) | _ \<Rightarrow> v)"

definition dynamic_class :: "struct_class \<Rightarrow> (string, pyval) dict \<Rightarrow> struct_class" where
  "dynamic_class base extra =
     \<lparr>sc_name = ''Dynamic'' @ sc_name base,
      sc_fields = dmerge (sc_fields base) (map (\<lambda>(k, v). (k, None)) extra)\<rparr>"

definition create_dynamic_skill_object ::
  "(pyval \<Rightarrow> pyval) \<Rightarrow> struct_class \<Rightarrow> (string, pyval) dict \<Rightarrow> skill_info result" where
  "create_dynamic_skill_object extract base_class init_kwargs =
     (let known = set (known_fields base_class);
          extra_kwargs = filter (\<lambda>(k, v). k \<notin> known) init_kwargs;
          base_kwargs = filter (\<lambda>(k, v). k \<in> known) init_kwargs;
          base_kwargs = map_entry ''input_schema'' extract base_kwargs;
          base_kwargs = map_entry ''output_schema'' extract base_kwargs;
          base_kwargs = map_entry ''events_schema'' (extract_events extract) base_kwargs
      in if extra_kwargs = []
         then new_struct base_class
                (if dhas base_kwargs ''name'' then base_kwargs else dset ''name'' (PStr []) base_kwargs)
         else (let full_kwargs = dmerge base_kwargs extra_kwargs
               in new_struct (dynamic_class base_class extra_kwargs)
                    (if dhas full_kwargs ''name'' then full_kwargs
                     else dset ''name'' (PStr []) full_kwargs)))"

text \<open>The \<open>info\<close> argument of \<open>skill\<close>: nothing, a name, a class, or a ready object.\<close>

datatype skill_arg = NoInfo | NameInfo string | ClassInfo struct_class | ObjectInfo skill_info

definition skill_base_info ::
  "(pyval \<Rightarrow> pyval) \<Rightarrow> struct_class \<Rightarrow> skill_arg \<Rightarrow> (string, pyval) dict \<Rightarrow> skill_info result" where
  "skill_base_info extract own_class info kwargs =
     (case info of
        ClassInfo c \<Rightarrow> create_dynamic_skill_object extract c kwargs
      | ObjectInfo i \<Rightarrow> create_dynamic_skill_object extract (si_class i) (dmerge kwargs (si_fields i))
      | NameInfo n \<Rightarrow> create_dynamic_skill_object extract own_class
            (let k = dset ''name'' (PStr n) kwargs
             in if dhas k ''type'' then k else dset ''type'' (PStr n) k)
      | NoInfo \<Rightarrow> create_dynamic_skill_object extract own_class kwargs)"

section \<open>Handler functions\<close>

text \<open>
  What a handler does to the worker while it runs: the injected callbacks it calls, in order.
\<close>

record security_context =
  sec_signature :: string
  sec_signer_id :: string
  sec_identity_chain :: "string list option"

datatype act =
    AddHot string
  | RemoveHot string
  | SendEvent string pyval pyfloat "security_context option" pyval "string option"
      \<comment> \<open>event type, payload, priority, security, metadata, origin\<close>
  | SendProgress pyval pyval

datatype param_kind = Named | VarPositional | VarKeyword

record pyparam =
  pp_name :: string
  pp_kind :: param_kind
  pp_has_default :: bool

text \<open>The annotation of the argument called \<open>params\<close>; a dataclass by its fields and constructor.
  A field without a default has \<open>dataclasses.MISSING\<close> there; \<open>ParameterEmpty\<close> is the marker
  \<open>inspect.Parameter.empty\<close>, a different object.\<close>

datatype field_default = Missing | ParameterEmpty | DefaultIs pyval

record dc_param_field =
  pf_name :: string
  pf_default :: field_default
  pf_default_factory :: field_default

datatype params_annotation =
    PlainParams \<comment> \<open>no annotation, \<open>dict\<close>, or a type the worker does not convert to\<close>
  | PydanticParams "(string, pyval) dict \<Rightarrow> string + pyval" \<comment> \<open>\<open>model_validate\<close>, or its error text\<close>
  | DataclassParams "dc_param_field list" "(string, pyval) dict \<Rightarrow> pyval result"

record func =
  fn_name :: string
  fn_doc :: string
  fn_version :: "pyval option" \<comment> \<open>\<open>__version__\<close> of the defining module\<close>
  fn_input_schema :: pyval \<comment> \<open>inferred from the \<open>params\<close> argument, \<open>PNone\<close> if nothing is\<close>
  fn_output_schema :: pyval
  fn_params :: "pyparam list"
  fn_annotation :: params_annotation
  fn_hints :: "(string \<times> string list) list option" \<comment> \<open>argument, class names of its type hint\<close>
  fn_body :: "(string, pyval) dict \<Rightarrow> act list \<times> pyval result"

section \<open>The decorator\<close>

definition complete_attr :: "string \<Rightarrow> pyval option \<Rightarrow> skill_info \<Rightarrow> skill_info" where
  "complete_attr f v i =
     (if attr i f = PNone then (case v of Some x \<Rightarrow> with_attr f x i | None \<Rightarrow> i) else i)"

definition when_truthy :: "pyval \<Rightarrow> pyval option" where
  "when_truthy v = (if truthy v then Some v else None)"

definition decorate :: "(string \<Rightarrow> string) \<Rightarrow> skill_info \<Rightarrow> func \<Rightarrow> skill_info" where
  "decorate cleandoc info f =
     (let info = (if truthy (attr info ''name'') then info else with_attr ''name'' (PStr (fn_name f)) info);
          info = complete_attr ''description''
                   (if fn_doc f = [] then None else Some (PStr (cleandoc (fn_doc f)))) info;
          info = complete_attr ''version'' (fn_version f) info;
          info = complete_attr ''input_schema'' (when_truthy (fn_input_schema f)) info;
          info = complete_attr ''output_schema'' (when_truthy (fn_output_schema f)) info
      in info)"

text \<open>A blueprint collects decorated skills; the first decorator call fixes \<open>base_info\<close>.\<close>

record blueprint =
  bp_skills :: "(skill_info \<times> func) list"
  bp_class :: struct_class

definition blueprint_skill ::
  "(pyval \<Rightarrow> pyval) \<Rightarrow> (string \<Rightarrow> string) \<Rightarrow> skill_arg \<Rightarrow> (string, pyval) dict \<Rightarrow> func
    \<Rightarrow> blueprint \<Rightarrow> blueprint result" where
  "blueprint_skill extract cleandoc info kwargs f bp =
     and_then (skill_base_info extract (bp_class bp) info kwargs) (\<lambda>base.
       Inr (bp\<lparr>bp_skills := bp_skills bp @ [(decorate cleandoc base f, f)]\<rparr>))"

section \<open>Lemmas\<close>

lemma attr_with_attr [simp]: "attr (with_attr f v i) g = (if g = f then v else attr i g)"
  by (simp add: attr_def with_attr_def dget_or_dset)

lemma class_with_attr [simp]: "si_class (with_attr f v i) = si_class i"
  by (simp add: with_attr_def)

lemma attr_complete [simp]:
  "attr (complete_attr f v i) g =
     (if g = f \<and> attr i f = PNone then (case v of Some x \<Rightarrow> x | None \<Rightarrow> PNone) else attr i g)"
  by (auto simp: complete_attr_def split: option.splits)

lemma decorate_name:
  "attr (decorate cleandoc info f) ''name'' =
     (if truthy (attr info ''name'') then attr info ''name'' else PStr (fn_name f))"
  by (auto simp: decorate_def Let_def)

lemma decorate_explicit:
  "v \<noteq> PNone \<Longrightarrow> attr info g = v \<Longrightarrow> g \<noteq> ''name'' \<Longrightarrow> attr (decorate cleandoc info f) g = v"
  by (auto simp: decorate_def Let_def)

lemma init_fields_get:
  assumes "init_fields fs kwargs = Inr r"
  shows "dget r f = (case dget fs f of None \<Rightarrow> None
     | Some d \<Rightarrow> (case dget kwargs f of Some v \<Rightarrow> Some v | None \<Rightarrow> d))"
  using assms
  by (induction fs kwargs arbitrary: r rule: init_fields.induct)
    (auto simp: and_then_Inr_iff split: option.splits)

lemma init_fields_keys: "init_fields fs kwargs = Inr r \<Longrightarrow> dkeys r = dkeys fs"
  by (induction fs kwargs arbitrary: r rule: init_fields.induct)
    (auto simp: and_then_Inr_iff split: option.splits)

lemma init_fields_total:
  assumes "list_all (\<lambda>(f, d). d \<noteq> None \<or> dhas kwargs f) fs"
  shows "\<exists>r. init_fields fs kwargs = Inr r"
  using assms
  by (induction fs kwargs rule: init_fields.induct)
    (auto simp: and_then_Inr_iff dhas_iff split: option.splits)

lemma dc_properties_spec:
  assumes "dc_properties fs props req = (props', req')"
  shows "req' = req @ map df_name (filter (\<lambda>f. \<not> starts_with (df_name f) ''_'' \<and> \<not> df_default f \<and> \<not> df_optional f) fs)
    \<and> set (dkeys props') = set (dkeys props) \<union> df_name ` {f \<in> set fs. \<not> starts_with (df_name f) ''_''}"
  using assms
proof (induction fs props req rule: dc_properties.induct)
  case (2 f fs props req)
  then show ?case by (auto simp: dict.set_keys_put split: if_splits)
qed simp

end
