(* ===== verification/Config.thy ===== *)
theory Config
  imports Py_Value "HOL-Library.Multiset"
begin

text \<open>
  \<open>config.py\<close>: the \<open>WorkerConfig\<close> object read from the process environment. An environment is a
  dictionary of strings; \<open>loads\<close> stands for \<open>orjson.loads\<close> (\<open>None\<close> is its \<open>JSONDecodeError\<close>) and
  \<open>valid_identifier\<close> for rxon's identifier test. Conversions that raise end the constructor.
\<close>

section \<open>Sorting with a key comparison\<close>

text \<open>Python's sort is stable; an insertion sort that never passes an equal element is, too.\<close>

fun insert_by :: "('a \<Rightarrow> 'a \<Rightarrow> bool) \<Rightarrow> 'a \<Rightarrow> 'a list \<Rightarrow> 'a list" where
  "insert_by lt x [] = [x]"
| "insert_by lt x (y # ys) = (if lt y x then y # insert_by lt x ys else x # y # ys)"

definition sort_by :: "('a \<Rightarrow> 'a \<Rightarrow> bool) \<Rightarrow> 'a list \<Rightarrow> 'a list" where
  "sort_by lt xs = foldr (insert_by lt) xs []"

lemma mset_insert_by [simp]: "mset (insert_by lt x ys) = add_mset x (mset ys)"
  by (induction ys) auto

lemma mset_sort_by [simp]: "mset (sort_by lt xs) = mset xs"
  by (induction xs) (auto simp: sort_by_def)

lemma set_insert_by [simp]: "set (insert_by lt x ys) = insert x (set ys)"
  by (induction ys) auto

lemma set_sort_by [simp]: "set (sort_by lt xs) = set xs"
  by (metis mset_sort_by set_mset_mset)

text \<open>
  What a key comparison must promise on the elements being sorted: no two elements are each
  below the other, and "not below" is transitive. Then the sort is sorted and stable.
\<close>

locale key_order =
  fixes lt :: "'a \<Rightarrow> 'a \<Rightarrow> bool" and dom_ok :: "'a \<Rightarrow> bool"
  assumes asym: "dom_ok a \<Longrightarrow> dom_ok b \<Longrightarrow> lt a b \<Longrightarrow> \<not> lt b a"
    and not_lt_trans:
      "dom_ok a \<Longrightarrow> dom_ok b \<Longrightarrow> dom_ok c \<Longrightarrow> \<not> lt b a \<Longrightarrow> \<not> lt c b \<Longrightarrow> \<not> lt c a"
begin

definition in_order :: "'a list \<Rightarrow> bool" where
  "in_order xs = sorted_wrt (\<lambda>a b. \<not> lt b a) xs"

lemma in_order_insert_by:
  assumes "dom_ok x" and "\<forall>y \<in> set ys. dom_ok y" and "in_order ys"
  shows "in_order (insert_by lt x ys)"
  using assms
proof (induction ys)
  case Nil
  then show ?case by (simp add: in_order_def)
next
  case (Cons y ys)
  show ?case
  proof (cases "lt y x")
    case True
    with Cons show ?thesis by (auto simp: in_order_def asym)
  next
    case False
    have "\<not> lt z x" if "z \<in> set ys" for z
      using that Cons.prems False not_lt_trans [of x y z] by (auto simp: in_order_def)
    with False Cons.prems show ?thesis by (auto simp: in_order_def)
  qed
qed

lemma in_order_sort_by: "\<forall>x \<in> set xs. dom_ok x \<Longrightarrow> in_order (sort_by lt xs)"
proof (induction xs)
  case Nil
  then show ?case by (simp add: sort_by_def in_order_def)
next
  case (Cons x xs)
  then have "in_order (insert_by lt x (sort_by lt xs))"
    by (intro in_order_insert_by) auto
  then show ?case by (simp add: sort_by_def)
qed

lemma in_order_nth:
  "\<forall>x \<in> set xs. dom_ok x \<Longrightarrow> i < j \<Longrightarrow> j < length xs \<Longrightarrow>
   \<not> lt (sort_by lt xs ! j) (sort_by lt xs ! i)"
proof -
  assume a: "\<forall>x \<in> set xs. dom_ok x" and i: "i < j" and j: "j < length xs"
  have len: "length (sort_by lt xs) = length xs"
    by (metis mset_sort_by size_mset)
  from in_order_sort_by [OF a] show ?thesis
    using i j len by (simp add: in_order_def sorted_wrt_iff_nth_less)
qed

text \<open>Elements with equal keys keep the order in which they were given.\<close>

lemma filter_insert_by:
  assumes "dom_ok x" and "\<forall>y \<in> set ys. dom_ok y" and "dom_ok k"
    and "in_order ys"
  shows "filter (\<lambda>y. \<not> lt y k \<and> \<not> lt k y) (insert_by lt x ys) =
    (if \<not> lt x k \<and> \<not> lt k x then [x] else []) @ filter (\<lambda>y. \<not> lt y k \<and> \<not> lt k y) ys"
  using assms
proof (induction ys)
  case Nil
  then show ?case by simp
next
  case (Cons y ys)
  have "lt y x \<Longrightarrow> \<not> lt x k \<Longrightarrow> lt y k \<or> lt k y" if "\<not> lt k x"
    using that Cons.prems not_lt_trans [of x k y] by auto
  with Cons show ?case by (auto simp: in_order_def)
qed

lemma sort_by_stable:
  assumes "\<forall>x \<in> set xs. dom_ok x" and "dom_ok k"
  shows "filter (\<lambda>y. \<not> lt y k \<and> \<not> lt k y) (sort_by lt xs) = filter (\<lambda>y. \<not> lt y k \<and> \<not> lt k y) xs"
  using assms(1)
proof (induction xs)
  case Nil
  then show ?case by (simp add: sort_by_def)
next
  case (Cons x xs)
  have "in_order (sort_by lt xs)" using Cons.prems by (simp add: in_order_sort_by)
  with Cons.prems assms(2) have
    "filter (\<lambda>y. \<not> lt y k \<and> \<not> lt k y) (insert_by lt x (sort_by lt xs)) =
      (if \<not> lt x k \<and> \<not> lt k x then [x] else []) @
        filter (\<lambda>y. \<not> lt y k \<and> \<not> lt k y) (sort_by lt xs)"
    by (intro filter_insert_by) auto
  moreover have "sort_by lt (x # xs) = insert_by lt x (sort_by lt xs)"
    by (simp add: sort_by_def)
  ultimately show ?case using Cons by simp
qed

end

section \<open>Comparing JSON values\<close>

fun num_of :: "pyval \<Rightarrow> pyfloat option" where
  "num_of (PBool b) = Some (Fin (if b then 1 else 0))"
| "num_of (PInt i) = Some (Fin (rat_of_int i))"
| "num_of (PFloat x) = Some x"
| "num_of _ = None"

fun str_less :: "string \<Rightarrow> string \<Rightarrow> bool" where
  "str_less _ [] = False"
| "str_less [] (y # ys) = True"
| "str_less (x # xs) (y # ys) =
     ((of_char x :: nat) < of_char y \<or> x = y \<and> str_less xs ys)"

text \<open>\<open>a == b\<close> on scalars: numbers by value across \<open>bool\<close>, \<open>int\<close> and \<open>float\<close>.\<close>

definition py_eq :: "pyval \<Rightarrow> pyval \<Rightarrow> bool" where
  "py_eq a b = (case (num_of a, num_of b) of
      (Some x, Some y) \<Rightarrow> x = y \<and> x \<noteq> NaN
    | _ \<Rightarrow> a = b)"

text \<open>
  \<open>a < b\<close>: \<open>None\<close> is the TypeError of values that have no order (Python would also order two
  lists element by element; a list-valued key is treated as unordered here).
\<close>

definition py_lt :: "pyval \<Rightarrow> pyval \<Rightarrow> bool option" where
  "py_lt a b = (case (num_of a, num_of b) of
      (Some x, Some y) \<Rightarrow> Some (x < y)
    | _ \<Rightarrow> (case (a, b) of (PStr s, PStr t) \<Rightarrow> Some (str_less s t) | _ \<Rightarrow> None))"

section \<open>Orchestrator entries\<close>

text \<open>An orchestrator is the JSON object of its configuration, as a dictionary.\<close>

type_synonym orch = "(string, pyval) dict"

definition with_default :: "string \<Rightarrow> pyval \<Rightarrow> orch \<Rightarrow> orch" where
  "with_default k v o' = (if dhas o' k then o' else dset k v o')"

definition fill_defaults :: "orch \<Rightarrow> orch" where
  "fill_defaults o' = with_default ''weight'' (PInt 1) (with_default ''priority'' (PInt 10) o')"

text \<open>The sort key \<open>(x.get(''priority'', 10), x.get(''url''))\<close> and its comparison as a tuple.\<close>

definition prio_of :: "orch \<Rightarrow> pyval" where
  "prio_of o' = dget_or o' ''priority'' (PInt 10)"

definition url_of :: "orch \<Rightarrow> pyval" where
  "url_of o' = dget_or o' ''url'' PNone"

definition entry_lt :: "orch \<Rightarrow> orch \<Rightarrow> bool option" where
  "entry_lt a b =
     (if \<not> py_eq (prio_of a) (prio_of b) then py_lt (prio_of a) (prio_of b)
      else if \<not> py_eq (url_of a) (url_of b) then py_lt (url_of a) (url_of b)
      else Some False)"

definition entry_less :: "orch \<Rightarrow> orch \<Rightarrow> bool" where
  "entry_less a b = (entry_lt a b = Some True)"

text \<open>
  A comparison sort has to compare across every boundary between unordered keys, so it raises
  as soon as some pair of entries is unordered.
\<close>

fun all_pairs :: "('a \<Rightarrow> 'a \<Rightarrow> bool) \<Rightarrow> 'a list \<Rightarrow> bool" where
  "all_pairs p [] = True"
| "all_pairs p (x # xs) = (list_all (p x) xs \<and> all_pairs p xs)"

definition sort_entries :: "orch list \<Rightarrow> orch list result" where
  "sort_entries os =
     (if all_pairs (\<lambda>a b. entry_lt a b \<noteq> None) os then Inr (sort_by entry_less os)
      else Inl (TypeError ''not supported between instances''))"

fun as_entries :: "pyval list \<Rightarrow> orch list option" where
  "as_entries [] = Some []"
| "as_entries (PDict d # vs) = map_option ((#) d) (as_entries vs)"
| "as_entries (_ # vs) = None"

text \<open>
  JSON that is not a list of objects fails in the loop or in \<open>.sort\<close> / \<open>x.get\<close> with a TypeError
  or an AttributeError, which nothing here catches; the model does not tell the two apart.
\<close>

definition orchestrators_of_json :: "pyval \<Rightarrow> orch list result" where
  "orchestrators_of_json v =
     (case v of
        PList vs \<Rightarrow> (case as_entries vs of
            Some os \<Rightarrow> sort_entries (map fill_defaults os)
          | None \<Rightarrow> Inl (TypeError ''ORCHESTRATORS_CONFIG''))
      | _ \<Rightarrow> Inl (TypeError ''ORCHESTRATORS_CONFIG''))"

type_synonym environ = "(string, string) dict"

definition getenv :: "environ \<Rightarrow> string \<Rightarrow> string \<Rightarrow> string" where
  "getenv env k d = dget_or env k d"

text \<open>\<open>if value := getenv(key)\<close>: an empty variable counts as unset.\<close>

definition getenv_set :: "environ \<Rightarrow> string \<Rightarrow> string option" where
  "getenv_set env k = (case dget env k of Some s \<Rightarrow> if s = [] then None else Some s | None \<Rightarrow> None)"

definition default_orchestrators :: "environ \<Rightarrow> orch list" where
  "default_orchestrators env =
     [[(''url'', PStr (getenv env ''ORCHESTRATOR_URL'' ''http://localhost:8080'')),
       (''priority'', PInt 1), (''weight'', PInt 1)]]"

definition get_orchestrators_config :: "(string \<Rightarrow> pyval option) \<Rightarrow> environ \<Rightarrow> orch list result" where
  "get_orchestrators_config loads env =
     (case getenv_set env ''ORCHESTRATORS_CONFIG'' of
        Some js \<Rightarrow> (case loads js of
            Some v \<Rightarrow> orchestrators_of_json v
          | None \<Rightarrow> Inr (default_orchestrators env))
      | None \<Rightarrow> Inr (default_orchestrators env))"

section \<open>Other loaders\<close>

definition load_json_from_env :: "(string \<Rightarrow> pyval option) \<Rightarrow> environ \<Rightarrow> string \<Rightarrow> pyval \<Rightarrow> pyval" where
  "load_json_from_env loads env key dflt =
     (case getenv_set env key of
        Some s \<Rightarrow> (case loads s of Some v \<Rightarrow> v | None \<Rightarrow> dflt)
      | None \<Rightarrow> dflt)"

definition extra_prefix :: string where
  "extra_prefix = ''WORKER_EXTRA_''"

definition extra_value :: "(string \<Rightarrow> pyval option) \<Rightarrow> string \<Rightarrow> pyval" where
  "extra_value loads value =
     (if starts_with value ''{'' \<or> starts_with value ''[''
      then (case loads value of Some v \<Rightarrow> v | None \<Rightarrow> PStr value)
      else PStr value)"

fun load_extra_from_env :: "(string \<Rightarrow> pyval option) \<Rightarrow> environ \<Rightarrow> (string, pyval) dict \<Rightarrow> (string, pyval) dict" where
  "load_extra_from_env loads [] extra = extra"
| "load_extra_from_env loads ((key, value) # rest) extra =
     load_extra_from_env loads rest
       (if starts_with key extra_prefix
        then dset (lower (drop (length extra_prefix) key)) (extra_value loads value) extra
        else extra)"

definition env_int :: "environ \<Rightarrow> string \<Rightarrow> string \<Rightarrow> int result" where
  "env_int env k d =
     (case py_int_of_string (getenv env k d) of
        Some i \<Rightarrow> Inr i | None \<Rightarrow> Inl (ValueError k))"

definition env_float :: "environ \<Rightarrow> string \<Rightarrow> string \<Rightarrow> pyfloat result" where
  "env_float env k d =
     (case py_float_of_string (getenv env k d) of
        Some x \<Rightarrow> Inr x | None \<Rightarrow> Inl (ValueError k))"

definition env_bool :: "environ \<Rightarrow> string \<Rightarrow> string \<Rightarrow> bool" where
  "env_bool env k d = (lower (getenv env k d) = ''true'')"

definition gpu_device :: "environ \<Rightarrow> pyval list result" where
  "gpu_device env =
     (case getenv_set env ''GPU_MODEL'' of
        None \<Rightarrow> Inr []
      | Some model \<Rightarrow> and_then (env_int env ''GPU_VRAM_GB'' ''0'') (\<lambda>vram.
          Inr [PDict [(''type'', PStr ''gpu''), (''model'', PStr model),
                 (''id'', PStr (getenv env ''GPU_ID'' ''0'')),
                 (''properties'', PDict [(''memory_gb'', PInt vram)])]]))"

definition generic_devices :: "(string \<Rightarrow> pyval option) \<Rightarrow> environ \<Rightarrow> pyval list" where
  "generic_devices loads env =
     (case getenv_set env ''WORKER_DEVICES'' of
        Some js \<Rightarrow> (case loads js of Some (PList vs) \<Rightarrow> vs | _ \<Rightarrow> [])
      | None \<Rightarrow> [])"

definition get_devices :: "(string \<Rightarrow> pyval option) \<Rightarrow> environ \<Rightarrow> pyval list option result" where
  "get_devices loads env =
     and_then (gpu_device env) (\<lambda>gpu.
       let devices = gpu @ generic_devices loads env
       in Inr (if devices = [] then None else Some devices))"

section \<open>The configuration object\<close>

record worker_config =
  cfg_worker_id :: string
  cfg_worker_type :: string
  cfg_worker_port :: int
  cfg_hostname :: string
  cfg_ip_address :: string
  cfg_orchestrators :: "orch list"
  cfg_worker_token :: string
  cfg_tls_ca_path :: "string option"
  cfg_tls_cert_path :: "string option"
  cfg_tls_key_path :: "string option"
  cfg_cost_per_skill :: pyval
  cfg_max_concurrent_tasks :: int
  cfg_resources :: "(string, pyval) dict"
  cfg_installed_software :: pyval
  cfg_installed_artifacts :: pyval
  cfg_task_files_dir :: string
  cfg_s3_endpoint_url :: "string option"
  cfg_s3_access_key :: "string option"
  cfg_s3_secret_key :: "string option"
  cfg_s3_default_bucket :: string
  cfg_s3_region :: string
  cfg_heartbeat_interval :: pyfloat
  cfg_result_max_retries :: int
  cfg_result_retry_initial_delay :: pyfloat
  cfg_registration_retry_initial_delay :: pyfloat
  cfg_registration_retry_max_delay :: pyfloat
  cfg_heartbeat_cooldown :: pyfloat
  cfg_rate_limit_backoff_floor :: pyfloat
  cfg_task_poll_timeout :: pyfloat
  cfg_task_poll_error_delay :: pyfloat
  cfg_poll_backoff_initial :: pyfloat
  cfg_poll_backoff_max :: pyfloat
  cfg_poll_backoff_factor :: pyfloat
  cfg_idle_poll_delay :: pyfloat
  cfg_shutdown_timeout :: pyfloat
  cfg_enable_websockets :: bool
  cfg_multi_orchestrator_mode :: string
  cfg_worker_skills_dir :: string
  cfg_strict_event_validation :: bool
  cfg_enable_metrics :: bool
  cfg_blob_cache_dir :: string
  cfg_telemetry_deadband :: pyfloat
  cfg_telemetry_force_interval :: pyfloat
  cfg_extra_capabilities :: "(string, pyval) dict"

text \<open>
  The constructor. \<open>uuid\<close> is the fresh identifier, \<open>host\<close> and \<open>ip\<close> what the resolver returns
  (\<open>None\<close>: \<open>gaierror\<close>, which leaves the loopback address). Conversions that raise are sequenced
  in the order of the assignments; the rest cannot fail.
\<close>

definition default_token :: string where
  "default_token = ''your-secret-worker-token''"

definition worker_config_init ::
  "(string \<Rightarrow> pyval option) \<Rightarrow> string \<Rightarrow> string \<Rightarrow> string option \<Rightarrow> environ \<Rightarrow> worker_config result" where
  "worker_config_init loads uuid host ip env =
   and_then (env_int env ''WORKER_PORT'' ''8083'') (\<lambda>port.
   and_then (get_orchestrators_config loads env) (\<lambda>orchs.
   and_then (env_int env ''MAX_CONCURRENT_TASKS'' ''10'') (\<lambda>max_tasks.
   and_then (env_int env ''CPU_CORES'' ''4'') (\<lambda>cores.
   and_then (env_float env ''RAM_GB'' ''0.0'') (\<lambda>ram.
   and_then (get_devices loads env) (\<lambda>devices.
   and_then (env_float env ''HEARTBEAT_INTERVAL'' ''15'') (\<lambda>hb_interval.
   and_then (env_int env ''RESULT_MAX_RETRIES'' ''5'') (\<lambda>retries.
   and_then (env_float env ''RESULT_RETRY_INITIAL_DELAY'' ''1.0'') (\<lambda>result_delay.
   and_then (env_float env ''REGISTRATION_RETRY_INITIAL_DELAY'' ''1.0'') (\<lambda>reg_initial.
   and_then (env_float env ''REGISTRATION_RETRY_MAX_DELAY'' ''60.0'') (\<lambda>reg_max.
   and_then (env_float env ''WORKER_HEARTBEAT_COOLDOWN'' ''2.0'') (\<lambda>cooldown.
   and_then (env_float env ''RATE_LIMIT_BACKOFF_FLOOR'' ''30.0'') (\<lambda>rl_floor.
   and_then (env_float env ''TASK_POLL_TIMEOUT'' ''30'') (\<lambda>poll_timeout.
   and_then (env_float env ''TASK_POLL_ERROR_DELAY'' ''5.0'') (\<lambda>poll_error.
   and_then (env_float env ''POLL_BACKOFF_INITIAL'' ''1.0'') (\<lambda>poll_initial.
   and_then (env_float env ''POLL_BACKOFF_MAX'' ''60.0'') (\<lambda>poll_max.
   and_then (env_float env ''POLL_BACKOFF_FACTOR'' ''2.0'') (\<lambda>poll_factor.
   and_then (env_float env ''IDLE_POLL_DELAY'' ''0.5'') (\<lambda>idle_delay.
   and_then (env_float env ''WORKER_SHUTDOWN_TIMEOUT'' ''30.0'') (\<lambda>shutdown.
   and_then (env_float env ''WORKER_TELEMETRY_DEADBAND'' ''5.0'') (\<lambda>deadband.
   and_then (env_float env ''WORKER_TELEMETRY_FORCE_INTERVAL'' ''60.0'') (\<lambda>force.
   Inr \<lparr> cfg_worker_id = getenv env ''WORKER_ID'' (''worker-'' @ uuid),
     cfg_worker_type = getenv env ''WORKER_TYPE'' ''generic-cpu-worker'',
     cfg_worker_port = port,
     cfg_hostname = host,
     cfg_ip_address = (case ip of Some a \<Rightarrow> a | None \<Rightarrow> ''127.0.0.1''),
     cfg_orchestrators = orchs,
     cfg_worker_token = getenv env ''WORKER_INDIVIDUAL_TOKEN'' (getenv env ''WORKER_TOKEN'' default_token),
     cfg_tls_ca_path = dget env ''TLS_CA_PATH'',
     cfg_tls_cert_path = dget env ''TLS_CERT_PATH'',
     cfg_tls_key_path = dget env ''TLS_KEY_PATH'',
     cfg_cost_per_skill = load_json_from_env loads env ''COST_PER_SKILL'' (PDict []),
     cfg_max_concurrent_tasks = max_tasks,
     cfg_resources = [(''cpu_cores'', PInt cores), (''ram_gb'', PFloat ram),
       (''devices'', case devices of None \<Rightarrow> PNone | Some ds \<Rightarrow> PList ds)],
     cfg_installed_software =
       load_json_from_env loads env ''INSTALLED_SOFTWARE'' (PDict [(''python'', PStr ''3.11'')]),
     cfg_installed_artifacts = load_json_from_env loads env ''INSTALLED_ARTIFACTS'' (PList []),
     cfg_task_files_dir = getenv env ''TASK_FILES_DIR'' ''/tmp/payloads'',
     cfg_s3_endpoint_url = dget env ''S3_ENDPOINT_URL'',
     cfg_s3_access_key = dget env ''S3_ACCESS_KEY'',
     cfg_s3_secret_key = dget env ''S3_SECRET_KEY'',
     cfg_s3_default_bucket = getenv env ''S3_DEFAULT_BUCKET'' ''avtomatika-payloads'',
     cfg_s3_region = getenv env ''S3_REGION'' ''us-east-1'',
     cfg_heartbeat_interval = hb_interval,
     cfg_result_max_retries = retries,
     cfg_result_retry_initial_delay = result_delay,
     cfg_registration_retry_initial_delay = reg_initial,
     cfg_registration_retry_max_delay = reg_max,
     cfg_heartbeat_cooldown = cooldown,
     cfg_rate_limit_backoff_floor = rl_floor,
     cfg_task_poll_timeout = poll_timeout,
     cfg_task_poll_error_delay = poll_error,
     cfg_poll_backoff_initial = poll_initial,
     cfg_poll_backoff_max = poll_max,
     cfg_poll_backoff_factor = poll_factor,
     cfg_idle_poll_delay = idle_delay,
     cfg_shutdown_timeout = shutdown,
     cfg_enable_websockets = env_bool env ''WORKER_ENABLE_WEBSOCKETS'' ''false'',
     cfg_multi_orchestrator_mode = getenv env ''MULTI_ORCHESTRATOR_MODE'' ''WATERFALL'',
     cfg_worker_skills_dir = getenv env ''WORKER_SKILLS_DIR'' ''skills'',
     cfg_strict_event_validation = env_bool env ''STRICT_EVENT_VALIDATION'' ''true'',
     cfg_enable_metrics = env_bool env ''WORKER_ENABLE_METRICS'' ''false'',
     cfg_blob_cache_dir = getenv env ''WORKER_BLOB_CACHE_DIR'' ''/tmp/avtomatika_cache'',
     cfg_telemetry_deadband = deadband,
     cfg_telemetry_force_interval = force,
     cfg_extra_capabilities = load_extra_from_env loads env [] \<rparr>
   ))))))))))))))))))))))"

text \<open>\<open>validate\<close>: the first violated check raises.\<close>

fun check_urls :: "orch list \<Rightarrow> unit result" where
  "check_urls [] = Inr ()"
| "check_urls (o' # os) =
     (if truthy (url_of o') then check_urls os
      else Inl (ValueError ''Orchestrator configuration missing URL.''))"

definition validate :: "(string \<Rightarrow> bool) \<Rightarrow> worker_config \<Rightarrow> unit result" where
  "validate valid_identifier cfg =
     (if \<not> valid_identifier (cfg_worker_id cfg) then Inl (ValueError ''WORKER_ID'')
      else if cfg_orchestrators cfg = [] then Inl (ValueError ''No orchestrators configured.'')
      else check_urls (cfg_orchestrators cfg))"

section \<open>The key order of orchestrators\<close>

lemma str_less_irrefl [simp]: "\<not> str_less s s"
  by (induction s) auto

lemma str_less_asym: "str_less s t \<Longrightarrow> \<not> str_less t s"
  by (induction s t rule: str_less.induct) auto

lemma str_less_total: "\<not> str_less s t \<Longrightarrow> \<not> str_less t s \<Longrightarrow> s = t"
proof (induction s t rule: str_less.induct)
  case (1 s)
  then show ?case by (cases s) auto
next
  case (2 y ys)
  then show ?case by simp
next
  case (3 x xs y ys)
  then have "(of_char x :: nat) = of_char y" by auto
  then have "x = y" by (simp add: of_char_eq_iff)
  with 3 show ?case by auto
qed

lemma str_less_trans: "str_less s t \<Longrightarrow> str_less t u \<Longrightarrow> str_less s u"
proof (induction s t arbitrary: u rule: str_less.induct)
  case (3 x xs y ys)
  then show ?case by (cases u) auto
next
  case (2 y ys)
  then show ?case by (cases u) auto
qed simp

text \<open>Entries whose priority is a finite number and whose url is a string.\<close>

fun finite_num :: "pyval \<Rightarrow> bool" where
  "finite_num (PBool _) = True"
| "finite_num (PInt _) = True"
| "finite_num (PFloat (Fin _)) = True"
| "finite_num _ = False"

fun is_str :: "pyval \<Rightarrow> bool" where
  "is_str (PStr _) = True"
| "is_str _ = False"

definition entry_ok :: "orch \<Rightarrow> bool" where
  "entry_ok o' = (finite_num (prio_of o') \<and> is_str (url_of o'))"

lemma finite_num_iff: "finite_num v \<longleftrightarrow> (\<exists>a. num_of v = Some (Fin a))"
  by (cases v rule: finite_num.cases) auto

lemma entry_ok_E:
  assumes "entry_ok o'"
  obtains a u where "num_of (prio_of o') = Some (Fin a)" and "url_of o' = PStr u"
  using assms unfolding entry_ok_def finite_num_iff by (cases "url_of o'") auto

lemma entry_lt_ok:
  assumes "num_of (prio_of x) = Some (Fin a)" and "url_of x = PStr u"
    and "num_of (prio_of y) = Some (Fin b)" and "url_of y = PStr v"
  shows "entry_lt x y = Some (a < b \<or> a = b \<and> str_less u v)"
  using assms by (auto simp: entry_lt_def py_eq_def py_lt_def)

lemma entry_lt_defined: "entry_ok x \<Longrightarrow> entry_ok y \<Longrightarrow> entry_lt x y \<noteq> None"
  by (elim entry_ok_E) (simp add: entry_lt_ok)

lemma all_pairs_entry_ok: "list_all entry_ok os \<Longrightarrow> all_pairs (\<lambda>a b. entry_lt a b \<noteq> None) os"
proof (induction os)
  case (Cons a os)
  then have "entry_lt a b \<noteq> None" if "b \<in> set os" for b
    using that by (intro entry_lt_defined) (auto simp: list_all_iff)
  with Cons show ?case by (simp add: list_all_iff)
qed simp

interpretation orch_order: key_order entry_less entry_ok
proof unfold_locales
  fix x y :: orch
  assume "entry_ok x" and "entry_ok y" and "entry_less x y"
  then show "\<not> entry_less y x"
    by (elim entry_ok_E) (auto simp: entry_less_def entry_lt_ok str_less_asym)
next
  fix x y z :: orch
  assume "entry_ok x" "entry_ok y" "entry_ok z" "\<not> entry_less y x" "\<not> entry_less z y"
  then show "\<not> entry_less z x"
    by (elim entry_ok_E)
      (auto simp: entry_less_def entry_lt_ok dest: str_less_total str_less_trans intro: str_less_trans)
qed

lemma as_entries_map [simp]: "as_entries (map PDict os) = Some os"
  by (induction os) auto

lemma fill_defaults_keys [simp]:
  "prio_of (fill_defaults o') = prio_of o'" "url_of (fill_defaults o') = url_of o'"
  by (auto simp: fill_defaults_def with_default_def prio_of_def url_of_def dget_or_def dhas_iff
      dict.get_put split: option.splits)

lemma fill_defaults_has: "dhas (fill_defaults o') ''weight''" "dhas (fill_defaults o') ''priority''"
  by (auto simp: fill_defaults_def with_default_def dict_simps)

lemma entry_ok_fill_defaults [simp]: "entry_ok (fill_defaults o') = entry_ok o'"
  by (simp add: entry_ok_def)

lemma orchestrators_of_json_ok:
  assumes "list_all entry_ok os"
  shows "orchestrators_of_json (PList (map PDict os)) = Inr (sort_by entry_less (map fill_defaults os))"
  using all_pairs_entry_ok [of "map fill_defaults os"] assms
  by (simp add: orchestrators_of_json_def sort_entries_def list_all_length)

section \<open>A sample configuration\<close>

definition sample_config :: worker_config where
  "sample_config = \<lparr> cfg_worker_id = ''w1'', cfg_worker_type = ''test'', cfg_worker_port = 8083,
     cfg_hostname = ''host'', cfg_ip_address = ''127.0.0.1'', cfg_orchestrators = [],
     cfg_worker_token = default_token, cfg_tls_ca_path = None, cfg_tls_cert_path = None,
     cfg_tls_key_path = None, cfg_cost_per_skill = PDict [], cfg_max_concurrent_tasks = 2,
     cfg_resources = [], cfg_installed_software = PDict [], cfg_installed_artifacts = PList [],
     cfg_task_files_dir = ''/tmp/payloads'', cfg_s3_endpoint_url = None, cfg_s3_access_key = None,
     cfg_s3_secret_key = None, cfg_s3_default_bucket = ''b'', cfg_s3_region = ''r'',
     cfg_heartbeat_interval = Fin 15, cfg_result_max_retries = 5,
     cfg_result_retry_initial_delay = Fin 1, cfg_registration_retry_initial_delay = Fin 1,
     cfg_registration_retry_max_delay = Fin 60, cfg_heartbeat_cooldown = Fin 2,
     cfg_rate_limit_backoff_floor = Fin 30, cfg_task_poll_timeout = Fin 30,
     cfg_task_poll_error_delay = Fin 5, cfg_poll_backoff_initial = Fin 1,
     cfg_poll_backoff_max = Fin 60, cfg_poll_backoff_factor = Fin 2, cfg_idle_poll_delay = Fin (1/2),
     cfg_shutdown_timeout = Fin 30, cfg_enable_websockets = False,
     cfg_multi_orchestrator_mode = ''WATERFALL'', cfg_worker_skills_dir = ''skills'',
     cfg_strict_event_validation = True, cfg_enable_metrics = False,
     cfg_blob_cache_dir = ''/tmp/cache'', cfg_telemetry_deadband = Fin 5,
     cfg_telemetry_force_interval = Fin 60, cfg_extra_capabilities = [] \<rparr>"

section \<open>Properties\<close>

text \<open>
  C31: A decodable \<open>ORCHESTRATORS_CONFIG\<close> of objects with numeric priorities and string urls is
  accepted: the result holds exactly the configured entries with \<open>priority\<close> and \<open>weight\<close> filled
  in, no entry stands before one with a smaller (priority, url), and entries with equal keys
  keep their order.
\<close>

theorem orchestrators_sorted:
  assumes "getenv_set env ''ORCHESTRATORS_CONFIG'' = Some js"
    and "loads js = Some (PList (map PDict os))"
    and "list_all entry_ok os"
  shows "\<exists>rs. get_orchestrators_config loads env = Inr rs
     \<and> mset rs = image_mset fill_defaults (mset os)
     \<and> sorted_wrt (\<lambda>a b. \<not> entry_less b a) rs
     \<and> list_all (\<lambda>o'. dhas o' ''priority'' \<and> dhas o' ''weight'') rs
     \<and> (entry_ok k \<longrightarrow> filter (\<lambda>y. \<not> entry_less y k \<and> \<not> entry_less k y) rs =
          filter (\<lambda>y. \<not> entry_less y k \<and> \<not> entry_less k y) (map fill_defaults os))"
proof -
  let ?rs = "sort_by entry_less (map fill_defaults os)"
  have ok: "\<forall>x \<in> set (map fill_defaults os). entry_ok x"
    using assms(3) by (auto simp: list_all_iff)
  have "get_orchestrators_config loads env = Inr ?rs"
    using assms by (simp add: get_orchestrators_config_def orchestrators_of_json_ok)
  moreover have "list_all (\<lambda>o'. dhas o' ''priority'' \<and> dhas o' ''weight'') ?rs"
    by (auto simp: list_all_iff fill_defaults_has)
  moreover have "sorted_wrt (\<lambda>a b. \<not> entry_less b a) ?rs"
    using orch_order.in_order_sort_by [OF ok] by (simp add: orch_order.in_order_def)
  ultimately show ?thesis using orch_order.sort_by_stable [OF ok] by auto
qed

theorem orchestrators_sorted_witness:
  "\<exists>rs. get_orchestrators_config
       (\<lambda>_. Some (PList [PDict [(''url'', PStr ''b'')], PDict [(''url'', PStr ''a''), (''priority'', PInt 1)]]))
       [(''ORCHESTRATORS_CONFIG'', ''x'')] = Inr rs \<and> length rs = 2"
proof -
  let ?os = "[[(''url'', PStr ''b'')], [(''url'', PStr ''a''), (''priority'', PInt 1)]]"
  have "list_all entry_ok ?os" by (simp add: entry_ok_def prio_of_def url_of_def dget_or_def)
  moreover have "getenv_set [(''ORCHESTRATORS_CONFIG'', ''x'')] ''ORCHESTRATORS_CONFIG'' = Some ''x''"
    by (simp add: getenv_set_def)
  ultimately obtain rs where
    rs: "get_orchestrators_config (\<lambda>_. Some (PList (map PDict ?os))) [(''ORCHESTRATORS_CONFIG'', ''x'')] = Inr rs"
      "mset rs = image_mset fill_defaults (mset ?os)"
    using orchestrators_sorted [where env = "[(''ORCHESTRATORS_CONFIG'', ''x'')]" and js = "''x''"
        and loads = "\<lambda>_. Some (PList (map PDict ?os))" and os = ?os] by blast
  from rs(2) have "size (mset rs) = 2" by simp
  with rs(1) show ?thesis by simp
qed

text \<open>
  With no variable set the constructor succeeds whatever the JSON decoder does, with the
  documented defaults (delays, limits, WATERFALL mode, strict events), and the resulting
  configuration validates exactly when the generated worker id is a valid identifier.
\<close>

theorem default_configuration:
  "\<exists>cfg. worker_config_init loads uuid host ip [] = Inr cfg
     \<and> cfg_max_concurrent_tasks cfg = 10 \<and> cfg_result_max_retries cfg = 5
     \<and> cfg_poll_backoff_initial cfg = Fin 1 \<and> cfg_poll_backoff_max cfg = Fin 60
     \<and> cfg_poll_backoff_factor cfg = Fin 2 \<and> cfg_rate_limit_backoff_floor cfg = Fin 30
     \<and> cfg_heartbeat_interval cfg = Fin 15 \<and> cfg_heartbeat_cooldown cfg = Fin 2
     \<and> cfg_telemetry_deadband cfg = Fin 5 \<and> cfg_telemetry_force_interval cfg = Fin 60
     \<and> cfg_multi_orchestrator_mode cfg = ''WATERFALL'' \<and> cfg_strict_event_validation cfg
     \<and> validate valid_identifier cfg =
         (if valid_identifier (''worker-'' @ uuid) then Inr () else Inl (ValueError ''WORKER_ID''))"
proof -
  have ints: "py_int_of_string ''8083'' = Some 8083" "py_int_of_string ''10'' = Some 10"
    "py_int_of_string ''4'' = Some 4" "py_int_of_string ''5'' = Some 5"
    by code_simp+
  have floats: "py_float_of_string ''0.0'' = Some (Fin 0)" "py_float_of_string ''15'' = Some (Fin 15)"
    "py_float_of_string ''1.0'' = Some (Fin 1)" "py_float_of_string ''60.0'' = Some (Fin 60)"
    "py_float_of_string ''2.0'' = Some (Fin 2)" "py_float_of_string ''30.0'' = Some (Fin 30)"
    "py_float_of_string ''30'' = Some (Fin 30)" "py_float_of_string ''5.0'' = Some (Fin 5)"
    "py_float_of_string ''0.5'' = Some (Fin (1/2))"
    by code_simp+
  have strict: "lower ''true'' = ''true''" by code_simp
  show ?thesis
    by (simp add: worker_config_init_def env_int_def env_float_def env_bool_def getenv_def dget_or_def
        get_orchestrators_config_def getenv_set_def default_orchestrators_def get_devices_def
        gpu_device_def generic_devices_def validate_def url_of_def ints floats strict)
qed

end
