(* ===== verification/Messages.thy ===== *)
theory Messages
  imports Skills Config
begin

text \<open>
  The protocol messages the worker builds (rxon models, with the fields the worker sets) and
  their signing. \<open>sign\<close> stands for rxon's \<open>sign_payload\<close>; its last argument is \<open>ignore_fields\<close>.
\<close>

record task_error =
  err_code :: pyval
  err_message :: pyval
  err_details :: "(string, pyval) dict" \<comment> \<open>any further field of the error object\<close>

record file_metadata =
  fm_uri :: string
  fm_size :: "nat option"
  fm_etag :: "string option"

record task_result =
  tr_job_id :: string
  tr_task_id :: string
  tr_worker_id :: string
  tr_origin_worker_id :: "string option"
  tr_status :: pyval
  tr_data :: "pyval option"
  tr_error :: "task_error option"
  tr_data_metadata :: "(string, file_metadata) dict option"
  tr_security :: "security_context option"
  tr_metadata :: pyval
  tr_timestamp :: int
  tr_costs :: "(string, pyval) dict option"

record device_usage =
  du_unit_id :: string
  du_load_percent :: rat
  du_metrics :: "(string, rat) dict option"

record resources_usage =
  ru_cpu_load_percent :: rat
  ru_ram_used_gb :: rat
  ru_devices :: "device_usage list option"

record heartbeat =
  hb_worker_id :: string
  hb_status :: string
  hb_usage :: "resources_usage option"
  hb_current_tasks :: "string list"
  hb_supported_skills :: "skill_info list option"
  hb_available_skills :: "string list option"
  hb_hot_skills :: "string list option"
  hb_skills_hash :: string
  hb_security :: "security_context option"
  hb_timestamp :: int

record registration =
  rg_worker_id :: string
  rg_worker_type :: string
  rg_supported_skills :: "skill_info list"
  rg_available_skills :: "string list option"
  rg_hot_skills :: "string list option"
  rg_devices :: "(string, pyval) dict list option"
  rg_properties :: "(string, pyval) dict"
  rg_installed_software :: pyval
  rg_installed_artifacts :: "(string, pyval) dict list"
  rg_hostname :: string
  rg_ip_address :: string
  rg_cost_per_skill :: pyval
  rg_s3_config_hash :: "string option"
  rg_extra :: "(string, pyval) dict"
  rg_skills_hash :: string
  rg_security :: "security_context option"
  rg_timestamp :: int

record event_payload =
  ev_event_id :: string
  ev_worker_id :: string
  ev_origin_worker_id :: string
  ev_event_type :: string
  ev_payload :: pyval
  ev_origin_task_id :: string
  ev_bubbling_chain :: "string list"
  ev_target_job_id :: string
  ev_target_task_id :: string
  ev_trace_context :: "(string, pyval) dict"
  ev_priority :: pyfloat
  ev_timestamp :: int
  ev_security :: "security_context option"
  ev_metadata :: pyval

text \<open>
  A task as received. \<open>tp_policy\<close> is a plain dictionary or an object with an \<open>allowed_skills\<close>
  attribute; \<open>tp_origin_worker_id\<close> is read from the raw message.
\<close>

datatype policy = PolicyDict "(string, pyval) dict" | PolicyObject pyval

record task_payload =
  tp_job_id :: string
  tp_task_id :: string
  tp_type :: string
  tp_params :: "(string, pyval) dict"
  tp_tracing_context :: "(string, pyval) dict option"
  tp_priority :: pyval
  tp_deadline :: pyval
  tp_security :: pyval
  tp_metadata :: pyval
  tp_sig :: "string option"
  tp_orchestrator_signature :: "string option"
  tp_policy :: "policy option"
  tp_step :: int
  tp_depth :: int
  tp_parent_hash :: "string option"
  tp_origin_worker_id :: "string option"

datatype message =
    ResultMsg task_result
  | HeartbeatMsg heartbeat
  | RegistrationMsg registration
  | EventMsg event_payload

section \<open>What the worker uses of rxon\<close>

text \<open>
  Constants and functions of the rxon package, a parameter of every definition that uses them:
  signing (\<open>rx_sign payload key ignored_fields\<close>), signature verification, input and data
  validation (verdict and message), identifiers, hashes, and the construction of
  \<open>SecurityContext\<close>, \<open>TaskError\<close>, \<open>HardwareDevice\<close> and \<open>InstalledArtifact\<close> from dictionaries.
\<close>

record rxon =
  rx_status_success :: string
  rx_status_failure :: string
  rx_status_cancelled :: string
  rx_code_contract_violation :: string
  rx_code_integrity_mismatch :: string
  rx_code_invalid_input :: string
  rx_code_permanent :: string
  rx_code_transient :: string
  rx_event_progress :: string
  rx_command_cancel :: string
  rx_hb_cancel_tasks :: string
  rx_hb_require_full_sync :: string
  rx_worker_draining :: string
  rx_sign :: "message \<Rightarrow> string \<Rightarrow> string list \<Rightarrow> string"
  rx_verify_signature :: "task_payload \<Rightarrow> string \<Rightarrow> string \<Rightarrow> string list \<Rightarrow> bool"
  rx_validate_params :: "task_payload \<Rightarrow> skill_info \<Rightarrow> bool \<times> string option"
  rx_validate_data :: "pyval \<Rightarrow> pyval \<Rightarrow> bool \<times> string option"
  rx_valid_identifier :: "string \<Rightarrow> bool"
  rx_contract_hash :: "skill_info list \<Rightarrow> pyval \<Rightarrow> (string, pyval) dict \<Rightarrow> string"
  rx_config_hash :: "string option \<Rightarrow> string option \<Rightarrow> string \<Rightarrow> string option"
  rx_security_of :: "pyval \<Rightarrow> security_context option"
  rx_task_error_fields :: "string list"
  rx_new_task_error :: "(string, pyval) dict \<Rightarrow> task_error result"
  rx_device_fields :: "string list"
  rx_new_device :: "(string, pyval) dict \<Rightarrow> (string, pyval) dict result"
  rx_artifact_fields :: "string list"
  rx_new_artifact :: "(string, pyval) dict \<Rightarrow> (string, pyval) dict result"

definition sign_payload_if_needed ::
  "rxon \<Rightarrow> worker_config \<Rightarrow> message \<Rightarrow> string list \<Rightarrow> string list option \<Rightarrow> security_context option" where
  "sign_payload_if_needed rx cfg payload ignore_fields identity_chain =
     (if cfg_worker_token cfg \<noteq> [] \<and> cfg_worker_token cfg \<noteq> default_token
      then Some \<lparr>sec_signature = rx_sign rx payload (cfg_worker_token cfg) ignore_fields,
             sec_signer_id = cfg_worker_id cfg, sec_identity_chain = identity_chain\<rparr>
      else None)"

text \<open>A token that switches signing on.\<close>

definition token_set :: "worker_config \<Rightarrow> bool" where
  "token_set cfg = (cfg_worker_token cfg \<noteq> [] \<and> cfg_worker_token cfg \<noteq> default_token)"

lemma sign_none_iff: "sign_payload_if_needed rx cfg m ig ch = None \<longleftrightarrow> \<not> token_set cfg"
  by (simp add: sign_payload_if_needed_def token_set_def)

lemma sign_set:
  "token_set cfg \<Longrightarrow> sign_payload_if_needed rx cfg m ig ch =
     Some \<lparr>sec_signature = rx_sign rx m (cfg_worker_token cfg) ig, sec_signer_id = cfg_worker_id cfg,
           sec_identity_chain = ch\<rparr>"
  by (simp add: sign_payload_if_needed_def token_set_def)

text \<open>Every result is built unsigned, signed as a whole, and then carries its signature.\<close>

definition sign_result :: "rxon \<Rightarrow> worker_config \<Rightarrow> task_result \<Rightarrow> task_result" where
  "sign_result rx cfg r =
     r\<lparr>tr_security := sign_payload_if_needed rx cfg (ResultMsg r) [] None\<rparr>"

lemma sign_result_fields [simp]:
  "tr_status (sign_result x c r) = tr_status r" "tr_task_id (sign_result x c r) = tr_task_id r"
  "tr_job_id (sign_result x c r) = tr_job_id r" "tr_error (sign_result x c r) = tr_error r"
  "tr_worker_id (sign_result x c r) = tr_worker_id r"
  "tr_origin_worker_id (sign_result x c r) = tr_origin_worker_id r"
  "tr_data (sign_result x c r) = tr_data r" "tr_costs (sign_result x c r) = tr_costs r"
  by (simp_all add: sign_result_def)

text \<open>\<open>x in container\<close> for a string: list element, substring, dictionary key.\<close>

fun py_in :: "string \<Rightarrow> pyval \<Rightarrow> bool result" where
  "py_in x (PList vs) = Inr (PStr x \<in> set vs)"
| "py_in x (PStr s) = Inr (contains s x)"
| "py_in x (PDict d) = Inr (dhas d x)"
| "py_in x _ = Inl (TypeError ''argument is not iterable'')"

end
