(* ===== verification/Round_Robin.thy ===== *)
theory Round_Robin
  imports Config
begin

text \<open>
  \<open>Worker._get_next_client\<close>, the smooth weighted round robin over the orchestrators, with the
  weights living in the configuration dictionaries as the code keeps them. The locale
  \<open>weighted_turns\<close> states what one turn promises and proves fairness from it.
\<close>

section \<open>Operations\<close>

type_synonym client = nat \<comment> \<open>the identity of a transport object\<close>

text \<open>\<open>a + b\<close> and \<open>a - b\<close> on numbers; \<open>int\<close> stays \<open>int\<close>.\<close>

definition py_arith ::
  "(int \<Rightarrow> int \<Rightarrow> int) \<Rightarrow> (pyfloat \<Rightarrow> pyfloat \<Rightarrow> pyfloat) \<Rightarrow> pyval \<Rightarrow> pyval \<Rightarrow> pyval result" where
  "py_arith fi ff a b =
     (case (a, b) of
        (PInt i, PInt j) \<Rightarrow> Inr (PInt (fi i j))
      | _ \<Rightarrow> (case (num_of a, num_of b) of
            (Some x, Some y) \<Rightarrow> Inr (PFloat (ff x y))
          | _ \<Rightarrow> Inl (TypeError ''unsupported operand type'')))"

definition py_add :: "pyval \<Rightarrow> pyval \<Rightarrow> pyval result" where
  "py_add = py_arith (+) (+)"

definition py_sub :: "pyval \<Rightarrow> pyval \<Rightarrow> pyval result" where
  "py_sub = py_arith (-) (-)"

definition getitem :: "(string, pyval) dict \<Rightarrow> string \<Rightarrow> pyval result" where
  "getitem d k = (case dget d k of Some v \<Rightarrow> Inr v | None \<Rightarrow> Inl (KeyError k))"

text \<open>
  The part of \<open>Worker.__init__\<close> that prepares the configured orchestrators: zero the current
  weights and add up the weights.
\<close>

definition reset_current :: "orch \<Rightarrow> orch" where
  "reset_current o' = dset ''current_weight'' (PInt 0) o'"

fun total_weight :: "orch list \<Rightarrow> pyval \<Rightarrow> pyval result" where
  "total_weight [] t = Inr t"
| "total_weight (o' # os) t =
     and_then (py_add t (dget_or o' ''weight'' (PInt 1))) (\<lambda>t'. total_weight os t')"

text \<open>The first loop: bump every current weight, remember the first strictly highest client.\<close>

fun bump_and_pick :: "(orch \<times> client) list \<Rightarrow> pyval \<Rightarrow> client option
    \<Rightarrow> ((orch \<times> client) list \<times> client option) result" where
  "bump_and_pick [] highest selected = Inr ([], selected)"
| "bump_and_pick ((o', c) # rest) highest selected =
     and_then (getitem o' ''current_weight'') (\<lambda>cw.
     and_then (getitem o' ''weight'') (\<lambda>w.
     and_then (py_add cw w) (\<lambda>n.
       case py_lt highest n of
         None \<Rightarrow> Inl (TypeError ''>'')
       | Some higher \<Rightarrow>
           and_then (bump_and_pick rest (if higher then n else highest) (if higher then Some c else selected))
             (\<lambda>(rest', sel). Inr ((dset ''current_weight'' n o', c) # rest', sel)))))"

text \<open>The second loop: the selected client pays the totalal weight.\<close>

fun charge :: "client \<Rightarrow> pyval \<Rightarrow> (orch \<times> client) list \<Rightarrow> (orch \<times> client) list result" where
  "charge sel tot [] = Inr []"
| "charge sel tot ((o', c) # rest) =
     (if c = sel
      then and_then (getitem o' ''current_weight'') (\<lambda>cw.
           and_then (py_sub cw tot) (\<lambda>n.
             Inr ((dset ''current_weight'' n o', c) # rest)))
      else and_then (charge sel tot rest) (\<lambda>rest'. Inr ((o', c) # rest')))"

definition get_next_client ::
  "pyval \<Rightarrow> (orch \<times> client) list \<Rightarrow> (client option \<times> (orch \<times> client) list) result" where
  "get_next_client tot clients =
     (if clients = [] then Inr (None, [])
      else and_then (bump_and_pick clients (PInt (- 1)) None) (\<lambda>(clients', selected).
        case selected of
          None \<Rightarrow> Inr (None, clients')
        | Some c \<Rightarrow> and_then (charge c tot clients') (\<lambda>clients''. Inr (Some c, clients''))))"

text \<open>Successive calls, as the polling loop makes them in ROUND_ROBIN mode.\<close>

fun next_clients :: "nat \<Rightarrow> pyval \<Rightarrow> (orch \<times> client) list
    \<Rightarrow> (client option list \<times> (orch \<times> client) list) result" where
  "next_clients 0 tot clients = Inr ([], clients)"
| "next_clients (Suc n) tot clients =
     and_then (next_clients n tot clients) (\<lambda>(picked, clients').
     and_then (get_next_client tot clients') (\<lambda>(sel, clients'').
       Inr (picked @ [sel], clients'')))"

section \<open>Fair turns\<close>

text \<open>
  The contract of one turn over the clients \<open>members s\<close> with weights \<open>weight s\<close>: everyone's
  current weight grows by its weight, a client with the highest grown weight is taken and pays
  the total.
\<close>

locale weighted_turns =
  fixes turn :: "'s \<Rightarrow> 'c \<times> 's"
    and current :: "'s \<Rightarrow> 'c \<Rightarrow> int"
    and weight :: "'s \<Rightarrow> 'c \<Rightarrow> int"
    and members :: "'s \<Rightarrow> 'c set"
    and ready :: "'s \<Rightarrow> bool"
  assumes finite_members: "finite (members s)"
    and weight_nonneg: "ready s \<Longrightarrow> c \<in> members s \<Longrightarrow> 0 \<le> weight s c"
    and total_pos: "ready s \<Longrightarrow> 0 < (\<Sum>c \<in> members s. weight s c)"
    and turn_ready: "ready s \<Longrightarrow> (\<Sum>c \<in> members s. current s c) = 0 \<Longrightarrow> ready (snd (turn s))"
    and turn_members: "ready s \<Longrightarrow> (\<Sum>c \<in> members s. current s c) = 0 \<Longrightarrow> members (snd (turn s)) = members s"
    and turn_weight: "ready s \<Longrightarrow> (\<Sum>c \<in> members s. current s c) = 0 \<Longrightarrow> c \<in> members s \<Longrightarrow>
          weight (snd (turn s)) c = weight s c"
    and turn_member: "ready s \<Longrightarrow> (\<Sum>c \<in> members s. current s c) = 0 \<Longrightarrow> fst (turn s) \<in> members s"
    and turn_highest: "ready s \<Longrightarrow> (\<Sum>c \<in> members s. current s c) = 0 \<Longrightarrow> c \<in> members s \<Longrightarrow>
          current s c + weight s c \<le> current s (fst (turn s)) + weight s (fst (turn s))"
    and turn_current: "ready s \<Longrightarrow> (\<Sum>c \<in> members s. current s c) = 0 \<Longrightarrow> c \<in> members s \<Longrightarrow>
          current (snd (turn s)) c = current s c + weight s c
            - (if c = fst (turn s) then \<Sum>d \<in> members s. weight s d else 0)"
begin

definition whole :: "'s \<Rightarrow> int" where
  "whole s = (\<Sum>c \<in> members s. weight s c)"

definition balanced :: "'s \<Rightarrow> bool" where
  "balanced s = (ready s \<and> (\<Sum>c \<in> members s. current s c) = 0)"

primrec turns :: "nat \<Rightarrow> 's \<Rightarrow> 'c list \<times> 's" where
  "turns 0 s = ([], s)"
| "turns (Suc n) s = (fst (turns n s) @ [fst (turn (snd (turns n s)))], snd (turn (snd (turns n s))))"

lemma turn_total: "balanced s \<Longrightarrow> whole (snd (turn s)) = whole s"
  by (auto simp: balanced_def whole_def turn_members turn_weight intro: sum.cong)

lemma turn_balanced:
  assumes "balanced s"
  shows "balanced (snd (turn s))"
proof -
  let ?c = "fst (turn s)"
  note b = assms [unfolded balanced_def]
  have "(\<Sum>c \<in> members s. current (snd (turn s)) c) =
      (\<Sum>c \<in> members s. current s c + weight s c - (if c = ?c then whole s else 0))"
    using b by (intro sum.cong) (auto simp: turn_current whole_def)
  also have "\<dots> = (\<Sum>c \<in> members s. current s c) + whole s - (\<Sum>c \<in> members s. if c = ?c then whole s else 0)"
    by (simp add: sum.distrib sum_subtractf whole_def)
  also have "\<dots> = 0"
    using b turn_member [of s] by (simp add: finite_members)
  finally show ?thesis using b by (simp add: balanced_def turn_ready turn_members)
qed

text \<open>Nobody falls to minus the total: the client that pays had the highest, hence a positive, weight.\<close>

lemma turn_above:
  assumes "balanced s" and "\<forall>c \<in> members s. - whole s < current s c" and "c \<in> members s"
  shows "- whole s < current (snd (turn s)) c"
proof -
  let ?c = "fst (turn s)"
  note b = assms(1) [unfolded balanced_def]
  have pos: "0 < whole s" using b total_pos by (simp add: whole_def)
  have "0 < current s ?c + weight s ?c"
  proof (rule ccontr)
    assume "\<not> 0 < current s ?c + weight s ?c"
    then have "current s c + weight s c \<le> 0" if "c \<in> members s" for c
      using turn_highest [of s c] b that by simp
    then have "(\<Sum>c \<in> members s. current s c + weight s c) \<le> 0" by (intro sum_nonpos) auto
    then show False using pos b by (simp add: sum.distrib whole_def)
  qed
  moreover have "0 \<le> weight s c" using b assms(3) by (simp add: weight_nonneg)
  ultimately show ?thesis
    using b assms(2,3) pos turn_current [of s c] by (auto simp: whole_def)
qed

lemma turns_invariant:
  assumes "balanced s" and "\<forall>c \<in> members s. current s c = 0"
  shows "balanced (snd (turns n s)) \<and> members (snd (turns n s)) = members s \<and>
    whole (snd (turns n s)) = whole s \<and>
    (\<forall>c \<in> members s. weight (snd (turns n s)) c = weight s c \<and> - whole s < current (snd (turns n s)) c \<and>
       current (snd (turns n s)) c = int n * weight s c - whole s * int (count_list (fst (turns n s)) c)) \<and>
    set (fst (turns n s)) \<subseteq> members s \<and> length (fst (turns n s)) = n"
proof (induction n)
  case 0
  have "0 < whole s" using assms(1) total_pos by (simp add: whole_def balanced_def)
  with assms show ?case by simp
next
  case (Suc n)
  let ?t = "snd (turns n s)"
  from Suc have t: "ready ?t" "(\<Sum>c \<in> members ?t. current ?t c) = 0" "members ?t = members s"
    "whole ?t = whole s" "balanced ?t" by (auto simp: balanced_def)
  from Suc have lower: "\<forall>c \<in> members s. - whole s < current ?t c" by blast
  have above: "- whole s < current (snd (turn ?t)) c" if "c \<in> members s" for c
    using turn_above [of ?t c, unfolded t(3,4), OF t(5) lower that] .
  have cur: "current (snd (turn ?t)) c =
      int (Suc n) * weight s c - whole s * int (count_list (fst (turns (Suc n) s)) c)"
    if "c \<in> members s" for c
    using turn_current [of ?t c] t Suc that by (auto simp: whole_def algebra_simps)
  have "fst (turn ?t) \<in> members s" using turn_member [of ?t] t by simp
  then show ?case
    using Suc t above cur turn_balanced [of ?t] turn_total [of ?t] turn_members [of ?t] turn_weight [of ?t]
    by simp
qed

text \<open>
  In as many turns as the total weight every client is taken exactly as often as its weight
  says, and the current weights are all back at zero.
\<close>

lemma fair:
  assumes "balanced s" and "\<forall>c \<in> members s. current s c = 0" and "c \<in> members s"
  shows "int (count_list (fst (turns (nat (whole s)) s)) c) = weight s c"
    and "current (snd (turns (nat (whole s)) s)) c = 0"
proof -
  let ?n = "nat (whole s)"
  let ?ps = "fst (turns ?n s)"
  have pos: "0 < whole s" using assms(1) total_pos by (simp add: whole_def balanced_def)
  note inv = turns_invariant [OF assms(1,2), of ?n]
  have le: "int (count_list ?ps d) \<le> weight s d" if "d \<in> members s" for d
  proof -
    have "- whole s < current (snd (turns ?n s)) d" using inv that by blast
    also have "\<dots> = int ?n * weight s d - whole s * int (count_list ?ps d)" using inv that by blast
    finally have "- whole s < whole s * weight s d - whole s * int (count_list ?ps d)"
      using pos by simp
    then have "whole s * (int (count_list ?ps d) - weight s d) < whole s * 1"
      by (simp add: algebra_simps)
    then have "int (count_list ?ps d) - weight s d < 1"
      using pos by (simp only: mult_less_cancel_left_pos)
    then show ?thesis by simp
  qed
  have "(\<Sum>d \<in> members s. int (count_list ?ps d)) = int (length ?ps)"
    using inv sum_count_set [of ?ps "members s"] by (simp add: finite_members flip: of_nat_sum)
  also have "\<dots> = (\<Sum>d \<in> members s. weight s d)"
    using inv pos by (simp add: whole_def)
  finally have sums: "(\<Sum>d \<in> members s. int (count_list ?ps d)) = (\<Sum>d \<in> members s. weight s d)" .
  show eq: "int (count_list ?ps c) = weight s c"
  proof (rule ccontr)
    assume "int (count_list ?ps c) \<noteq> weight s c"
    with le [OF assms(3)] have "int (count_list ?ps c) < weight s c" by simp
    then have "(\<Sum>d \<in> members s. int (count_list ?ps d)) < (\<Sum>d \<in> members s. weight s d)"
      using le assms(3) finite_members by (intro sum_strict_mono_ex1) auto
    with sums show False by simp
  qed
  show "current (snd (turns ?n s)) c = 0"
    using inv assms(3) pos eq by simp
qed

end

section \<open>The code takes fair turns\<close>

definition int_of_val :: "pyval option \<Rightarrow> int" where
  "int_of_val v = (case v of Some (PInt i) \<Rightarrow> i | _ \<Rightarrow> 0)"

definition cw_of :: "orch \<Rightarrow> int" where
  "cw_of o' = int_of_val (dget o' ''current_weight'')"

definition w_of :: "orch \<Rightarrow> int" where
  "w_of o' = int_of_val (dget o' ''weight'')"

fun is_int :: "pyval option \<Rightarrow> bool" where
  "is_int (Some (PInt _)) = True"
| "is_int _ = False"

definition int_entry :: "orch \<Rightarrow> bool" where
  "int_entry o' = (is_int (dget o' ''current_weight'') \<and> is_int (dget o' ''weight''))"

definition set_cw :: "int \<Rightarrow> orch \<Rightarrow> orch" where
  "set_cw i o' = dset ''current_weight'' (PInt i) o'"

lemma is_int_E: "is_int v \<Longrightarrow> v = Some (PInt (int_of_val v))"
  by (cases v rule: is_int.cases) (simp_all add: int_of_val_def)

lemma set_cw_simps [simp]:
  "cw_of (set_cw i o') = i" "w_of (set_cw i o') = w_of o'"
  "int_entry o' \<Longrightarrow> int_entry (set_cw i o')"
  "set_cw i (set_cw j o') = set_cw i o'"
  by (simp_all add: set_cw_def cw_of_def w_of_def int_entry_def int_of_val_def dict.get_put)

fun int_pick :: "(int \<times> client) list \<Rightarrow> int \<Rightarrow> client option \<Rightarrow> client option" where
  "int_pick [] h sel = sel"
| "int_pick ((v, c) # xs) h sel = (if h < v then int_pick xs v (Some c) else int_pick xs h sel)"

lemma int_pick_none: "\<forall>(v, c) \<in> set xs. v \<le> h \<Longrightarrow> int_pick xs h sel = sel"
  by (induction xs h sel rule: int_pick.induct) auto

lemma int_pick_highest:
  assumes "\<exists>(v, c) \<in> set xs. h < v"
  shows "\<exists>(v, c) \<in> set xs. int_pick xs h sel = Some c \<and> (\<forall>(u, d) \<in> set xs. u \<le> v)"
  using assms
proof (induction xs arbitrary: h sel)
  case (Cons p xs)
  obtain v c where p: "p = (v, c)" by (cases p)
  consider (later) "\<exists>(u, d) \<in> set xs. max h v < u" | (here) "\<forall>(u, d) \<in> set xs. u \<le> max h v"
    by fastforce
  then show ?case
  proof cases
    case later
    have "int_pick (p # xs) h sel = int_pick xs (max h v) (if h < v then Some c else sel)"
      by (simp add: p max_def)
    moreover obtain u d where "(u, d) \<in> set xs"
      "int_pick xs (max h v) (if h < v then Some c else sel) = Some d" "\<forall>(u', d') \<in> set xs. u' \<le> u"
      using Cons.IH [OF later] by blast
    moreover from this(3) later have "v \<le> u" by fastforce
    ultimately show ?thesis using p by (intro bexI [of _ "(u, d)"]) auto
  next
    case here
    with Cons.prems p have "h < v" by fastforce
    with here p show ?thesis by (simp add: int_pick_none max_def)
  qed
qed simp

lemma bump_and_pick_int:
  "list_all (\<lambda>(o', c). int_entry o') cs \<Longrightarrow>
   bump_and_pick cs (PInt h) sel =
     Inr (map (\<lambda>(o', c). (set_cw (cw_of o' + w_of o') o', c)) cs,
          int_pick (map (\<lambda>(o', c). (cw_of o' + w_of o', c)) cs) h sel)"
proof (induction cs arbitrary: h sel)
  case (Cons p cs)
  obtain o' c where p: "p = (o', c)" by (cases p)
  have "dget o' ''current_weight'' = Some (PInt (cw_of o'))" "dget o' ''weight'' = Some (PInt (w_of o'))"
    using Cons.prems p is_int_E by (auto simp: int_entry_def cw_of_def w_of_def)
  with Cons p show ?case
    by (simp add: getitem_def py_add_def py_arith_def py_lt_def set_cw_def)
qed simp

lemma charge_int:
  assumes "list_all (\<lambda>(o', c). int_entry o') cs" and "distinct (map snd cs)"
  shows "charge c (PInt t) cs =
    Inr (map (\<lambda>(o', d). (if d = c then set_cw (cw_of o' - t) o' else o', d)) cs)"
  using assms
proof (induction cs)
  case (Cons p cs)
  obtain o' d where p: "p = (o', d)" by (cases p)
  have cw: "dget o' ''current_weight'' = Some (PInt (cw_of o'))"
    using Cons.prems p is_int_E by (auto simp: int_entry_def cw_of_def)
  have "map (\<lambda>(o', d). (if d = c then set_cw (cw_of o' - t) o' else o', d)) cs = cs" if "d = c"
    using Cons.prems p that by (intro map_idI) (auto simp: image_iff)
  with cw Cons p show ?case
    by (simp add: getitem_def py_sub_def py_arith_def set_cw_def)
qed simp

definition entry_of :: "(orch \<times> client) list \<Rightarrow> client \<Rightarrow> orch" where
  "entry_of cs c = (case map_of (map (\<lambda>(o', d). (d, o')) cs) c of Some o' \<Rightarrow> o' | None \<Rightarrow> [])"

lemma entry_of_mem:
  "distinct (map snd cs) \<Longrightarrow> (o', c) \<in> set cs \<Longrightarrow> entry_of cs c = o'"
proof -
  assume d: "distinct (map snd cs)" and m: "(o', c) \<in> set cs"
  have "map fst (map (\<lambda>(o', d). (d, o')) cs) = map snd cs" by (induction cs) auto
  with d have "distinct (map fst (map (\<lambda>(o', d). (d, o')) cs))" by (simp only:)
  moreover from m have "(c, o') \<in> set (map (\<lambda>(o', d). (d, o')) cs)" by force
  ultimately show ?thesis by (simp add: entry_of_def map_of_is_SomeI)
qed

definition rr_weight :: "(orch \<times> client) list \<Rightarrow> int" where
  "rr_weight cs = sum_list (map (\<lambda>(o', c). w_of o') cs)"

definition rr_ready :: "(orch \<times> client) list \<Rightarrow> bool" where
  "rr_ready cs = (distinct (map snd cs) \<and> list_all (\<lambda>(o', c). int_entry o' \<and> 0 \<le> w_of o') cs
     \<and> 0 < rr_weight cs)"

definition rr_turn :: "(orch \<times> client) list \<Rightarrow> client \<times> (orch \<times> client) list" where
  "rr_turn cs = (case get_next_client (PInt (rr_weight cs)) cs of
      Inr (Some c, cs') \<Rightarrow> (c, cs') | _ \<Rightarrow> (0, cs))"

lemma sum_members:
  assumes "distinct (map snd cs)"
  shows "(\<Sum>c \<in> set (map snd cs). f (entry_of cs c)) = sum_list (map (\<lambda>(o', c). f o') cs)"
proof -
  have "(\<Sum>c \<in> set (map snd cs). f (entry_of cs c)) = sum_list (map (\<lambda>c. f (entry_of cs c)) (map snd cs))"
    using assms by (simp only: sum_list_distinct_conv_sum_set)
  also have "\<dots> = sum_list (map (\<lambda>(o', c). f o') cs)"
    using assms by (intro arg_cong [where f = sum_list]) (auto simp: entry_of_mem)
  finally show ?thesis .
qed

text \<open>One turn of the code on well-formed entries whose current weights add up to zero.\<close>

lemma get_next_client_spec:
  assumes "rr_ready cs" and "sum_list (map (\<lambda>(o', c). cw_of o') cs) = 0"
  obtains o' c where "(o', c) \<in> set cs"
    and "get_next_client (PInt (rr_weight cs)) cs = Inr (Some c,
       map (\<lambda>(x, d). (set_cw (cw_of x + w_of x - (if d = c then rr_weight cs else 0)) x, d)) cs)"
    and "\<forall>(x, d) \<in> set cs. cw_of x + w_of x \<le> cw_of o' + w_of o'"
proof -
  let ?xs = "map (\<lambda>(o', c). (cw_of o' + w_of o', c)) cs"
  let ?bs = "map (\<lambda>(o', c). (set_cw (cw_of o' + w_of o') o', c)) cs"
  note r = assms(1) [unfolded rr_ready_def]
  have ints: "list_all (\<lambda>(o', c). int_entry o') cs" using r by (auto simp: list_all_iff)
  have "\<exists>(v, c) \<in> set ?xs. - 1 < v"
  proof (rule ccontr)
    assume "\<not> (\<exists>(v, c) \<in> set ?xs. - 1 < v)"
    then have "sum_list (map (\<lambda>(o', c). cw_of o' + w_of o') cs) \<le> 0"
      by (intro sum_list_nonpos) force
    moreover have "sum_list (map (\<lambda>(o', c). cw_of o' + w_of o') cs) =
        sum_list (map (\<lambda>(o', c). cw_of o') cs) + rr_weight cs"
      unfolding rr_weight_def by (simp add: case_prod_unfold flip: sum_list_map_add)
    ultimately show False using assms(2) r by simp
  qed
  from int_pick_highest [OF this, of None] obtain o' c where
    m: "(o', c) \<in> set cs" and pick: "int_pick ?xs (- 1) None = Some c"
    and max: "\<forall>(x, d) \<in> set cs. cw_of x + w_of x \<le> cw_of o' + w_of o'"
    by fastforce
  have "list_all (\<lambda>(o', c). int_entry o') ?bs" and "distinct (map snd ?bs)"
    using ints r by (auto simp: list_all_iff comp_def case_prod_beta)
  from charge_int [OF this, of c "rr_weight cs"] have
    "charge c (PInt (rr_weight cs)) ?bs = Inr (map (\<lambda>(x, d).
       (set_cw (cw_of x + w_of x - (if d = c then rr_weight cs else 0)) x, d)) cs)"
    by (auto simp: case_prod_beta)
  moreover have "cs \<noteq> []" using m by auto
  ultimately have "get_next_client (PInt (rr_weight cs)) cs = Inr (Some c,
      map (\<lambda>(x, d). (set_cw (cw_of x + w_of x - (if d = c then rr_weight cs else 0)) x, d)) cs)"
    using bump_and_pick_int [OF ints, of "- 1" None] pick by (simp add: get_next_client_def)
  with m max show thesis using that by blast
qed

lemma rr_turn_spec:
  assumes "rr_ready cs" and "sum_list (map (\<lambda>(o', c). cw_of o') cs) = 0"
  shows "get_next_client (PInt (rr_weight cs)) cs = Inr (Some (fst (rr_turn cs)), snd (rr_turn cs))"
    and "\<exists>o'. (o', fst (rr_turn cs)) \<in> set cs \<and>
          (\<forall>(x, d) \<in> set cs. cw_of x + w_of x \<le> cw_of o' + w_of o')"
    and "snd (rr_turn cs) =
      map (\<lambda>(x, d). (set_cw (cw_of x + w_of x - (if d = fst (rr_turn cs) then rr_weight cs else 0)) x, d)) cs"
proof -
  obtain o' c where m: "(o', c) \<in> set cs"
    and nc: "get_next_client (PInt (rr_weight cs)) cs = Inr (Some c,
       map (\<lambda>(x, d). (set_cw (cw_of x + w_of x - (if d = c then rr_weight cs else 0)) x, d)) cs)"
    and max: "\<forall>(x, d) \<in> set cs. cw_of x + w_of x \<le> cw_of o' + w_of o'"
    using get_next_client_spec [OF assms] .
  have turn: "rr_turn cs = (c,
      map (\<lambda>(x, d). (set_cw (cw_of x + w_of x - (if d = c then rr_weight cs else 0)) x, d)) cs)"
    by (simp add: rr_turn_def nc)
  show "get_next_client (PInt (rr_weight cs)) cs = Inr (Some (fst (rr_turn cs)), snd (rr_turn cs))"
    by (simp add: turn nc)
  show "\<exists>o'. (o', fst (rr_turn cs)) \<in> set cs \<and>
          (\<forall>(x, d) \<in> set cs. cw_of x + w_of x \<le> cw_of o' + w_of o')"
    using m max by (auto simp: turn)
  show "snd (rr_turn cs) =
      map (\<lambda>(x, d). (set_cw (cw_of x + w_of x - (if d = fst (rr_turn cs) then rr_weight cs else 0)) x, d)) cs"
    by (simp add: turn)
qed

definition rr_members :: "(orch \<times> client) list \<Rightarrow> client set" where
  "rr_members cs = set (map snd cs)"

definition rr_current :: "(orch \<times> client) list \<Rightarrow> client \<Rightarrow> int" where
  "rr_current cs c = cw_of (entry_of cs c)"

definition rr_weight_of :: "(orch \<times> client) list \<Rightarrow> client \<Rightarrow> int" where
  "rr_weight_of cs c = w_of (entry_of cs c)"

lemma rr_sums:
  assumes "rr_ready cs"
  shows "(\<Sum>c \<in> rr_members cs. rr_current cs c) = sum_list (map (\<lambda>(o', c). cw_of o') cs)"
    and "(\<Sum>c \<in> rr_members cs. rr_weight_of cs c) = rr_weight cs"
  using sum_members [of cs cw_of] sum_members [of cs w_of] assms
  by (simp_all add: rr_ready_def rr_members_def rr_current_def rr_weight_of_def rr_weight_def)

lemma entry_of_map:
  "entry_of (map (\<lambda>(x, d). (f d x, d)) cs) c = (if c \<in> rr_members cs then f c (entry_of cs c) else [])"
  by (induction cs) (auto simp: entry_of_def rr_members_def split: option.splits)

lemma rr_members_E:
  assumes "rr_ready cs" and "c \<in> rr_members cs"
  obtains o' where "(o', c) \<in> set cs" and "entry_of cs c = o'"
  using assms entry_of_mem [of cs _ c] by (auto simp: rr_members_def rr_ready_def)

lemma rr_turn_ready:
  assumes "rr_ready cs" and "sum_list (map (\<lambda>(o', c). cw_of o') cs) = 0"
  shows "rr_ready (snd (rr_turn cs))" and "rr_weight (snd (rr_turn cs)) = rr_weight cs"
    and "rr_members (snd (rr_turn cs)) = rr_members cs"
proof -
  note eq = rr_turn_spec(3) [OF assms]
  have w: "rr_weight (snd (rr_turn cs)) = rr_weight cs"
    by (subst eq) (simp add: rr_weight_def case_prod_unfold comp_def)
  have m: "map snd (snd (rr_turn cs)) = map snd cs"
    by (subst eq) (simp add: case_prod_unfold comp_def)
  show "rr_ready (snd (rr_turn cs))"
    using assms(1) w m by (subst rr_ready_def) (subst eq, auto simp: rr_ready_def list_all_iff)
  show "rr_weight (snd (rr_turn cs)) = rr_weight cs" by (rule w)
  show "rr_members (snd (rr_turn cs)) = rr_members cs" using m by (simp add: rr_members_def flip: set_map)
qed

interpretation rr: weighted_turns rr_turn rr_current rr_weight_of rr_members rr_ready
proof unfold_locales
  fix s :: "(orch \<times> client) list" and c :: client
  show "finite (rr_members s)" by (simp add: rr_members_def)
  assume r: "rr_ready s"
  show "0 < (\<Sum>c \<in> rr_members s. rr_weight_of s c)" using r rr_sums(2) by (simp add: rr_ready_def)
  show "c \<in> rr_members s \<Longrightarrow> 0 \<le> rr_weight_of s c"
    using r by (auto elim!: rr_members_E [OF r] simp: rr_weight_of_def rr_ready_def list_all_iff)
  assume "(\<Sum>c \<in> rr_members s. rr_current s c) = 0"
  then have z: "sum_list (map (\<lambda>(o', c). cw_of o') s) = 0" using rr_sums(1) [OF r] by simp
  note turn = rr_turn_spec [OF r z] and ready = rr_turn_ready [OF r z]
  show "rr_ready (snd (rr_turn s))" "rr_members (snd (rr_turn s)) = rr_members s"
    by (rule ready)+
  show "fst (rr_turn s) \<in> rr_members s" using turn(2) by (force simp: rr_members_def)
  assume c: "c \<in> rr_members s"
  have e: "entry_of (snd (rr_turn s)) c = set_cw (cw_of (entry_of s c) + w_of (entry_of s c)
      - (if c = fst (rr_turn s) then rr_weight s else 0)) (entry_of s c)"
    using c by (subst turn(3)) (simp add: entry_of_map)
  show "rr_weight_of (snd (rr_turn s)) c = rr_weight_of s c" by (simp add: rr_weight_of_def e)
  show "rr_current (snd (rr_turn s)) c = rr_current s c + rr_weight_of s c
      - (if c = fst (rr_turn s) then \<Sum>d \<in> rr_members s. rr_weight_of s d else 0)"
    by (simp add: rr_current_def rr_weight_of_def e flip: rr_sums(2) [OF r, unfolded rr_weight_of_def])
  from turn(2) obtain o' where o': "(o', fst (rr_turn s)) \<in> set s"
    "\<forall>(x, d) \<in> set s. cw_of x + w_of x \<le> cw_of o' + w_of o'" by blast
  have "entry_of s (fst (rr_turn s)) = o'" using o'(1) r by (simp add: entry_of_mem rr_ready_def)
  with o'(2) c show "rr_current s c + rr_weight_of s c
      \<le> rr_current s (fst (rr_turn s)) + rr_weight_of s (fst (rr_turn s))"
    by (elim rr_members_E [OF r]) (auto simp: rr_current_def rr_weight_of_def)
qed

lemma next_clients_turns:
  assumes "rr.balanced cs" and "\<forall>c \<in> rr_members cs. rr_current cs c = 0"
  shows "next_clients n (PInt (rr_weight cs)) cs =
    Inr (map Some (fst (rr.turns n cs)), snd (rr.turns n cs)) \<and> rr_weight (snd (rr.turns n cs)) = rr_weight cs"
proof (induction n)
  case (Suc n)
  let ?t = "snd (rr.turns n cs)"
  have b: "rr_ready ?t" "(\<Sum>c \<in> rr_members ?t. rr_current ?t c) = 0"
    using rr.turns_invariant [OF assms, of n] by (auto simp: rr.balanced_def)
  then have z: "sum_list (map (\<lambda>(o', c). cw_of o') ?t) = 0" using rr_sums(1) by simp
  show ?case
    using Suc rr_turn_spec(1) [OF b(1) z] rr_turn_ready(2) [OF b(1) z] by simp
qed simp

definition fresh_entries :: "orch list \<Rightarrow> client list \<Rightarrow> (orch \<times> client) list" where
  "fresh_entries os ids = zip (map reset_current os) ids"

lemma reset_current_simps [simp]:
  "cw_of (reset_current o') = 0" "w_of (reset_current o') = w_of o'"
  "int_entry (reset_current o') = is_int (dget o' ''weight'')"
  by (simp_all add: reset_current_def cw_of_def w_of_def int_entry_def int_of_val_def dict.get_put)

lemma fresh_entries_facts:
  assumes "list_all (\<lambda>o'. is_int (dget o' ''weight'') \<and> 0 \<le> w_of o') os"
    and "0 < sum_list (map w_of os)" and "distinct ids" and "length ids = length os"
  shows "rr_weight (fresh_entries os ids) = sum_list (map w_of os)"
    and "rr_ready (fresh_entries os ids)"
    and "\<forall>c \<in> rr_members (fresh_entries os ids). rr_current (fresh_entries os ids) c = 0"
    and "rr_members (fresh_entries os ids) = set ids"
    and "i < length os \<Longrightarrow> rr_weight_of (fresh_entries os ids) (ids ! i) = w_of (os ! i)"
proof -
  let ?cs = "fresh_entries os ids"
  have snd: "map snd ?cs = ids" using assms(4) by (simp add: fresh_entries_def)
  have "map (\<lambda>(o', c). w_of o') ?cs = map w_of os"
    using assms(4) by (intro nth_equalityI) (auto simp: fresh_entries_def)
  then show w: "rr_weight ?cs = sum_list (map w_of os)" by (simp add: rr_weight_def)
  have entries: "x \<in> reset_current ` set os" if "(x, d) \<in> set ?cs" for x d
    using that by (auto simp: fresh_entries_def dest!: set_zip_leftD)
  show r: "rr_ready ?cs"
    using assms snd w by (auto simp: rr_ready_def list_all_iff dest!: entries)
  show m: "rr_members ?cs = set ids" by (simp only: rr_members_def snd)
  show "\<forall>c \<in> rr_members ?cs. rr_current ?cs c = 0"
    by (auto elim!: rr_members_E [OF r] simp: rr_current_def dest!: entries)
  show "rr_weight_of ?cs (ids ! i) = w_of (os ! i)" if "i < length os"
  proof -
    have "(reset_current (os ! i), ids ! i) \<in> set ?cs"
      using that assms(4) by (force simp: fresh_entries_def set_zip)
    then have "entry_of ?cs (ids ! i) = reset_current (os ! i)"
      using r by (simp add: entry_of_mem rr_ready_def)
    then show ?thesis by (simp add: rr_weight_of_def)
  qed
qed

lemma total_weight_int:
  "list_all (\<lambda>o'. is_int (dget o' ''weight'')) os \<Longrightarrow>
   total_weight os (PInt t) = Inr (PInt (t + sum_list (map w_of os)))"
proof (induction os arbitrary: t)
  case (Cons o' os)
  then have "dget o' ''weight'' = Some (PInt (w_of o'))" using is_int_E by (auto simp: w_of_def)
  with Cons show ?case
    by (simp add: dget_or_def py_add_def py_arith_def add.assoc)
qed simp

lemma count_list_map_Some [simp]: "count_list (map Some xs) (Some x) = count_list xs x"
  by (induction xs) auto

section \<open>Properties\<close>

text \<open>
  C8: Smooth weighted round robin is fair. For orchestrators with non-negative integer weights
  of positive sum \<open>W\<close>, the constructor computes the total \<open>W\<close>, and the first \<open>W\<close> calls of
  \<open>_get_next_client\<close> after start-up succeed, take every client exactly as often as its weight,
  and leave every current weight at zero, so the schedule repeats.
\<close>

theorem round_robin_fair:
  assumes "list_all (\<lambda>o'. is_int (dget o' ''weight'') \<and> 0 \<le> w_of o') os"
    and "0 < sum_list (map w_of os)" and "distinct ids" and "length ids = length os"
  shows "\<exists>picked clients' W. total_weight os (PInt 0) = Inr (PInt W) \<and> W = sum_list (map w_of os) \<and>
    next_clients (nat W) (PInt W) (zip (map reset_current os) ids) = Inr (picked, clients') \<and>
    list_all2 (\<lambda>c o'. int (count_list picked (Some c)) = w_of o') ids os \<and>
    list_all (\<lambda>(o', c). cw_of o' = 0) clients'"
proof -
  let ?W = "sum_list (map w_of os)" and ?cs = "fresh_entries os ids"
  note f = fresh_entries_facts [OF assms]
  have "total_weight os (PInt 0) = Inr (PInt ?W)"
    using total_weight_int [of os 0] assms(1) by (simp add: list_all_iff)
  moreover have bal: "rr.balanced ?cs" using f(2,3) by (simp add: rr.balanced_def)
  have whole: "rr.whole ?cs = ?W" using rr_sums(2) [OF f(2)] f(1) by (simp add: rr.whole_def)
  note fair = rr.fair [OF bal f(3), unfolded whole f(4)]
  note run = next_clients_turns [OF bal f(3), of "nat ?W"]
  let ?t = "snd (rr.turns (nat ?W) ?cs)"
  have inv: "rr_ready ?t" "rr_members ?t = set ids"
    using rr.turns_invariant [OF bal f(3), of "nat ?W"] f(4) by (auto simp: rr.balanced_def)
  have "list_all2 (\<lambda>c o'. int (count_list (map Some (fst (rr.turns (nat ?W) ?cs))) (Some c)) = w_of o') ids os"
    using fair(1) f(5) assms(4) by (auto simp: list_all2_conv_all_nth)
  moreover have "cw_of o' = 0" if "(o', c) \<in> set ?t" for o' c
  proof -
    from that inv have "c \<in> set ids" by (force simp: rr_members_def)
    moreover have "entry_of ?t c = o'" using that inv(1) by (simp add: entry_of_mem rr_ready_def)
    ultimately show ?thesis using fair(2) [of c] by (simp add: rr_current_def)
  qed
  ultimately show ?thesis
    using run f(1) by (auto simp: fresh_entries_def list_all_iff)
qed

theorem round_robin_fair_witness:
  "\<exists>picked clients'. next_clients 3 (PInt 3)
      (zip (map reset_current [[(''weight'', PInt 2)], [(''weight'', PInt 1)]]) [7, 8]) = Inr (picked, clients')
    \<and> count_list picked (Some 7) = 2 \<and> count_list picked (Some 8) = 1"
  using round_robin_fair [of "[[(''weight'', PInt 2)], [(''weight'', PInt 1)]]" "[7, 8]"]
  by (auto simp: w_of_def int_of_val_def eval_nat_numeral)

text \<open>
  The scheduler needs dictionaries that went through the constructor's loop over
  \<open>config.ORCHESTRATORS\<close>: a client list handed to \<open>Worker(clients=...)\<close> whose first dictionary has no
  \<open>current_weight\<close> makes \<open>_get_next_client\<close> raise \<open>KeyError\<close>, whatever its weights are.
\<close>

theorem explicit_clients_key_error:
  assumes "dget o' ''current_weight'' = None"
  shows "get_next_client tot ((o', c) # rest) = Inl (KeyError ''current_weight'')"
  using assms by (simp add: get_next_client_def getitem_def)

theorem explicit_clients_key_error_witness:
  "get_next_client (PInt 1) [([(''url'', PStr ''http://test''), (''weight'', PInt 1)], 0)]
     = Inl (KeyError ''current_weight'')"
  by (rule explicit_clients_key_error) simp

end
