(* ===== verification/Backoff.thy ===== *)
theory Backoff
  imports Py_Value
begin

text \<open>
  \<open>Worker._parse_retry_after\<close> and \<open>Worker._calculate_backoff\<close>, the delay arithmetic shared by
  polling, heartbeats, registration and result delivery, and the law of an exponential
  back-off (\<open>backoff_policy\<close>): bounded by a cap, at least doubling below it.
\<close>

section \<open>Operations\<close>

text \<open>
  \<open>date_of v\<close> is \<open>parsedate_to_datetime(str(v))\<close> of the standard library as a UTC timestamp, a
  date without a zone read as UTC; \<open>None\<close> where it raises. \<open>now\<close> is \<open>datetime.now(UTC)\<close>.
\<close>

definition parse_retry_after :: "(pyval \<Rightarrow> rat option) \<Rightarrow> rat \<Rightarrow> pyval \<Rightarrow> pyfloat" where
  "parse_retry_after date_of now v =
     (if \<not> truthy v then 0
      else (case py_float v of
              Inr x \<Rightarrow> x
            | Inl _ \<Rightarrow> (case date_of v of
                  Some t \<Rightarrow> py_max 0 (Fin (t - now))
                | None \<Rightarrow> 0)))"

definition calculate_backoff ::
  "pyfloat \<Rightarrow> pyfloat \<Rightarrow> pyfloat \<Rightarrow> pyfloat \<Rightarrow> pyfloat \<Rightarrow> bool \<Rightarrow> pyfloat" where
  "calculate_backoff rate_limit_floor current initial max_delay factor rate_limited =
     (let new_val = py_min (py_max (current * factor) initial) max_delay
      in if rate_limited then py_max new_val rate_limit_floor else new_val)"

text \<open>Every caller leaves \<open>factor\<close> at its default.\<close>

definition default_factor :: pyfloat where
  "default_factor = Fin 2"

section \<open>Finite arguments\<close>

fun the_fin :: "pyfloat \<Rightarrow> rat" where
  "the_fin (Fin a) = a"
| "the_fin _ = 0"

lemma calculate_backoff_fin:
  "calculate_backoff (Fin fl) (Fin c) (Fin i) (Fin m) default_factor rl =
     Fin (if rl then max (min (max (2 * c) i) m) fl else min (max (2 * c) i) m)"
  by (simp add: calculate_backoff_def default_factor_def mult.commute)

definition plain_step :: "rat \<Rightarrow> rat \<Rightarrow> rat \<Rightarrow> rat" where
  "plain_step i m c = the_fin (calculate_backoff (Fin 0) (Fin c) (Fin i) (Fin m) default_factor False)"

definition limited_step :: "rat \<Rightarrow> rat \<Rightarrow> rat \<Rightarrow> rat \<Rightarrow> rat" where
  "limited_step fl i m c =
     the_fin (calculate_backoff (Fin fl) (Fin c) (Fin i) (Fin m) default_factor True)"

lemma plain_step_eq: "plain_step i m c = min (max (2 * c) i) m"
  by (simp add: plain_step_def calculate_backoff_fin)

lemma limited_step_eq: "limited_step fl i m c = max (min (max (2 * c) i) m) fl"
  by (simp add: limited_step_def calculate_backoff_fin)

section \<open>The law of an exponential back-off\<close>

locale backoff_policy =
  fixes next_delay :: "rat \<Rightarrow> rat"
    and first :: rat
    and cap :: rat
  assumes bounded: "next_delay d \<le> cap"
    and at_least_first: "min first cap \<le> next_delay d"
    and doubles: "0 \<le> d \<Longrightarrow> min (2 * d) cap \<le> next_delay d"
begin

lemma iterate_bounded: "(next_delay ^^ Suc n) d \<le> cap"
  by (simp add: bounded)

lemma iterate_lower:
  assumes "0 \<le> first" and "0 \<le> cap"
  shows "min (2 ^ n * first) cap \<le> (next_delay ^^ Suc n) d"
proof (induction n)
  case 0
  show ?case using at_least_first [of d] by simp
next
  case (Suc n)
  let ?x = "(next_delay ^^ Suc n) d"
  have "0 \<le> min (2 ^ n * first) cap" using assms by simp
  with Suc.IH have "0 \<le> ?x" by linarith
  from Suc.IH assms(2) have "min (2 * (2 ^ n * first)) cap \<le> min (2 * ?x) cap" by linarith
  also have "\<dots> \<le> next_delay ?x" using \<open>0 \<le> ?x\<close> by (rule doubles)
  finally show ?case by (simp add: mult.assoc)
qed

text \<open>After finitely many failures the delay is the cap, and it stays there.\<close>

lemma saturates:
  assumes "0 < first" and "0 \<le> cap"
  shows "\<exists>N. \<forall>n \<ge> N. (next_delay ^^ Suc n) d = cap"
proof -
  obtain N where N: "cap / first < of_nat N" using reals_Archimedean2 [where 'a = rat] by blast
  have "(next_delay ^^ Suc n) d = cap" if "N \<le> n" for n
  proof (rule antisym)
    show "(next_delay ^^ Suc n) d \<le> cap" by (rule iterate_bounded)
    have "N \<le> 2 ^ n" using that less_exp [of n] by linarith
    then have "(of_nat N :: rat) \<le> 2 ^ n"
      using of_nat_le_iff [of N "2 ^ n", where 'a = rat] by simp
    then have "of_nat N * first \<le> 2 ^ n * first"
      using assms(1) by (intro mult_right_mono) auto
    moreover have "cap < of_nat N * first"
      using N assms(1) by (simp add: pos_divide_less_eq)
    ultimately have le: "cap \<le> 2 ^ n * first" by linarith
    have "min (2 ^ n * first) cap \<le> (next_delay ^^ Suc n) d"
      using assms by (intro iterate_lower) auto
    with le show "cap \<le> (next_delay ^^ Suc n) d" by (simp only: min_absorb2)
  qed
  then show ?thesis by blast
qed

end

interpretation plain: backoff_policy "plain_step i m" i m for i m
  by unfold_locales (auto simp: plain_step_eq min_def max_def)

text \<open>
  With the rate-limit floor the effective first delay and the effective cap are raised to
  the floor: the configured maximum is not a bound of a rate-limited delay.
\<close>

interpretation limited: backoff_policy "limited_step fl i m" "max i fl" "max m fl" for fl i m
  by unfold_locales (auto simp: limited_step_eq min_def max_def)

section \<open>Facts for the clients\<close>

lemma calculate_backoff_pos:
  assumes "0 < initial" and "0 < max_delay" and "is_number (current * f)"
  shows "0 < calculate_backoff fl current initial max_delay f rl"
proof -
  have "0 < py_max x initial" if "is_number x" for x
    using assms(1) that by (cases x; cases initial) (auto simp: py_max_def zero_pyfloat_def is_number_def)
  with assms(3) have "0 < py_min (py_max (current * f) initial) max_delay"
    using assms(2) by (simp add: py_min_def)
  then show ?thesis by (simp add: calculate_backoff_def Let_def py_max_pos)
qed

lemma calculate_backoff_floor:
  assumes "is_number fl" and "is_number (calculate_backoff fl c i m f False)"
  shows "fl \<le> calculate_backoff fl c i m f True"
  using assms py_max_ge by (simp add: calculate_backoff_def Let_def)

lemma parse_retry_after_falsy [simp]: "\<not> truthy v \<Longrightarrow> parse_retry_after date_of now v = 0"
  by (simp add: parse_retry_after_def)

lemma parse_retry_after_seconds [simp]:
  "0 < a \<Longrightarrow> parse_retry_after date_of now (PFloat (Fin a)) = Fin a"
  by (simp add: parse_retry_after_def)

lemma parse_retry_after_date:
  assumes "truthy v" and "py_float v = Inl e"
  shows "0 \<le> parse_retry_after date_of now v"
  using assms
  by (auto simp: parse_retry_after_def zero_pyfloat_def split: option.splits)

lemma backoff_iterates:
  assumes "0 \<le> i"
  shows "((\<lambda>c. calculate_backoff fl c (Fin i) (Fin m) default_factor False) ^^ Suc n) (Fin 0)
         = Fin (min (2 ^ n * i) m)"
proof (induction n)
  case 0
  show ?case using assms by (simp add: calculate_backoff_def default_factor_def)
next
  case (Suc n)
  have p: "0 \<le> 2 ^ n * i" and q: "i \<le> 2 ^ n * i"
    using assms by (simp_all add: mult_le_cancel_right1 not_less)
  have "min (max (2 * min (2 ^ n * i) m) i) m = min (2 * (2 ^ n * i)) m"
    using p q assms by (auto simp: min_def max_def)
  with Suc show ?case
    by (simp add: calculate_backoff_def default_factor_def mult.commute mult.left_commute)
qed

section \<open>Properties\<close>

text \<open>
  The delays of consecutive failures without a rate limit, starting from no delay, are
  \<open>initial\<close>, \<open>2 * initial\<close>, \<open>4 * initial\<close>, ... cut off at the maximum: the code's
  \<open>min(max(current * 2, initial), max_delay)\<close> in closed form.
\<close>

theorem backoff_closed_form:
  assumes "0 \<le> i"
  shows "((\<lambda>c. calculate_backoff fl c (Fin i) (Fin m) default_factor False) ^^ Suc n) (Fin 0)
         = Fin (min (2 ^ n * i) m)"
  using assms by (rule backoff_iterates)

theorem backoff_closed_form_witness:
  "((\<lambda>c. calculate_backoff (Fin 30) c (Fin 1) (Fin 60) default_factor False) ^^ Suc 3) (Fin 0) = Fin 8"
  using backoff_closed_form [where i = 1 and fl = "Fin 30" and m = 60 and n = 3] by simp

end
