(* ===== verification/Worker_State.thy ===== *)
theory Worker_State
  imports Messages Round_Robin Backoff
begin

text \<open>
  The \<open>Worker\<close> object: its fields (\<open>Worker.__init__\<close>), skill registration and loading, the hot
  list, and the three tiers of skills computed by \<open>_get_current_state\<close>. Coroutines started with
  \<open>create_task\<close> are recorded in \<open>w_spawned\<close>, in the order of the calls.
\<close>

section \<open>The state\<close>

type_synonym handle = nat \<comment> \<open>the identity of an \<open>asyncio.Task\<close> that runs \<open>_process_task\<close>\<close>

record handler =
  h_func :: func
  h_info :: skill_info
  h_type :: string

text \<open>
  A running handler chain: from the mutable \<open>handler_kwargs\<close> of the middleware context to the
  callbacks called, the context left behind, and the result. A middleware wraps the next stage.
\<close>

type_synonym stage = "(string, pyval) dict \<Rightarrow> act list \<times> (string, pyval) dict \<times> pyval result"
type_synonym middleware = "stage \<Rightarrow> stage"

datatype spawn =
    SpawnHeartbeat client
  | SpawnDelayedHeartbeat client pyfloat
  | SpawnProcess handle task_payload client

record worker =
  w_config :: worker_config
  w_type_limits :: "(string, int) dict"
  w_handlers :: "(string, handler) dict"
  w_dependencies :: "(string, string list) dict"
  w_middlewares :: "middleware list"
  w_capacity_checker :: "(string \<Rightarrow> bool) option"
  w_current_load :: int
  w_load_by_type :: "(string, int) dict"
  w_hot_skills :: "string set"
  w_active_tasks :: "(string, handle) dict"
  w_clients :: "(orch \<times> client) list"
  w_total_weight :: pyval
  w_poll_backoffs :: "(client, pyfloat) dict"
  w_next_poll_time :: "(client, pyfloat) dict"
  w_hb_backoffs :: "(client, pyfloat) dict"
  w_last_heartbeat_times :: "(client, rat) dict"
  w_debouncing_flags :: "(client, bool) dict"
  w_last_synced_hash :: "string option"
  w_last_sent_usage :: "resources_usage option"
  w_last_sent_usage_time :: rat
  w_registered :: bool
  w_shutdown :: bool
  w_result_queue :: "(client \<times> task_result) list"
  w_queue_worker_running :: bool
  w_spawned :: "spawn list"
  w_cancelled :: "handle list" \<comment> \<open>tasks on which \<open>cancel\<close> was called, in order\<close>
  w_command_handlers :: "(string, nat) dict" \<comment> \<open>custom command handlers, by identity\<close>
  w_usage_checker :: "(rat \<Rightarrow> resources_usage option result) option" \<comment> \<open>its answer at a given time\<close>
  w_telemetry_deadband :: pyfloat \<comment> \<open>copied from the configuration by the constructor, like the next two\<close>
  w_telemetry_force_interval :: pyfloat
  w_heartbeat_cooldown :: pyfloat

text \<open>
  The constructor. Current weights are written into the configured orchestrator dictionaries;
  the clients given explicitly keep their own dictionaries. \<open>connect\<close> numbers the transports
  \<open>_init_clients\<close> creates when an HTTP session was handed in.
\<close>

definition init_clients :: "(orch \<Rightarrow> client) \<Rightarrow> orch list \<Rightarrow> (orch \<times> client) list" where
  "init_clients connect os = map (\<lambda>o'. (o', connect o')) os"

definition worker_init ::
  "(orch \<Rightarrow> client) \<Rightarrow> worker_config \<Rightarrow> string \<Rightarrow> int option \<Rightarrow> (string, int) dict
   \<Rightarrow> (string, string list) dict \<Rightarrow> (string \<Rightarrow> bool) option \<Rightarrow> (orch \<times> client) list \<Rightarrow> bool \<Rightarrow> worker result" where
  "worker_init connect config worker_type max_concurrent_tasks limits deps checker clients has_session =
     and_then (total_weight (cfg_orchestrators config) (PInt 0)) (\<lambda>tot.
       let os = map reset_current (cfg_orchestrators config);
           cfg = config\<lparr>cfg_worker_type := worker_type,
                   cfg_max_concurrent_tasks :=
                     (case max_concurrent_tasks of Some n \<Rightarrow> n | None \<Rightarrow> cfg_max_concurrent_tasks config),
                   cfg_orchestrators := os\<rparr>
       in Inr \<lparr>w_config = cfg, w_type_limits = limits, w_handlers = [], w_dependencies = deps,
            w_middlewares = [], w_capacity_checker = checker, w_current_load = 0,
            w_load_by_type = map (\<lambda>k. (k, 0)) (dkeys limits),
            w_hot_skills = {}, w_active_tasks = [],
            w_clients = (if clients = [] \<and> has_session then init_clients connect os else clients),
            w_total_weight = tot, w_poll_backoffs = [], w_next_poll_time = [], w_hb_backoffs = [],
            w_last_heartbeat_times = [], w_debouncing_flags = [], w_last_synced_hash = None,
            w_last_sent_usage = None, w_last_sent_usage_time = 0, w_registered = False,
            w_shutdown = False, w_result_queue = [], w_queue_worker_running = False, w_spawned = [],
            w_cancelled = [], w_command_handlers = [], w_usage_checker = None,
            w_telemetry_deadband = cfg_telemetry_deadband config,
            w_telemetry_force_interval = cfg_telemetry_force_interval config,
            w_heartbeat_cooldown = cfg_heartbeat_cooldown config\<rparr>)"

text \<open>The copies of configuration values the constructor makes.\<close>

lemma worker_init_copies:
  assumes "worker_init connect config ty n limits deps checker clients has_session = Inr w"
  shows "w_telemetry_deadband w = cfg_telemetry_deadband (w_config w)"
    "w_telemetry_force_interval w = cfg_telemetry_force_interval (w_config w)"
    "w_heartbeat_cooldown w = cfg_heartbeat_cooldown (w_config w)"
  using assms by (auto simp: worker_init_def and_then_Inr_iff Let_def)

definition add_middleware :: "middleware \<Rightarrow> worker \<Rightarrow> worker" where
  "add_middleware m w = w\<lparr>w_middlewares := w_middlewares w @ [m]\<rparr>"

section \<open>Registration\<close>

text \<open>\<open>skill_info.type or skill_info.name\<close>.\<close>

definition skill_type_of :: "skill_info \<Rightarrow> string" where
  "skill_type_of i = str_or (si_type i) (si_name i)"

definition register_skill_handler :: "rxon \<Rightarrow> skill_info \<Rightarrow> func \<Rightarrow> worker \<Rightarrow> worker result" where
  "register_skill_handler rx i f w =
     (if \<not> rx_valid_identifier rx (si_name i) then Inl (ValueError ''skill name'')
      else if si_type i \<noteq> None \<and> si_type i \<noteq> Some [] \<and> \<not> rx_valid_identifier rx (skill_type_of i)
      then Inl (ValueError ''skill type'')
      else (let ty = skill_type_of i;
                loads = (if ty \<noteq> [] \<and> \<not> dhas (w_load_by_type w) ty
                         then dset ty 0 (w_load_by_type w) else w_load_by_type w)
            in Inr (w\<lparr>w_load_by_type := loads,
                   w_handlers := dset (si_name i) \<lparr>h_func = f, h_info = i, h_type = ty\<rparr> (w_handlers w)\<rparr>)))"

text \<open>\<open>Worker.skill(...)(func)\<close>.\<close>

definition worker_skill ::
  "rxon \<Rightarrow> (pyval \<Rightarrow> pyval) \<Rightarrow> (string \<Rightarrow> string) \<Rightarrow> struct_class \<Rightarrow> skill_arg
   \<Rightarrow> (string, pyval) dict \<Rightarrow> func \<Rightarrow> worker \<Rightarrow> worker result" where
  "worker_skill rx extract cleandoc own info kwargs f w =
     and_then (skill_base_info extract own info kwargs) (\<lambda>base.
       register_skill_handler rx (decorate cleandoc base f) f w)"

text \<open>
  \<open>include_blueprint\<close> stops at the first registration that raises and keeps the earlier ones.
\<close>

fun include_skills :: "rxon \<Rightarrow> (skill_info \<times> func) list \<Rightarrow> worker \<Rightarrow> worker \<times> pyexn option" where
  "include_skills rx [] w = (w, None)"
| "include_skills rx ((i, f) # rest) w =
     (case register_skill_handler rx i f w of
        Inl e \<Rightarrow> (w, Some e)
      | Inr w' \<Rightarrow> include_skills rx rest w')"

definition include_blueprint :: "rxon \<Rightarrow> blueprint \<Rightarrow> worker \<Rightarrow> worker \<times> pyexn option" where
  "include_blueprint rx bp w = include_skills rx (bp_skills bp) w"

text \<open>
  \<open>load_skills\<close>: each eligible file of the skills directory is imported and its blueprints
  included, then its \<open>setup\<close> called; an exception is logged and the next file tried. A module is
  its blueprints in \<open>dir\<close> order and its \<open>setup\<close>; \<open>None\<close>: no import spec; \<open>Inl\<close>: import fails.
\<close>

record skill_module =
  mod_blueprints :: "blueprint list"
  mod_setup :: "(worker \<Rightarrow> worker \<times> pyexn option) option"

fun include_all :: "rxon \<Rightarrow> blueprint list \<Rightarrow> worker \<Rightarrow> worker \<times> pyexn option" where
  "include_all rx [] w = (w, None)"
| "include_all rx (bp # bps) w =
     (case include_blueprint rx bp w of
        (w', Some e) \<Rightarrow> (w', Some e)
      | (w', None) \<Rightarrow> include_all rx bps w')"

definition load_module :: "rxon \<Rightarrow> skill_module option result \<Rightarrow> worker \<Rightarrow> worker \<times> pyexn option" where
  "load_module rx m w =
     (case m of
        Inl e \<Rightarrow> (w, Some e)
      | Inr None \<Rightarrow> (w, None)
      | Inr (Some md) \<Rightarrow>
          (case include_all rx (mod_blueprints md) w of
             (w', Some e) \<Rightarrow> (w', Some e)
           | (w', None) \<Rightarrow> (case mod_setup md of None \<Rightarrow> (w', None) | Some setup \<Rightarrow> setup w')))"

definition skill_file :: "string \<Rightarrow> bool" where
  "skill_file name = (ends_with name ''.py'' \<and> \<not> starts_with name ''_'')"

fun load_skills :: "rxon \<Rightarrow> (string \<Rightarrow> skill_module option result) \<Rightarrow> string list \<Rightarrow> worker \<Rightarrow> worker" where
  "load_skills rx import_file [] w = w"
| "load_skills rx import_file (name # names) w =
     load_skills rx import_file names
       (if skill_file name then fst (load_module rx (import_file name) w) else w)"

text \<open>\<open>_validate_skill_types\<close>: the limited types for which no skill is registered (warned about).\<close>

definition unregistered_limits :: "worker \<Rightarrow> string list" where
  "unregistered_limits w =
     filter (\<lambda>t. t \<notin> set (filter (\<lambda>s. s \<noteq> []) (map (h_type \<circ> snd) (w_handlers w)))) (dkeys (w_type_limits w))"

section \<open>Hot skills\<close>

definition schedule_heartbeat_debounce :: "worker \<Rightarrow> worker" where
  "schedule_heartbeat_debounce w =
     w\<lparr>w_spawned := w_spawned w @ map (\<lambda>(o', c). SpawnHeartbeat c) (w_clients w)\<rparr>"

definition add_to_hot_skills :: "string \<Rightarrow> worker \<Rightarrow> worker" where
  "add_to_hot_skills item w =
     schedule_heartbeat_debounce (w\<lparr>w_hot_skills := insert item (w_hot_skills w)\<rparr>)"

definition remove_from_hot_skills :: "string \<Rightarrow> worker \<Rightarrow> worker" where
  "remove_from_hot_skills item w =
     schedule_heartbeat_debounce (w\<lparr>w_hot_skills := w_hot_skills w - {item}\<rparr>)"

section \<open>The three tiers of skills\<close>

datatype worker_status = Idle | Busy | Full

record tiers =
  t_status :: worker_status
  t_supported :: "skill_info list"
  t_available :: "skill_info list"
  t_hot :: "skill_info list"

definition within_type_limit :: "worker \<Rightarrow> string \<Rightarrow> bool" where
  "within_type_limit w ty =
     (if ty \<noteq> [] \<and> dhas (w_type_limits w) ty
      then dget_or (w_load_by_type w) ty 0 < dget_or (w_type_limits w) ty 0
      else True)"

definition has_capacity :: "worker \<Rightarrow> string \<Rightarrow> bool" where
  "has_capacity w name = (case w_capacity_checker w of None \<Rightarrow> True | Some p \<Rightarrow> p name)"

definition is_available :: "worker \<Rightarrow> handler \<Rightarrow> bool" where
  "is_available w h = (within_type_limit w (h_type h) \<and> has_capacity w (si_name (h_info h)))"

definition is_hot :: "worker \<Rightarrow> string \<Rightarrow> bool" where
  "is_hot w name =
     (case dget (w_dependencies w) name of
        Some deps \<Rightarrow> deps \<noteq> [] \<and> set deps \<subseteq> w_hot_skills w
      | None \<Rightarrow> name \<in> w_hot_skills w)"

definition get_current_state :: "worker \<Rightarrow> tiers" where
  "get_current_state w =
     (let handlers = map snd (w_handlers w); supported = map h_info handlers
      in if w_current_load w \<ge> cfg_max_concurrent_tasks (w_config w)
         then \<lparr>t_status = Full, t_supported = supported, t_available = [], t_hot = []\<rparr>
         else (let available = map h_info (filter (is_available w) handlers);
                   hot = filter (\<lambda>i. is_hot w (si_name i)) available
               in \<lparr>t_status = (if available = [] then Busy else Idle), t_supported = supported,
                   t_available = available, t_hot = hot\<rparr>))"

text \<open>The status word put into heartbeats.\<close>

fun status_word :: "worker_status \<Rightarrow> string" where
  "status_word Idle = ''idle''"
| "status_word Busy = ''busy''"
| "status_word Full = ''full''"

section \<open>Well-formed workers\<close>

text \<open>
  Handlers are filed under their skill's name and the load table has a counter for every
  registered type, which polling relies on (\<open>self._current_load_by_type[t] += 1\<close>).
\<close>

definition worker_wf :: "worker \<Rightarrow> bool" where
  "worker_wf w = (dict_wf (w_handlers w) \<and>
     list_all (\<lambda>(n, h). n = si_name (h_info h) \<and> (h_type h \<noteq> [] \<longrightarrow> dhas (w_load_by_type w) (h_type h)))
       (w_handlers w))"

lemma dget_mem: "dget d k = Some v \<Longrightarrow> (k, v) \<in> set d"
  by (simp add: dget_def map_of_SomeD)

lemma mem_dset:
  "p \<in> set (dset k v d) \<Longrightarrow> p = (k, v) \<or> p \<in> set d"
  by (induction d) (auto split: if_splits)

lemma worker_wf_handler:
  assumes "worker_wf w" and "dget (w_handlers w) n = Some h"
  shows "n = si_name (h_info h)" and "h_type h \<noteq> [] \<Longrightarrow> dhas (w_load_by_type w) (h_type h)"
  using assms dget_mem by (fastforce simp: worker_wf_def list_all_iff)+

lemma worker_wf_register:
  assumes "worker_wf w" and "register_skill_handler rx i f w = Inr w'"
  shows "worker_wf w'"
  using assms
  by (auto simp: register_skill_handler_def worker_wf_def Let_def list_all_iff dict_simps
      split: if_splits dest!: mem_dset)

lemma worker_wf_cong:
  assumes "w_handlers w' = w_handlers w" and "dkeys (w_load_by_type w') = dkeys (w_load_by_type w)"
  shows "worker_wf w' = worker_wf w"
  using assms by (simp add: worker_wf_def dhas_def)

lemma worker_wf_include: "worker_wf w \<Longrightarrow> worker_wf (fst (include_skills rx ss w))"
  by (induction rx ss w rule: include_skills.induct)
    (auto split: sum.splits intro: worker_wf_register)

lemma include_all_wf: "worker_wf w \<Longrightarrow> worker_wf (fst (include_all rx bps w))"
proof (induction rx bps w rule: include_all.induct)
  case (2 rx bp bps w)
  have "worker_wf (fst (include_blueprint rx bp w))"
    using 2 by (simp add: include_blueprint_def worker_wf_include)
  with 2 show ?case by (auto split: prod.splits option.splits)
qed simp

lemma schedule_frame [simp, frame_simps]:
  "w_handlers (schedule_heartbeat_debounce w) = w_handlers w"
  "w_current_load (schedule_heartbeat_debounce w) = w_current_load w"
  "w_load_by_type (schedule_heartbeat_debounce w) = w_load_by_type w"
  "w_config (schedule_heartbeat_debounce w) = w_config w"
  "w_clients (schedule_heartbeat_debounce w) = w_clients w"
  "w_active_tasks (schedule_heartbeat_debounce w) = w_active_tasks w"
  "w_type_limits (schedule_heartbeat_debounce w) = w_type_limits w"
  "w_capacity_checker (schedule_heartbeat_debounce w) = w_capacity_checker w"
  "w_hot_skills (schedule_heartbeat_debounce w) = w_hot_skills w"
  "w_poll_backoffs (schedule_heartbeat_debounce w) = w_poll_backoffs w"
  "w_next_poll_time (schedule_heartbeat_debounce w) = w_next_poll_time w"
  "w_result_queue (schedule_heartbeat_debounce w) = w_result_queue w"
  "w_dependencies (schedule_heartbeat_debounce w) = w_dependencies w"
  "w_shutdown (schedule_heartbeat_debounce w) = w_shutdown w"
  "w_queue_worker_running (schedule_heartbeat_debounce w) = w_queue_worker_running w"
  "w_middlewares (schedule_heartbeat_debounce w) = w_middlewares w"
  "w_last_synced_hash (schedule_heartbeat_debounce w) = w_last_synced_hash w"
  by (simp_all add: schedule_heartbeat_debounce_def)

lemma get_current_state_cases:
  "t_status (get_current_state w) = Full \<longleftrightarrow> w_current_load w \<ge> cfg_max_concurrent_tasks (w_config w)"
  "t_status (get_current_state w) = Idle \<longleftrightarrow> t_available (get_current_state w) \<noteq> []"
  "t_status (get_current_state w) = Busy \<longleftrightarrow>
     w_current_load w < cfg_max_concurrent_tasks (w_config w) \<and> t_available (get_current_state w) = []"
  by (auto simp: get_current_state_def Let_def)

lemma get_current_state_available:
  "w_current_load w < cfg_max_concurrent_tasks (w_config w) \<Longrightarrow>
   t_available (get_current_state w) = map h_info (filter (is_available w) (map snd (w_handlers w)))"
  by (simp add: get_current_state_def Let_def)

lemma available_iff:
  "i \<in> set (t_available (get_current_state w)) \<longleftrightarrow>
     w_current_load w < cfg_max_concurrent_tasks (w_config w) \<and>
     (\<exists>n h. (n, h) \<in> set (w_handlers w) \<and> h_info h = i \<and> is_available w h)"
  by (force simp: get_current_state_def Let_def image_iff)

section \<open>Fixtures\<close>

text \<open>A small concrete worker on which the properties are exercised.\<close>

definition sample_rxon :: rxon where
  "sample_rxon = \<lparr> rx_status_success = ''success'', rx_status_failure = ''failure'',
     rx_status_cancelled = ''cancelled'', rx_code_contract_violation = ''CONTRACT_VIOLATION'',
     rx_code_integrity_mismatch = ''INTEGRITY_MISMATCH'', rx_code_invalid_input = ''INVALID_INPUT'',
     rx_code_permanent = ''PERMANENT'', rx_code_transient = ''TRANSIENT'',
     rx_event_progress = ''progress'', rx_command_cancel = ''cancel_task'',
     rx_hb_cancel_tasks = ''cancel_tasks'', rx_hb_require_full_sync = ''require_full_sync'',
     rx_worker_draining = ''draining'', rx_sign = (\<lambda>m k ig. ''sig''),
     rx_verify_signature = (\<lambda>t sg k ig. sg = ''good''), rx_validate_params = (\<lambda>t i. (True, None)),
     rx_validate_data = (\<lambda>d s. (True, None)), rx_valid_identifier = (\<lambda>s. s \<noteq> []),
     rx_contract_hash = (\<lambda>ss c e. ''hash''), rx_config_hash = (\<lambda>a b c. None),
     rx_security_of = (\<lambda>v. None), rx_task_error_fields = [''code'', ''message''],
     rx_new_task_error = (\<lambda>d. Inr \<lparr>err_code = dget_or d ''code'' PNone,
        err_message = dget_or d ''message'' PNone, err_details = []\<rparr>),
     rx_device_fields = [''type'', ''id'', ''model'', ''properties''], rx_new_device = Inr,
     rx_artifact_fields = [''name'', ''version''], rx_new_artifact = Inr \<rparr>"

definition sample_class :: struct_class where
  "sample_class = \<lparr>sc_name = ''SkillInfo'', sc_fields = [(''name'', None), (''type'', Some PNone),
     (''description'', Some PNone), (''version'', Some PNone), (''input_schema'', Some PNone),
     (''output_schema'', Some PNone), (''events_schema'', Some PNone)]\<rparr>"

definition sample_skill :: "string \<Rightarrow> skill_info" where
  "sample_skill n = \<lparr>si_class = sample_class, si_fields = [(''name'', PStr n)]\<rparr>"

definition sample_func :: func where
  "sample_func = \<lparr>fn_name = ''echo'', fn_doc = [], fn_version = None, fn_input_schema = PNone,
     fn_output_schema = PNone,
     fn_params = [\<lparr>pp_name = ''params'', pp_kind = Named, pp_has_default = False\<rparr>],
     fn_annotation = PlainParams, fn_hints = Some [],
     fn_body = (\<lambda>kw. ([], Inr (PDict [(''data'', PStr ''ok'')])))\<rparr>"

definition sample_worker :: worker where
  "sample_worker = \<lparr>w_config = sample_config, w_type_limits = [], w_handlers =
       [(''echo'', \<lparr>h_func = sample_func, h_info = sample_skill ''echo'', h_type = ''echo''\<rparr>)],
     w_dependencies = [], w_middlewares = [], w_capacity_checker = None, w_current_load = 0,
     w_load_by_type = [(''echo'', 0)], w_hot_skills = {}, w_active_tasks = [],
     w_clients = [([(''url'', PStr ''a'')], 1), ([(''url'', PStr ''b'')], 2)], w_total_weight = PInt 2,
     w_poll_backoffs = [], w_next_poll_time = [], w_hb_backoffs = [], w_last_heartbeat_times = [],
     w_debouncing_flags = [], w_last_synced_hash = None, w_last_sent_usage = None,
     w_last_sent_usage_time = 0, w_registered = False, w_shutdown = False, w_result_queue = [],
     w_queue_worker_running = True, w_spawned = [], w_cancelled = [], w_command_handlers = [], w_usage_checker = None,
     w_telemetry_deadband = Fin 5, w_telemetry_force_interval = Fin 60, w_heartbeat_cooldown = Fin 2\<rparr>"

lemma sample_skill_simps [simp]:
  "si_name (sample_skill n) = n" "si_type (sample_skill n) = None"
  "skill_type_of (sample_skill n) = n"
  by (simp_all add: sample_skill_def si_name_def si_type_def attr_def dget_or_def skill_type_of_def str_or_def)

lemma sample_worker_wf: "worker_wf sample_worker"
  by (simp add: worker_wf_def sample_worker_def dict_wf_def)

section \<open>Properties\<close>

text \<open>
  C26: The three tiers, exactly. The supported skills are the registered catalogue; available and hot
  ones are sublists of it in its order. A skill is available when the worker has room, the load of
  its type is below the limit of the type, if there is one (an empty type has none), and the capacity
  checker, if any, agrees. An available skill is hot when all of its declared dependencies are in
  memory and there is at least one, or when it declares none and is itself in memory. The status
  is full without room, otherwise idle or busy.
\<close>

theorem skill_tiers:
  "let s = get_current_state w; room = w_current_load w < cfg_max_concurrent_tasks (w_config w) in
     t_supported s = map (h_info \<circ> snd) (w_handlers w) \<and>
     (\<exists>places. t_available s = nths (t_supported s) places) \<and>
     (\<exists>places. t_hot s = nths (t_available s) places) \<and>
     set (t_available s) = {i. room \<and> (\<exists>n h. (n, h) \<in> set (w_handlers w) \<and> h_info h = i \<and>
        (case dget (w_type_limits w) (h_type h) of
           None \<Rightarrow> True
         | Some limit \<Rightarrow> h_type h = [] \<or>
             (case dget (w_load_by_type w) (h_type h) of None \<Rightarrow> 0 | Some load \<Rightarrow> load) < limit) \<and>
        (case w_capacity_checker w of None \<Rightarrow> True | Some has_room \<Rightarrow> has_room (si_name i)))} \<and>
     set (t_hot s) = {i \<in> set (t_available s).
        (case dget (w_dependencies w) (si_name i) of
           None \<Rightarrow> si_name i \<in> w_hot_skills w
         | Some deps \<Rightarrow> deps \<noteq> [] \<and> list_all (\<lambda>d. d \<in> w_hot_skills w) deps)} \<and>
     t_status s = (if \<not> room then Full else if t_available s = [] then Busy else Idle)"
proof -
  let ?s = "get_current_state w" and ?room = "w_current_load w < cfg_max_concurrent_tasks (w_config w)"
  have limit: "within_type_limit w ty \<longleftrightarrow> (case dget (w_type_limits w) ty of
      None \<Rightarrow> True
    | Some limit \<Rightarrow> ty = [] \<or> (case dget (w_load_by_type w) ty of None \<Rightarrow> 0 | Some load \<Rightarrow> load) < limit)" for ty
    by (auto simp: within_type_limit_def dhas_iff dget_or_def split: option.splits)
  have filtered: "\<exists>I. map f (filter P xs) = nths (map f xs) I" for f :: "'a \<Rightarrow> 'b" and P and xs
    by (auto simp: filter_eq_nths nths_map)
  have "\<exists>I. t_available ?s = nths (t_supported ?s) I"
    using filtered [of h_info "is_available w" "map snd (w_handlers w)"] nths_empty
    by (auto simp: get_current_state_def Let_def intro: exI [of _ "{}"])
  moreover have "\<exists>I. t_hot ?s = nths (t_available ?s) I"
    using filtered [of "\<lambda>i. i" "\<lambda>i. is_hot w (si_name i)" "t_available ?s"]
    by (auto simp: get_current_state_def Let_def)
  moreover have "set (t_available ?s) = {i. ?room \<and> (\<exists>n h. (n, h) \<in> set (w_handlers w) \<and> h_info h = i \<and>
      within_type_limit w (h_type h) \<and> has_capacity w (si_name i))}"
    by (intro set_eqI) (simp only: available_iff is_available_def mem_Collect_eq, metis)
  moreover have "set (t_hot ?s) = {i \<in> set (t_available ?s). is_hot w (si_name i)}"
    by (auto simp: get_current_state_def Let_def)
  moreover have "t_supported ?s = map (h_info \<circ> snd) (w_handlers w)"
    "t_status ?s = (if \<not> ?room then Full else if t_available ?s = [] then Busy else Idle)"
    by (auto simp: get_current_state_def Let_def)
  moreover have "is_hot w name \<longleftrightarrow> (case dget (w_dependencies w) name of
      None \<Rightarrow> name \<in> w_hot_skills w | Some deps \<Rightarrow> deps \<noteq> [] \<and> list_all (\<lambda>d. d \<in> w_hot_skills w) deps)" for name
    by (auto simp: is_hot_def list_all_iff split: option.split)
  ultimately show ?thesis by (simp only: Let_def limit has_capacity_def)
qed

text \<open>
  C27: Registering a skill keeps the worker well-formed, files the handler under its name,
  leaves every other handler alone, and never resets a counter of the load table: existing
  counters keep their value and the skill's type has one.
\<close>

theorem registration_correct:
  assumes "worker_wf w" and "register_skill_handler rx i f w = Inr w'"
  shows "worker_wf w' \<and>
    dget (w_handlers w') (si_name i) = Some \<lparr>h_func = f, h_info = i, h_type = skill_type_of i\<rparr> \<and>
    (n \<noteq> si_name i \<longrightarrow> dget (w_handlers w') n = dget (w_handlers w) n) \<and>
    (dhas (w_load_by_type w) ty \<longrightarrow> dget (w_load_by_type w') ty = dget (w_load_by_type w) ty) \<and>
    (skill_type_of i \<noteq> [] \<longrightarrow> dhas (w_load_by_type w') (skill_type_of i)) \<and>
    w_current_load w' = w_current_load w"
proof -
  have "worker_wf w'" using assms by (rule worker_wf_register)
  then show ?thesis
    using assms(2) by (auto simp: register_skill_handler_def Let_def dict_simps split: if_splits)
qed

theorem registration_correct_witness:
  "\<exists>w'. register_skill_handler sample_rxon (sample_skill ''new'') sample_func sample_worker = Inr w' \<and>
     worker_wf w' \<and> dget (w_load_by_type w') ''echo'' = Some 0"
proof -
  obtain w' where w': "register_skill_handler sample_rxon (sample_skill ''new'') sample_func sample_worker = Inr w'"
    by (simp add: register_skill_handler_def sample_rxon_def Let_def)
  have "dhas (w_load_by_type sample_worker) ''echo''" "dget (w_load_by_type sample_worker) ''echo'' = Some 0"
    by (simp_all add: sample_worker_def)
  then show ?thesis
    using registration_correct [OF sample_worker_wf w', of _ "''echo''"] w' by auto
qed

end
