(* ===== verification/Polling.thy ===== *)
theory Polling
  imports Worker_State
begin

text \<open>
  Task polling: \<open>_poll_for_tasks_with_status\<close> and the loop of \<open>_start_polling\<close> in its three modes.
  A poll suspends while the orchestrator answers; \<open>pe_during\<close> is what the other coroutines do to
  the worker in the meantime. An exception that no clause catches ends the polling task.
\<close>

section \<open>One poll\<close>

datatype poll_answer =
    PollTask task_payload
  | PollNothing
  | PollRaise pyexn

text \<open>
  What the surroundings of one poll supply: the clock before the request and at the error
  handler, the answer to the request (available and hot skill names), the interleaved work, the
  identity of the task object created, and the HTTP-date reader.
\<close>

record poll_env =
  pe_now :: rat
  pe_respond :: "string list \<Rightarrow> string list \<Rightarrow> poll_answer"
  pe_during :: "worker \<Rightarrow> worker"
  pe_later :: rat
  pe_handle :: handle
  pe_date_of :: "pyval \<Rightarrow> rat option"

record poll_out =
  po_worker :: worker
  po_found :: bool
  po_contacted :: "client list" \<comment> \<open>orchestrators to which \<open>poll_task\<close> was sent, in order\<close>
  po_raised :: "pyexn option"

text \<open>The guards before the request, and the two name lists it carries.\<close>

definition poll_request :: "client \<Rightarrow> rat \<Rightarrow> worker \<Rightarrow> (string list \<times> string list) option" where
  "poll_request c now w =
     (if Fin now < dget_or (w_next_poll_time w) c 0 then None
      else (let s = get_current_state w
            in if t_status s = Busy \<or> t_status s = Full then None
               else (let names = map si_name (t_available s)
                     in if names = [] then None else Some (names, map si_name (t_hot s)))))"

definition clear_poll_backoff :: "client \<Rightarrow> worker \<Rightarrow> worker" where
  "clear_poll_backoff c w =
     w\<lparr>w_poll_backoffs := dpop c (w_poll_backoffs w), w_next_poll_time := dpop c (w_next_poll_time w)\<rparr>"

text \<open>\<open>self._current_load_by_type[t] += 1\<close>, a KeyError where there is no counter.\<close>

definition bump_type_load :: "string \<Rightarrow> worker \<Rightarrow> worker result" where
  "bump_type_load ty w =
     (case dget (w_load_by_type w) ty of
        None \<Rightarrow> Inl (KeyError ty)
      | Some n \<Rightarrow> Inr (w\<lparr>w_load_by_type := dset ty (n + 1) (w_load_by_type w)\<rparr>))"

definition type_for_limit :: "string \<Rightarrow> worker \<Rightarrow> string option" where
  "type_for_limit skill w =
     (case dget (w_handlers w) skill of
        Some h \<Rightarrow> if h_type h = [] then None else Some (h_type h)
      | None \<Rightarrow> None)"

text \<open>A task was received: count it, start its coroutine, remember the task object.\<close>

definition accept_task :: "client \<Rightarrow> handle \<Rightarrow> task_payload \<Rightarrow> worker \<Rightarrow> poll_out" where
  "accept_task c h t w =
     (let w = w\<lparr>w_current_load := w_current_load w + 1\<rparr>
      in case (case type_for_limit (tp_type t) w of Some ty \<Rightarrow> bump_type_load ty w | None \<Rightarrow> Inr w) of
           Inl e \<Rightarrow> \<lparr>po_worker = w, po_found = False, po_contacted = [c], po_raised = Some e\<rparr>
         | Inr w \<Rightarrow>
             (let w = schedule_heartbeat_debounce w;
                  w = w\<lparr>w_spawned := w_spawned w @ [SpawnProcess h t c]\<rparr>;
                  w = w\<lparr>w_active_tasks := dset (tp_task_id t) h (w_active_tasks w)\<rparr>
              in \<lparr>po_worker = w, po_found = True, po_contacted = [c], po_raised = None\<rparr>))"

text \<open>The delay chosen after a rate limit or a network error.\<close>

definition poll_delay :: "(pyval \<Rightarrow> rat option) \<Rightarrow> rat \<Rightarrow> client \<Rightarrow> pyexn \<Rightarrow> worker \<Rightarrow> pyfloat" where
  "poll_delay date_of now c e w =
     (let retry_after = parse_retry_after date_of now (retry_after_of e);
          cfg = w_config w
      in if 0 < retry_after then retry_after
         else calculate_backoff (cfg_rate_limit_backoff_floor cfg) (dget_or (w_poll_backoffs w) c 0)
                (cfg_poll_backoff_initial cfg) (cfg_poll_backoff_max cfg) default_factor (is_rate_limit e))"

definition poll_failed :: "(pyval \<Rightarrow> rat option) \<Rightarrow> rat \<Rightarrow> client \<Rightarrow> pyexn \<Rightarrow> worker \<Rightarrow> worker" where
  "poll_failed date_of now c e w =
     (let d = poll_delay date_of now c e w
      in w\<lparr>w_poll_backoffs := dset c d (w_poll_backoffs w),
           w_next_poll_time := dset c (Fin now + d) (w_next_poll_time w)\<rparr>)"

fun is_network_error :: "pyexn \<Rightarrow> bool" where
  "is_network_error (RxonNetworkError _) = True"
| "is_network_error _ = False"

definition poll_answered :: "poll_env \<Rightarrow> client \<Rightarrow> poll_answer \<Rightarrow> worker \<Rightarrow> poll_out" where
  "poll_answered pe c ans w =
     (case ans of
        PollTask t \<Rightarrow> accept_task c (pe_handle pe) t (clear_poll_backoff c w)
      | PollNothing \<Rightarrow>
          \<lparr>po_worker = clear_poll_backoff c w, po_found = False, po_contacted = [c], po_raised = None\<rparr>
      | PollRaise e \<Rightarrow>
          if is_rate_limit e \<or> is_network_error e
          then \<lparr>po_worker = poll_failed (pe_date_of pe) (pe_later pe) c e w, po_found = False,
                po_contacted = [c], po_raised = None\<rparr>
          else if is_rxon_error e
          then \<lparr>po_worker = w, po_found = False, po_contacted = [c], po_raised = None\<rparr>
          else \<lparr>po_worker = w, po_found = False, po_contacted = [c], po_raised = Some e\<rparr>)"

definition poll_for_tasks_with_status :: "poll_env \<Rightarrow> client \<Rightarrow> worker \<Rightarrow> poll_out" where
  "poll_for_tasks_with_status pe c w =
     (case poll_request c (pe_now pe) w of
        None \<Rightarrow> \<lparr>po_worker = w, po_found = False, po_contacted = [], po_raised = None\<rparr>
      | Some (names, hot) \<Rightarrow> poll_answered pe c (pe_respond pe names hot) (pe_during pe w))"

section \<open>The polling loop\<close>

type_synonym cycle_env = "client \<Rightarrow> poll_env"

definition no_task :: "worker \<Rightarrow> poll_out" where
  "no_task w = \<lparr>po_worker = w, po_found = False, po_contacted = [], po_raised = None\<rparr>"

text \<open>WATERFALL: in the configured order, until one orchestrator has a task.\<close>

fun waterfall :: "cycle_env \<Rightarrow> client list \<Rightarrow> worker \<Rightarrow> poll_out" where
  "waterfall env [] w = no_task w"
| "waterfall env (c # cs) w =
     (if t_status (get_current_state w) = Busy then no_task w
      else (let p = poll_for_tasks_with_status (env c) c w
            in if po_raised p \<noteq> None \<or> po_found p then p
               else (let r = waterfall env cs (po_worker p)
                     in r\<lparr>po_contacted := po_contacted p @ po_contacted r\<rparr>)))"

text \<open>Any other mode (FAILOVER): every orchestrator once per cycle, tasks accumulate.\<close>

fun failover :: "cycle_env \<Rightarrow> client list \<Rightarrow> worker \<Rightarrow> poll_out" where
  "failover env [] w = no_task w"
| "failover env (c # cs) w =
     (if t_status (get_current_state w) = Busy then no_task w
      else (let p = poll_for_tasks_with_status (env c) c w
            in if po_raised p \<noteq> None then p
               else (let r = failover env cs (po_worker p)
                     in r\<lparr>po_contacted := po_contacted p @ po_contacted r,
                          po_found := (po_found p \<or> po_found r)\<rparr>)))"

definition round_robin :: "cycle_env \<Rightarrow> worker \<Rightarrow> poll_out" where
  "round_robin env w =
     (case get_next_client (w_total_weight w) (w_clients w) of
        Inl e \<Rightarrow> (no_task w)\<lparr>po_raised := Some e\<rparr>
      | Inr (None, clients) \<Rightarrow> no_task (w\<lparr>w_clients := clients\<rparr>)
      | Inr (Some c, clients) \<Rightarrow> poll_for_tasks_with_status (env c) c (w\<lparr>w_clients := clients\<rparr>))"

definition poll_cycle :: "cycle_env \<Rightarrow> worker \<Rightarrow> poll_out" where
  "poll_cycle env w =
     (if cfg_multi_orchestrator_mode (w_config w) = ''WATERFALL'' then waterfall env (map snd (w_clients w)) w
      else if cfg_multi_orchestrator_mode (w_config w) = ''ROUND_ROBIN'' then round_robin env w
      else failover env (map snd (w_clients w)) w)"

text \<open>
  The \<open>while\<close> loop over the surroundings of its successive iterations, after the wait for the
  first registration. \<open>sleeping\<close> is what happens to the worker during \<open>sleep(IDLE_POLL_DELAY)\<close>.
\<close>

record iteration =
  it_env :: cycle_env
  it_sleeping :: "worker \<Rightarrow> worker"

datatype loop_end = Running | ShutDown | Drained | Crashed pyexn

fun start_polling :: "rxon \<Rightarrow> iteration list \<Rightarrow> worker \<Rightarrow> worker \<times> loop_end" where
  "start_polling rx [] w = (w, Running)"
| "start_polling rx (it # its) w =
     (if w_shutdown w then (w, ShutDown)
      else if status_word (t_status (get_current_state w)) = rx_worker_draining rx then (w, Drained)
      else if t_status (get_current_state w) = Busy then start_polling rx its (it_sleeping it w)
      else (let p = poll_cycle (it_env it) w
            in case po_raised p of
                 Some e \<Rightarrow> (po_worker p, Crashed e)
               | None \<Rightarrow> start_polling rx its
                   (if po_found p then po_worker p else it_sleeping it (po_worker p))))"

section \<open>Interference\<close>

text \<open>
  While a poll waits, other coroutines run: tasks finish, heartbeats are sent, the hot list
  changes. None of them takes on work: no counter grows, configuration, limits, handlers and
  clients stay, and no counter disappears.
\<close>

definition takes_no_work :: "(worker \<Rightarrow> worker) \<Rightarrow> bool" where
  "takes_no_work d = (\<forall>w. w_current_load (d w) \<le> w_current_load w \<and> w_config (d w) = w_config w \<and>
     w_handlers (d w) = w_handlers w \<and> w_type_limits (d w) = w_type_limits w \<and>
     w_clients (d w) = w_clients w \<and>
     dkeys (w_load_by_type (d w)) = dkeys (w_load_by_type w) \<and>
     (\<forall>ty. dget_or (w_load_by_type (d w)) ty 0 \<le> dget_or (w_load_by_type w) ty 0))"

definition quiet_env :: "poll_env \<Rightarrow> bool" where
  "quiet_env pe = takes_no_work (pe_during pe)"

definition quiet_iteration :: "iteration \<Rightarrow> bool" where
  "quiet_iteration it = ((\<forall>c. quiet_env (it_env it c)) \<and> takes_no_work (it_sleeping it))"

lemma takes_no_work_id: "takes_no_work (\<lambda>w. w)"
  by (simp add: takes_no_work_def)

section \<open>Lemmas\<close>

lemma poll_request_Some:
  assumes "poll_request c now w = Some (names, hot)"
  shows "w_current_load w < cfg_max_concurrent_tasks (w_config w)"
    and "names = map si_name (t_available (get_current_state w))"
    and "\<not> Fin now < dget_or (w_next_poll_time w) c 0"
  using assms get_current_state_cases(1) [of w]
  by (auto simp: poll_request_def Let_def split: if_splits)

lemma clear_poll_backoff_frame [simp]:
  "w_current_load (clear_poll_backoff c w) = w_current_load w"
  "w_config (clear_poll_backoff c w) = w_config w" "w_handlers (clear_poll_backoff c w) = w_handlers w"
  "w_load_by_type (clear_poll_backoff c w) = w_load_by_type w"
  "w_type_limits (clear_poll_backoff c w) = w_type_limits w"
  "w_clients (clear_poll_backoff c w) = w_clients w"
  "w_active_tasks (clear_poll_backoff c w) = w_active_tasks w"
  by (simp_all add: clear_poll_backoff_def)

lemma poll_failed_frame [simp]:
  "w_current_load (poll_failed f t c e w) = w_current_load w"
  "w_config (poll_failed f t c e w) = w_config w" "w_handlers (poll_failed f t c e w) = w_handlers w"
  "w_load_by_type (poll_failed f t c e w) = w_load_by_type w"
  "w_type_limits (poll_failed f t c e w) = w_type_limits w"
  "w_clients (poll_failed f t c e w) = w_clients w"
  by (simp_all add: poll_failed_def Let_def)

lemma accept_task_frame [simp]:
  "w_current_load (po_worker (accept_task c h t w)) = w_current_load w + 1"
  "w_config (po_worker (accept_task c h t w)) = w_config w"
  "w_handlers (po_worker (accept_task c h t w)) = w_handlers w"
  "w_type_limits (po_worker (accept_task c h t w)) = w_type_limits w"
  "w_clients (po_worker (accept_task c h t w)) = w_clients w"
  by (auto simp: accept_task_def Let_def bump_type_load_def split: option.splits)

lemma accept_task_loads:
  "dget_or (w_load_by_type (po_worker (accept_task c h t w))) ty 0 \<le>
     dget_or (w_load_by_type w) ty 0 + (if type_for_limit (tp_type t) w = Some ty then 1 else 0)"
  by (auto simp: accept_task_def Let_def bump_type_load_def dict_simps dget_or_def type_for_limit_def
      split: option.splits if_splits)

lemma poll_frame:
  assumes "quiet_env pe"
  shows "w_config (po_worker (poll_for_tasks_with_status pe c w)) = w_config w"
    and "w_handlers (po_worker (poll_for_tasks_with_status pe c w)) = w_handlers w"
    and "w_type_limits (po_worker (poll_for_tasks_with_status pe c w)) = w_type_limits w"
  using assms
  by (auto simp: poll_for_tasks_with_status_def poll_answered_def quiet_env_def takes_no_work_def
      split: option.splits poll_answer.splits)

lemma poll_load_bound:
  assumes "quiet_env pe" and "w_current_load w \<le> cfg_max_concurrent_tasks (w_config w)"
  shows "w_current_load (po_worker (poll_for_tasks_with_status pe c w)) \<le> cfg_max_concurrent_tasks (w_config w)"
proof (cases "poll_request c (pe_now pe) w")
  case None
  with assms show ?thesis by (simp add: poll_for_tasks_with_status_def)
next
  case (Some req)
  obtain names hot where req: "req = (names, hot)" by (cases req)
  have "w_current_load (pe_during pe w) \<le> w_current_load w"
    using assms(1) by (simp add: quiet_env_def takes_no_work_def)
  moreover have "w_current_load w < cfg_max_concurrent_tasks (w_config w)"
    using poll_request_Some(1) Some req by blast
  ultimately show ?thesis using Some req
    by (auto simp: poll_for_tasks_with_status_def poll_answered_def split: poll_answer.splits)
qed

text \<open>What one poll keeps, the three modes and the whole loop keep.\<close>

locale poll_invariant =
  fixes keeps :: "worker \<Rightarrow> bool" and env_ok :: "poll_env \<Rightarrow> bool"
  assumes poll_keeps: "env_ok pe \<Longrightarrow> keeps w \<Longrightarrow> keeps (po_worker (poll_for_tasks_with_status pe c w))"
    and clients_keeps: "keeps w \<Longrightarrow> keeps (w\<lparr>w_clients := cs\<rparr>)"
begin

lemma waterfall_keeps: "(\<And>c. env_ok (env c)) \<Longrightarrow> keeps w \<Longrightarrow> keeps (po_worker (waterfall env cs w))"
  by (induction env cs w rule: waterfall.induct) (auto simp: no_task_def Let_def poll_keeps)

lemma failover_keeps: "(\<And>c. env_ok (env c)) \<Longrightarrow> keeps w \<Longrightarrow> keeps (po_worker (failover env cs w))"
  by (induction env cs w rule: failover.induct) (auto simp: no_task_def Let_def poll_keeps)

lemma cycle_keeps: "(\<And>c. env_ok (env c)) \<Longrightarrow> keeps w \<Longrightarrow> keeps (po_worker (poll_cycle env w))"
  by (auto simp: poll_cycle_def round_robin_def no_task_def waterfall_keeps failover_keeps poll_keeps
      clients_keeps split: sum.splits option.splits)

lemma loop_keeps:
  assumes "\<forall>it \<in> set its. (\<forall>c. env_ok (it_env it c)) \<and> (\<forall>w. keeps w \<longrightarrow> keeps (it_sleeping it w))"
    and "keeps w"
  shows "keeps (fst (start_polling rx its w))"
  using assms
  by (induction rx its w rule: start_polling.induct) (auto simp: Let_def cycle_keeps split: option.splits)

end

definition load_within :: "int \<Rightarrow> worker \<Rightarrow> bool" where
  "load_within n w = (w_current_load w \<le> n \<and> cfg_max_concurrent_tasks (w_config w) = n)"

interpretation global_limit: poll_invariant "load_within n" quiet_env for n
  by unfold_locales (auto simp: load_within_def poll_load_bound poll_frame)

text \<open>
  An orchestrator keeps the contract when it hands out tasks of the offered skills only.
\<close>

definition honours_offer :: "poll_env \<Rightarrow> bool" where
  "honours_offer pe = (\<forall>names hot t. pe_respond pe names hot = PollTask t \<longrightarrow> tp_type t \<in> set names)"

definition type_within :: "string \<Rightarrow> int \<Rightarrow> worker \<Rightarrow> bool" where
  "type_within ty n w = (worker_wf w \<and> dget (w_type_limits w) ty = Some n \<and>
     dget_or (w_load_by_type w) ty 0 \<le> n)"

lemma offered_within_limit:
  assumes "worker_wf w" and "name \<in> set (map si_name (t_available (get_current_state w)))"
    and "type_for_limit name w = Some ty" and "dget (w_type_limits w) ty = Some n"
  shows "dget_or (w_load_by_type w) ty 0 < n"
proof -
  from assms(2) obtain m h where h: "(m, h) \<in> set (w_handlers w)" "is_available w h"
    "si_name (h_info h) = name" by (auto simp: available_iff)
  have "m = name" using h assms(1) by (auto simp: worker_wf_def list_all_iff)
  then have "dget (w_handlers w) name = Some h"
    using h assms(1) by (simp add: worker_wf_def dict_wf_def dkeys_def dget_def)
  with assms(3) have "h_type h = ty" "ty \<noteq> []" by (auto simp: type_for_limit_def split: if_splits)
  with h(2) assms(4) show ?thesis
    by (simp add: is_available_def within_type_limit_def dhas_iff dget_or_def)
qed

lemma quiet_wf: "takes_no_work d \<Longrightarrow> worker_wf w \<Longrightarrow> worker_wf (d w)"
  using worker_wf_cong [of "d w" w] by (simp add: takes_no_work_def)

lemma accept_task_keys [simp]:
  "dkeys (w_load_by_type (po_worker (accept_task c h t w))) = dkeys (w_load_by_type w)"
  by (auto simp: accept_task_def Let_def bump_type_load_def dict.keys_put_old dict.keys_get
      split: option.splits)

lemma poll_wf:
  assumes "quiet_env pe" and "worker_wf w"
  shows "worker_wf (po_worker (poll_for_tasks_with_status pe c w))"
proof (rule worker_wf_cong [THEN iffD2, OF _ _ assms(2)])
  show "w_handlers (po_worker (poll_for_tasks_with_status pe c w)) = w_handlers w"
    using assms(1) by (rule poll_frame)
  show "dkeys (w_load_by_type (po_worker (poll_for_tasks_with_status pe c w))) = dkeys (w_load_by_type w)"
    using assms(1)
    by (auto simp: poll_for_tasks_with_status_def poll_answered_def quiet_env_def takes_no_work_def
        split: option.splits poll_answer.splits)
qed

lemma poll_type_within:
  assumes "quiet_env pe \<and> honours_offer pe" and "type_within ty n w"
  shows "type_within ty n (po_worker (poll_for_tasks_with_status pe c w))"
proof (cases "poll_request c (pe_now pe) w")
  case None
  with assms(2) show ?thesis by (simp add: poll_for_tasks_with_status_def)
next
  case (Some req)
  obtain names hot where req: "req = (names, hot)" by (cases req)
  let ?w = "pe_during pe w"
  have quiet: "dget_or (w_load_by_type ?w) ty 0 \<le> dget_or (w_load_by_type w) ty 0"
    "w_handlers ?w = w_handlers w"
    using assms(1) by (auto simp: quiet_env_def takes_no_work_def)
  have "dget_or (w_load_by_type (po_worker (poll_for_tasks_with_status pe c w))) ty 0 \<le> n"
  proof (cases "pe_respond pe names hot")
    case (PollTask t)
    have "tp_type t \<in> set (map si_name (t_available (get_current_state w)))"
      using assms(1) PollTask poll_request_Some(2) Some req by (auto simp: honours_offer_def)
    then have lt: "dget_or (w_load_by_type w) ty 0 < n" if "type_for_limit (tp_type t) w = Some ty"
      using that assms(2) offered_within_limit [of w "tp_type t" ty n] by (simp add: type_within_def)
    have "type_for_limit (tp_type t) (clear_poll_backoff c ?w) = type_for_limit (tp_type t) w"
      using quiet by (simp add: type_for_limit_def)
    then have "dget_or (w_load_by_type (po_worker (poll_for_tasks_with_status pe c w))) ty 0 \<le>
        dget_or (w_load_by_type w) ty 0 + (if type_for_limit (tp_type t) w = Some ty then 1 else 0)"
      using accept_task_loads [of c "pe_handle pe" t "clear_poll_backoff c ?w" ty] quiet(1) Some req PollTask
      by (simp add: poll_for_tasks_with_status_def poll_answered_def)
    with lt assms(2) show ?thesis by (auto simp: type_within_def split: if_splits)
  qed (use quiet assms(2) Some req in \<open>auto simp: poll_for_tasks_with_status_def poll_answered_def type_within_def\<close>)
  with assms show ?thesis
    by (auto simp: type_within_def poll_wf poll_frame)
qed

interpretation type_limit: poll_invariant "type_within ty n" "\<lambda>pe. quiet_env pe \<and> honours_offer pe" for ty n
proof unfold_locales
  fix w cs assume "type_within ty n w"
  then show "type_within ty n (w\<lparr>w_clients := cs\<rparr>)"
    using worker_wf_cong [of "w\<lparr>w_clients := cs\<rparr>" w] by (simp add: type_within_def)
qed (rule poll_type_within)

lemma type_within_sleep: "takes_no_work d \<Longrightarrow> type_within ty n w \<Longrightarrow> type_within ty n (d w)"
  using quiet_wf [of d w] by (fastforce simp: type_within_def takes_no_work_def intro: order_trans)

lemma load_within_sleep: "takes_no_work d \<Longrightarrow> load_within n w \<Longrightarrow> load_within n (d w)"
  by (fastforce simp: load_within_def takes_no_work_def intro: order_trans)

lemma poll_contacted:
  "po_contacted (poll_for_tasks_with_status pe c w) = [] \<and> \<not> po_found (poll_for_tasks_with_status pe c w)
   \<or> po_contacted (poll_for_tasks_with_status pe c w) = [c]"
  by (auto simp: poll_for_tasks_with_status_def poll_answered_def accept_task_def Let_def
      split: option.splits poll_answer.splits sum.splits)

section \<open>Fixtures\<close>

definition sample_task :: "string \<Rightarrow> task_payload" where
  "sample_task i = \<lparr>tp_job_id = ''job'', tp_task_id = i, tp_type = ''echo'', tp_params = [],
     tp_tracing_context = None, tp_priority = PNone, tp_deadline = PNone, tp_security = PNone,
     tp_metadata = PNone, tp_sig = None, tp_orchestrator_signature = None, tp_policy = None,
     tp_step = 0, tp_depth = 0, tp_parent_hash = None, tp_origin_worker_id = None\<rparr>"

text \<open>Every orchestrator always has a task of the first skill offered.\<close>

definition sample_env :: "client \<Rightarrow> poll_env" where
  "sample_env c = \<lparr>pe_now = 100,
     pe_respond = (\<lambda>names hot. if ''echo'' \<in> set names then PollTask (sample_task (if c = 1 then ''t1'' else ''t2''))
        else PollNothing),
     pe_during = (\<lambda>w. w), pe_later = 100, pe_handle = c, pe_date_of = (\<lambda>v. None)\<rparr>"

definition sample_iteration :: iteration where
  "sample_iteration = \<lparr>it_env = sample_env, it_sleeping = (\<lambda>w. w)\<rparr>"

lemma sample_iteration_quiet: "quiet_iteration sample_iteration" "honours_offer (it_env sample_iteration c)"
  by (simp_all add: quiet_iteration_def quiet_env_def sample_iteration_def sample_env_def takes_no_work_id
      honours_offer_def sample_task_def)

lemmas sample_polls =
  poll_for_tasks_with_status_def poll_request_def poll_answered_def accept_task_def clear_poll_backoff_def
  type_for_limit_def bump_type_load_def schedule_heartbeat_debounce_def no_task_def
  sample_env_def sample_worker_def sample_task_def get_current_state_def
  sample_config_def is_available_def within_type_limit_def has_capacity_def is_hot_def zero_pyfloat_def
  dget_or_def Let_def

section \<open>Properties\<close>

text \<open>
  C6: In every mode and over any number of iterations the polling loop never takes on more tasks
  than \<open>MAX_CONCURRENT_TASKS\<close>, whatever the orchestrators answer, provided the coroutines that
  run meanwhile take on no work themselves.
\<close>

theorem polling_respects_global_limit:
  assumes "\<forall>it \<in> set its. quiet_iteration it"
    and "w_current_load w \<le> cfg_max_concurrent_tasks (w_config w)"
  shows "w_current_load (fst (start_polling rx its w)) \<le> cfg_max_concurrent_tasks (w_config w)"
proof -
  let ?n = "cfg_max_concurrent_tasks (w_config w)"
  have "load_within ?n (fst (start_polling rx its w))"
  proof (rule global_limit.loop_keeps)
    show "\<forall>it \<in> set its. (\<forall>c. quiet_env (it_env it c)) \<and>
        (\<forall>w. load_within ?n w \<longrightarrow> load_within ?n (it_sleeping it w))"
      using assms(1) load_within_sleep by (auto simp: quiet_iteration_def)
    show "load_within ?n w" using assms(2) by (simp add: load_within_def)
  qed
  then show ?thesis by (simp add: load_within_def)
qed

theorem polling_respects_global_limit_witness:
  "w_current_load (fst (start_polling sample_rxon [sample_iteration, sample_iteration] sample_worker)) \<le> 2"
proof -
  have "cfg_max_concurrent_tasks (w_config sample_worker) = 2" "w_current_load sample_worker = 0"
    by (simp_all add: sample_worker_def sample_config_def)
  then show ?thesis
    using polling_respects_global_limit [of "[sample_iteration, sample_iteration]" sample_worker sample_rxon]
    by (simp add: sample_iteration_quiet del: start_polling.simps)
qed

text \<open>
  C7: A per-type limit holds throughout the polling loop as well, if the orchestrators hand out
  only tasks of the skills offered to them; nothing in the worker re-checks the answer, so this
  contract is needed.
\<close>

theorem polling_respects_type_limits:
  assumes "\<forall>it \<in> set its. quiet_iteration it \<and> (\<forall>c. honours_offer (it_env it c))"
    and "worker_wf w" and "dget (w_type_limits w) ty = Some n" and "dget_or (w_load_by_type w) ty 0 \<le> n"
  shows "dget_or (w_load_by_type (fst (start_polling rx its w))) ty 0 \<le> n"
proof -
  have "type_within ty n (fst (start_polling rx its w))"
  proof (rule type_limit.loop_keeps)
    show "\<forall>it \<in> set its. (\<forall>c. quiet_env (it_env it c) \<and> honours_offer (it_env it c)) \<and>
        (\<forall>w. type_within ty n w \<longrightarrow> type_within ty n (it_sleeping it w))"
      using assms(1) type_within_sleep by (auto simp: quiet_iteration_def)
    show "type_within ty n w" using assms(2-4) by (simp add: type_within_def)
  qed
  then show ?thesis by (simp add: type_within_def)
qed

theorem polling_respects_type_limits_witness:
  "dget_or (w_load_by_type (fst (start_polling sample_rxon [sample_iteration]
      (sample_worker\<lparr>w_type_limits := [(''echo'', 1)]\<rparr>)))) ''echo'' 0 \<le> 1"
proof (rule polling_respects_type_limits)
  show "\<forall>it \<in> set [sample_iteration]. quiet_iteration it \<and> (\<forall>c. honours_offer (it_env it c))"
    by (simp add: sample_iteration_quiet)
  show "worker_wf (sample_worker\<lparr>w_type_limits := [(''echo'', 1)]\<rparr>)"
    using sample_worker_wf worker_wf_cong [of "sample_worker\<lparr>w_type_limits := [(''echo'', 1)]\<rparr>" sample_worker]
    by simp
qed (simp_all add: sample_worker_def dget_or_def)

text \<open>
  C28: A rate limit or a network error on a poll postpones the next poll of that orchestrator by
  the chosen delay, which is the server's positive \<open>Retry-After\<close> if there is one and is positive in
  any case; until then no request is sent to it, no other orchestrator's schedule changes and no
  task is counted.
\<close>

theorem poll_error_backoff:
  assumes "poll_request c (pe_now pe) w = Some (names, hot)"
    and "pe_respond pe names hot = PollRaise e" and "is_rate_limit e \<or> is_network_error e"
    and "quiet_env pe"
    and "0 < cfg_poll_backoff_initial (w_config w)" and "0 < cfg_poll_backoff_max (w_config w)"
    and "is_number (dget_or (w_poll_backoffs (pe_during pe w)) c 0 * default_factor)"
  shows "let p = poll_for_tasks_with_status pe c w; w1 = po_worker p;
             d = poll_delay (pe_date_of pe) (pe_later pe) c e (pe_during pe w) in
    0 < d \<and> \<not> po_found p \<and> po_raised p = None \<and> w_current_load w1 = w_current_load (pe_during pe w) \<and>
    dget (w_next_poll_time w1) c = Some (Fin (pe_later pe) + d) \<and> dget (w_poll_backoffs w1) c = Some d \<and>
    (retry_after_of e = PFloat (Fin a) \<and> 0 < a \<longrightarrow> is_rate_limit e \<longrightarrow> d = Fin a) \<and>
    (Fin t < Fin (pe_later pe) + d \<longrightarrow> poll_request c t w1 = None) \<and>
    (c' \<noteq> c \<longrightarrow> dget (w_next_poll_time w1) c' = dget (w_next_poll_time (pe_during pe w)) c')"
proof -
  let ?w = "pe_during pe w" and ?d = "poll_delay (pe_date_of pe) (pe_later pe) c e (pe_during pe w)"
  have p: "poll_for_tasks_with_status pe c w =
      \<lparr>po_worker = poll_failed (pe_date_of pe) (pe_later pe) c e ?w, po_found = False,
        po_contacted = [c], po_raised = None\<rparr>"
    using assms(1-3) by (simp add: poll_for_tasks_with_status_def poll_answered_def)
  have "w_config ?w = w_config w" using assms(4) by (simp add: quiet_env_def takes_no_work_def)
  then have "0 < ?d"
    using assms(5-7) by (auto simp: poll_delay_def Let_def intro!: calculate_backoff_pos)
  moreover have "?d = Fin a" if "retry_after_of e = PFloat (Fin a)" "0 < a"
    using that by (simp add: poll_delay_def zero_pyfloat_def)
  ultimately show ?thesis
    by (simp add: p poll_failed_def Let_def poll_request_def dict_simps)
qed

theorem poll_error_backoff_witness:
  "let p = poll_for_tasks_with_status
       ((sample_env 1)\<lparr>pe_respond := (\<lambda>n h. PollRaise (RxonRateLimitError ''429'' (PFloat (Fin 300))))\<rparr>)
       1 sample_worker in
   dget (w_next_poll_time (po_worker p)) 1 = Some (Fin 400) \<and> poll_request 1 399 (po_worker p) = None"
proof -
  let ?pe = "(sample_env 1)\<lparr>pe_respond := (\<lambda>n h. PollRaise (RxonRateLimitError ''429'' (PFloat (Fin 300))))\<rparr>"
  have req: "poll_request 1 (pe_now ?pe) sample_worker = Some ([''echo''], [])"
    by (simp add: poll_request_def sample_env_def sample_worker_def get_current_state_def sample_config_def
        is_available_def within_type_limit_def has_capacity_def is_hot_def zero_pyfloat_def dget_or_def)
  have q: "quiet_env ?pe" by (simp add: quiet_env_def sample_env_def takes_no_work_id)
  have n: "is_number (dget_or (w_poll_backoffs (pe_during ?pe sample_worker)) 1 0 * default_factor)"
    "0 < cfg_poll_backoff_initial (w_config sample_worker)" "0 < cfg_poll_backoff_max (w_config sample_worker)"
    by (simp_all add: sample_worker_def sample_config_def sample_env_def default_factor_def zero_pyfloat_def
        is_number_def dget_or_def)
  show ?thesis
    using poll_error_backoff [OF req _ _ q n(2,3,1), of "RxonRateLimitError ''429'' (PFloat (Fin 300))" 300 399]
    by (simp add: Let_def sample_env_def)
qed

text \<open>
  The configured \<open>POLL_BACKOFF_FACTOR\<close> has no influence on the delay after a failed poll: the
  growth factor is the literal default 2 of \<open>_calculate_backoff\<close>, although README and the
  development guide document the variable as the multiplier.
\<close>

theorem poll_backoff_factor_ignored:
  "poll_delay date_of now c e (w\<lparr>w_config := (w_config w)\<lparr>cfg_poll_backoff_factor := x\<rparr>\<rparr>) =
   poll_delay date_of now c e w"
  by (simp add: poll_delay_def Let_def)

text \<open>
  Orchestrators that are tried in turn and give no task: a backoff is running or the worker offers
  nothing, or the answer to the request is not a task and no exception ends the poll. The list
  of those asked, and the worker afterwards.
\<close>

inductive without_task :: "cycle_env \<Rightarrow> client list \<Rightarrow> worker \<Rightarrow> client list \<Rightarrow> worker \<Rightarrow> bool" for env where
  none_tried: "without_task env [] w [] w"
| not_asked: "without_task env (c # cs) w asked w'"
    if "poll_request c (pe_now (env c)) w = None" and "without_task env cs w asked w'"
| no_task_there: "without_task env (c # cs) w (c # asked) w'"
    if "poll_request c (pe_now (env c)) w = Some (names, hot)" and "\<forall>t. pe_respond (env c) names hot \<noteq> PollTask t"
      and "po_raised (poll_for_tasks_with_status (env c) c w) = None"
      and "without_task env cs (po_worker (poll_for_tasks_with_status (env c) c w)) asked w'"

text \<open>A poll that finds a task asked for it, got it and accepted it.\<close>

lemma found_task:
  assumes "po_found (poll_for_tasks_with_status pe c w)"
  obtains names hot t where "poll_request c (pe_now pe) w = Some (names, hot)" and "pe_respond pe names hot = PollTask t"
    and "poll_for_tasks_with_status pe c w = accept_task c (pe_handle pe) t (clear_poll_backoff c (pe_during pe w))"
    and "po_contacted (poll_for_tasks_with_status pe c w) = [c]"
proof -
  from assms obtain names hot where req: "poll_request c (pe_now pe) w = Some (names, hot)"
    by (auto simp: poll_for_tasks_with_status_def split: option.splits)
  with assms obtain t where "pe_respond pe names hot = PollTask t"
    by (cases "pe_respond pe names hot") (auto simp: poll_for_tasks_with_status_def poll_answered_def split: if_splits)
  with req poll_contacted [of pe c w] assms that show thesis
    by (auto simp: poll_for_tasks_with_status_def poll_answered_def)
qed

lemma no_task_step:
  assumes "\<not> po_found (poll_for_tasks_with_status (env c) c w)" and "po_raised (poll_for_tasks_with_status (env c) c w) = None"
    and "without_task env cs (po_worker (poll_for_tasks_with_status (env c) c w)) asked w'"
  shows "without_task env (c # cs) w (po_contacted (poll_for_tasks_with_status (env c) c w) @ asked) w'"
proof (cases "poll_request c (pe_now (env c)) w")
  case None
  with assms(3) show ?thesis by (simp add: poll_for_tasks_with_status_def not_asked)
next
  case (Some req)
  obtain names hot where req: "req = (names, hot)" by (cases req)
  let ?p = "poll_for_tasks_with_status (env c) c w"
  have "po_contacted ?p = [c]"
    using Some req by (auto simp: poll_for_tasks_with_status_def poll_answered_def accept_task_def Let_def
        split: poll_answer.splits sum.splits)
  moreover have "pe_respond (env c) names hot \<noteq> PollTask t" for t
    using assms(1,2) Some req by (auto simp: poll_for_tasks_with_status_def poll_answered_def accept_task_def Let_def
        split: sum.splits)
  ultimately show ?thesis using Some req assms(2,3) no_task_there by simp
qed

lemma waterfall_cases:
  obtains (busy) "t_status (get_current_state w) = Busy" "waterfall env (c # cs) w = no_task w"
  | (found) "po_found (poll_for_tasks_with_status (env c) c w)"
      "waterfall env (c # cs) w = poll_for_tasks_with_status (env c) c w"
  | (raised) "\<not> po_found (poll_for_tasks_with_status (env c) c w)" "po_raised (waterfall env (c # cs) w) \<noteq> None"
      "\<not> po_found (waterfall env (c # cs) w)"
  | (on) "\<not> po_found (poll_for_tasks_with_status (env c) c w)" "po_raised (poll_for_tasks_with_status (env c) c w) = None"
      "t_status (get_current_state w) \<noteq> Busy"
      "waterfall env (c # cs) w = (waterfall env cs (po_worker (poll_for_tasks_with_status (env c) c w)))\<lparr>po_contacted :=
         po_contacted (poll_for_tasks_with_status (env c) c w) @
         po_contacted (waterfall env cs (po_worker (poll_for_tasks_with_status (env c) c w)))\<rparr>"
proof -
  let ?p = "poll_for_tasks_with_status (env c) c w"
  consider "t_status (get_current_state w) = Busy" | "t_status (get_current_state w) \<noteq> Busy" "po_found ?p"
    | "t_status (get_current_state w) \<noteq> Busy" "\<not> po_found ?p" "po_raised ?p \<noteq> None"
    | "t_status (get_current_state w) \<noteq> Busy" "\<not> po_found ?p" "po_raised ?p = None" by blast
  then show thesis
  proof cases
    case 1
    then show thesis by (intro busy) simp_all
  next
    case 2
    then show thesis by (intro found) (simp_all add: Let_def)
  next
    case 3
    then show thesis by (intro raised) (simp_all add: Let_def)
  next
    case 4
    then show thesis by (intro on) (simp_all add: Let_def)
  qed
qed

lemma waterfall_found:
  "po_found (waterfall env cs w) \<Longrightarrow>
     \<exists>before c after asked w1. cs = before @ c # after \<and> without_task env before w asked w1 \<and>
       po_found (poll_for_tasks_with_status (env c) c w1) \<and>
       po_worker (waterfall env cs w) = po_worker (poll_for_tasks_with_status (env c) c w1) \<and>
       po_contacted (waterfall env cs w) = asked @ [c]"
proof (induction cs arbitrary: w)
  case (Cons c cs)
  let ?p = "poll_for_tasks_with_status (env c) c w"
  show ?case
  proof (cases rule: waterfall_cases [of w env c cs])
    case found
    have "c # cs = [] @ c # cs" by simp
    moreover have "po_contacted ?p = [] @ [c]" using found_task [OF found(1)] by (metis append_Nil)
    ultimately show ?thesis unfolding found(2) using none_tried [of env w] found(1) by metis
  next
    case on
    then have "po_found (waterfall env cs (po_worker ?p))" using Cons.prems by simp
    from Cons.IH [OF this] obtain before d after asked w1 where d: "cs = before @ d # after"
      "without_task env before (po_worker ?p) asked w1" "po_found (poll_for_tasks_with_status (env d) d w1)"
      "po_worker (waterfall env cs (po_worker ?p)) = po_worker (poll_for_tasks_with_status (env d) d w1)"
      "po_contacted (waterfall env cs (po_worker ?p)) = asked @ [d]" by blast
    have "c # cs = (c # before) @ d # after" using d(1) by simp
    moreover have "po_contacted (waterfall env (c # cs) w) = (po_contacted ?p @ asked) @ [d]"
      "po_worker (waterfall env (c # cs) w) = po_worker (poll_for_tasks_with_status (env d) d w1)"
      unfolding on(4) by (simp_all add: d(4,5))
    ultimately show ?thesis using d(3) no_task_step [OF on(1,2) d(2)] by blast
  qed (use Cons.prems in \<open>simp_all add: no_task_def\<close>)
qed (simp add: no_task_def)

lemma waterfall_nothing:
  "\<not> po_found (waterfall env cs w) \<Longrightarrow> po_raised (waterfall env cs w) = None \<Longrightarrow>
     \<exists>before after. cs = before @ after \<and>
       without_task env before w (po_contacted (waterfall env cs w)) (po_worker (waterfall env cs w)) \<and>
       (after = [] \<or> t_status (get_current_state (po_worker (waterfall env cs w))) = Busy)"
proof (induction cs arbitrary: w)
  case Nil
  then show ?case by (simp add: no_task_def none_tried)
next
  case (Cons c cs)
  let ?p = "poll_for_tasks_with_status (env c) c w"
  show ?case
  proof (cases rule: waterfall_cases [of w env c cs])
    case busy
    have "c # cs = [] @ c # cs" by simp
    moreover have "without_task env [] w (po_contacted (no_task w)) (po_worker (no_task w))"
      by (simp add: no_task_def none_tried)
    moreover have "t_status (get_current_state (po_worker (no_task w))) = Busy" using busy(1) by (simp add: no_task_def)
    ultimately show ?thesis unfolding busy(2) by blast
  next
    case on
    let ?r = "waterfall env cs (po_worker ?p)"
    have "\<not> po_found ?r" "po_raised ?r = None" using Cons.prems unfolding on(4) by simp_all
    from Cons.IH [OF this] obtain before after where b: "cs = before @ after"
      "without_task env before (po_worker ?p) (po_contacted ?r) (po_worker ?r)"
      "after = [] \<or> t_status (get_current_state (po_worker ?r)) = Busy" by blast
    have "c # cs = (c # before) @ after" using b(1) by simp
    moreover have "po_worker (waterfall env (c # cs) w) = po_worker ?r"
      "po_contacted (waterfall env (c # cs) w) = po_contacted ?p @ po_contacted ?r" unfolding on(4) by simp_all
    ultimately show ?thesis using b(3) no_task_step [OF on(1,2) b(2)] by metis
  qed (use Cons.prems in simp_all)
qed

text \<open>
  C29: WATERFALL respects the configured priority order and takes one task. If a cycle finds a task,
  it is the answer of an orchestrator all of whose predecessors were tried in order without giving
  one; exactly this task is accepted, and no later orchestrator is contacted. If it finds none and
  nothing is raised, all were tried in order, or the worker is busy.
\<close>

theorem waterfall_priority:
  "let r = waterfall env cs w in
     if po_found r
     then \<exists>before c after asked w1 names hot t. cs = before @ c # after \<and> without_task env before w asked w1 \<and>
       poll_request c (pe_now (env c)) w1 = Some (names, hot) \<and> pe_respond (env c) names hot = PollTask t \<and>
       po_worker r = po_worker (accept_task c (pe_handle (env c)) t (clear_poll_backoff c (pe_during (env c) w1))) \<and>
       po_contacted r = asked @ [c]
     else if po_raised r = None
     then \<exists>before after. cs = before @ after \<and> without_task env before w (po_contacted r) (po_worker r) \<and>
       (after = [] \<or> t_status (get_current_state (po_worker r)) = Busy)
     else True"
proof (cases "po_found (waterfall env cs w)")
  case True
  from waterfall_found [OF this] obtain before c after asked w1 where c: "cs = before @ c # after"
    "without_task env before w asked w1" "po_found (poll_for_tasks_with_status (env c) c w1)"
    "po_worker (waterfall env cs w) = po_worker (poll_for_tasks_with_status (env c) c w1)"
    "po_contacted (waterfall env cs w) = asked @ [c]" by blast
  obtain names hot t where t: "poll_request c (pe_now (env c)) w1 = Some (names, hot)" "pe_respond (env c) names hot = PollTask t"
    "poll_for_tasks_with_status (env c) c w1 = accept_task c (pe_handle (env c)) t (clear_poll_backoff c (pe_during (env c) w1))"
    by (rule found_task [OF c(3)])
  show ?thesis unfolding Let_def if_P [OF True] using c(1,2,4,5) t by metis
next
  case False
  then show ?thesis using waterfall_nothing [OF False] by (simp only: Let_def if_False split: if_split) blast
qed

text \<open>
  FAILOVER does not stop at the first task: with a free slot left, a worker that has just
  received a task from the first orchestrator goes on to poll the second in the same cycle and
  takes another, although the guide says the next one is polled only if the previous was empty.
\<close>

theorem failover_polls_past_a_task:
  "let p = failover (\<lambda>c. sample_env c) [1, 2] sample_worker in
     po_contacted p = [1, 2] \<and> po_found p \<and> w_current_load (po_worker p) = 2"
  by (simp add: sample_polls Let_def)

end
