(* ===== verification/File_System.thy ===== *)
theory File_System
  imports Py_Value
begin

text \<open>
  The operating system's files, as far as the worker uses them: a tree of files, directories and
  symbolic links addressed by resolved absolute paths. Links are followed at the last component
  only. Every call that the code makes through \<open>os\<close>, \<open>shutil\<close> or \<open>aiofiles\<close> is one function; a
  failing call is an \<open>OSError\<close>.
\<close>

section \<open>Files\<close>

type_synonym path = "string list"

datatype node = File string | Dir | Link string

type_synonym fs = "(path, node) dict"

definition fs_at :: "fs \<Rightarrow> path \<Rightarrow> node option" where
  "fs_at fs p = (if p = [] then Some Dir else dget fs p)"

text \<open>Link resolution; \<open>None\<close> after too many links.\<close>

fun deref :: "nat \<Rightarrow> fs \<Rightarrow> path \<Rightarrow> path option" where
  "deref 0 fs p = None"
| "deref (Suc n) fs p =
     (case fs_at fs p of
        Some (Link target) \<Rightarrow> deref n fs (resolve (butlast p) target)
      | _ \<Rightarrow> Some p)"

definition max_links :: nat where "max_links = 40"

definition fs_exists :: "fs \<Rightarrow> path \<Rightarrow> bool" where
  "fs_exists fs p = (case deref max_links fs p of None \<Rightarrow> False | Some q \<Rightarrow> fs_at fs q \<noteq> None)"

definition read_file :: "fs \<Rightarrow> path \<Rightarrow> string result" where
  "read_file fs p =
     (case deref max_links fs p of
        None \<Rightarrow> Inl (OSError ''Too many levels of symbolic links'')
      | Some q \<Rightarrow>
          (case fs_at fs q of
             Some (File c) \<Rightarrow> Inr c
           | Some _ \<Rightarrow> Inl (OSError ''Is a directory'')
           | None \<Rightarrow> Inl (OSError ''No such file or directory'')))"

text \<open>
  \<open>open(p, mode)\<close> for writing followed by the write: \<open>update\<close> gives the new contents from the old.
\<close>

definition write_with :: "(string \<Rightarrow> string) \<Rightarrow> path \<Rightarrow> fs \<Rightarrow> fs result" where
  "write_with update p fs =
     (case deref max_links fs p of
        None \<Rightarrow> Inl (OSError ''Too many levels of symbolic links'')
      | Some q \<Rightarrow>
          (case fs_at fs q of
             Some Dir \<Rightarrow> Inl (OSError ''Is a directory'')
           | Some (File c) \<Rightarrow> Inr (dset q (File (update c)) fs)
           | _ \<Rightarrow> if fs_at fs (butlast q) = Some Dir then Inr (dset q (File (update [])) fs)
                  else Inl (OSError ''No such file or directory'')))"

definition write_file :: "string \<Rightarrow> path \<Rightarrow> fs \<Rightarrow> fs result" where
  "write_file content = write_with (\<lambda>_. content)"

definition append_file :: "string \<Rightarrow> path \<Rightarrow> fs \<Rightarrow> fs result" where
  "append_file content = write_with (\<lambda>old. old @ content)"

definition get_size :: "fs \<Rightarrow> path \<Rightarrow> nat result" where
  "get_size fs p = and_then (read_file fs p) (\<lambda>c. Inr (length c))"

definition is_dir_at :: "fs \<Rightarrow> path \<Rightarrow> bool" where
  "is_dir_at fs p = (case deref max_links fs p of None \<Rightarrow> False | Some q \<Rightarrow> fs_at fs q = Some Dir)"

text \<open>\<open>makedirs(p, exist_ok=True)\<close>, from the root downwards.\<close>

fun make_dirs_below :: "path \<Rightarrow> path \<Rightarrow> fs \<Rightarrow> fs result" where
  "make_dirs_below done [] fs = Inr fs"
| "make_dirs_below done (c # cs) fs =
     (if is_dir_at fs (done @ [c]) then make_dirs_below (done @ [c]) cs fs
      else if fs_at fs (done @ [c]) = None
      then make_dirs_below (done @ [c]) cs (dset (done @ [c]) Dir fs)
      else Inl (OSError ''File exists''))"

definition make_dirs :: "path \<Rightarrow> fs \<Rightarrow> fs result" where
  "make_dirs p fs = make_dirs_below [] p fs"

definition unlink :: "path \<Rightarrow> fs \<Rightarrow> fs result" where
  "unlink p fs =
     (case fs_at fs p of
        None \<Rightarrow> Inl (OSError ''No such file or directory'')
      | Some Dir \<Rightarrow> Inl (OSError ''Is a directory'')
      | Some _ \<Rightarrow> Inr (dpop p fs))"

definition symlink :: "string \<Rightarrow> path \<Rightarrow> fs \<Rightarrow> fs result" where
  "symlink target p fs =
     (if fs_at fs p \<noteq> None then Inl (OSError ''File exists'')
      else if fs_at fs (butlast p) \<noteq> Some Dir then Inl (OSError ''No such file or directory'')
      else Inr (dset p (Link target) fs))"

definition below :: "path \<Rightarrow> path \<Rightarrow> bool" where
  "below p q = (take (length p) q = p)"

text \<open>\<open>rmtree(p, ignore_errors=True)\<close>: a directory with all it holds; nothing else is removed.\<close>

definition rmtree :: "path \<Rightarrow> fs \<Rightarrow> fs" where
  "rmtree p fs = (if fs_at fs p = Some Dir then filter (\<lambda>(q, n). \<not> below p q) fs else fs)"

definition list_dir :: "fs \<Rightarrow> path \<Rightarrow> string list result" where
  "list_dir fs p =
     (case deref max_links fs p of
        None \<Rightarrow> Inl (OSError ''Too many levels of symbolic links'')
      | Some q \<Rightarrow> if fs_at fs q = Some Dir
                  then Inr (map (last \<circ> fst) (filter (\<lambda>(r, n). r \<noteq> [] \<and> butlast r = q) fs))
                  else Inl (OSError ''Not a directory''))"

section \<open>Lemmas\<close>

lemma fs_at_dset: "p \<noteq> [] \<Longrightarrow> fs_at (dset p n fs) q = (if q = p then Some n else fs_at fs q)"
  by (simp add: fs_at_def dict_simps)

lemma fs_at_dpop: "p \<noteq> [] \<Longrightarrow> fs_at (dpop p fs) q = (if q = p then None else fs_at fs q)"
  by (simp add: fs_at_def dict_simps)

lemma max_links_Suc: obtains n where "max_links = Suc (Suc n)"
  by (rule that [of 38]) (simp add: max_links_def)

lemma deref_id:
  assumes "\<And>t. fs_at fs p \<noteq> Some (Link t)"
  shows "deref max_links fs p = Some p"
proof -
  obtain n where n: "max_links = Suc (Suc n)" by (rule max_links_Suc)
  show ?thesis
    unfolding n using assms by (cases "fs_at fs p") (auto split: node.splits)
qed

lemma deref_link:
  assumes "fs_at fs p = Some (Link t)" and "\<And>u. fs_at fs (resolve (butlast p) t) \<noteq> Some (Link u)"
  shows "deref max_links fs p = Some (resolve (butlast p) t)"
proof -
  obtain n where n: "max_links = Suc (Suc n)" by (rule max_links_Suc)
  show ?thesis
    unfolding n using assms by (cases "fs_at fs (resolve (butlast p) t)") (auto split: node.splits)
qed

lemma deref_not_link:
  "deref n fs p = Some q \<Longrightarrow> fs_at fs q \<noteq> Some (Link t)"
  by (induction n fs p rule: deref.induct) (auto split: option.splits node.splits)

lemma read_file_plain:
  "fs_at fs p = Some (File c) \<Longrightarrow> read_file fs p = Inr c"
  using deref_id [of fs p] by (simp add: read_file_def)

lemma read_file_link:
  assumes "fs_at fs p = Some (Link t)" and "fs_at fs (resolve (butlast p) t) = Some (File c)"
  shows "read_file fs p = Inr c"
  using deref_link [OF assms(1)] assms(2) by (simp add: read_file_def)

lemma exists_file: "fs_at fs p = Some (File c) \<Longrightarrow> fs_exists fs p"
  using deref_id [of fs p] by (simp add: fs_exists_def)

lemma exists_iff_plain:
  "(\<And>t. fs_at fs p \<noteq> Some (Link t)) \<Longrightarrow> fs_exists fs p \<longleftrightarrow> fs_at fs p \<noteq> None"
  using deref_id [of fs p] by (simp add: fs_exists_def)

lemma write_with_plain:
  assumes "write_with u p fs = Inr fs'" and "\<And>t. fs_at fs p \<noteq> Some (Link t)"
  shows "fs' = dset p (File (u (case fs_at fs p of Some (File c) \<Rightarrow> c | _ \<Rightarrow> []))) fs \<and> p \<noteq> []"
proof -
  have "p \<noteq> []"
    using assms deref_id [of fs p] by (auto simp: write_with_def fs_at_def)
  then show ?thesis
    using assms deref_id [OF assms(2)]
    by (auto simp: write_with_def split: option.splits node.splits if_splits)
qed

lemma write_file_plain:
  assumes "write_file c p fs = Inr fs'" and "\<And>t. fs_at fs p \<noteq> Some (Link t)"
  shows "fs_at fs' q = (if q = p then Some (File c) else fs_at fs q)"
  using write_with_plain [OF assms(1) [unfolded write_file_def] assms(2)] by (auto simp: fs_at_dset)

text \<open>Writing and reading back through the same name, links included.\<close>

lemma deref_dset_file:
  assumes "deref n fs p = Some q" and "q \<noteq> []"
  shows "deref n (dset q (File c) fs) p = Some q"
  using assms
proof (induction n fs p rule: deref.induct)
  case (2 n fs p)
  show ?case
  proof (cases "p = q")
    case True
    with 2 show ?thesis by (simp add: fs_at_dset)
  next
    case False
    with 2 show ?thesis by (auto simp: fs_at_dset split: option.splits node.splits)
  qed
qed simp

lemma write_with_target:
  assumes "write_with u p fs = Inr fs'"
  obtains q c where "deref max_links fs p = Some q" and "q \<noteq> []" and "fs' = dset q (File (u c)) fs"
    and "fs_at fs q = Some (File c) \<or> fs_at fs q = None \<and> c = []"
proof -
  from assms obtain q where q: "deref max_links fs p = Some q"
    by (auto simp: write_with_def split: option.splits)
  moreover have "q \<noteq> []"
    using assms q by (auto simp: write_with_def fs_at_def)
  moreover have "fs_at fs q \<noteq> Some (Link t)" for t
    using q by (rule deref_not_link)
  ultimately show thesis
    using assms that
    by (auto simp: write_with_def split: option.splits node.splits if_splits)
qed

lemma write_read:
  assumes "write_file c p fs = Inr fs'"
  shows "read_file fs' p = Inr c"
  using assms unfolding write_file_def
  by (rule write_with_target) (auto simp: read_file_def deref_dset_file fs_at_dset)

lemma make_dirs_below_frame:
  assumes "make_dirs_below done cs fs = Inr fs'" and "fs_at fs q \<noteq> None"
  shows "fs_at fs' q = fs_at fs q"
  using assms
proof (induction "done" cs fs rule: make_dirs_below.induct)
  case (2 d c cs fs)
  then show ?case by (auto simp: fs_at_dset split: if_splits)
qed simp

lemma make_dirs_frame:
  "make_dirs p fs = Inr fs' \<Longrightarrow> fs_at fs q \<noteq> None \<Longrightarrow> fs_at fs' q = fs_at fs q"
  unfolding make_dirs_def by (rule make_dirs_below_frame)

lemma make_dirs_below_new:
  assumes "make_dirs_below done cs fs = Inr fs'" and "fs_at fs q = None"
  shows "fs_at fs' q = None \<or> fs_at fs' q = Some Dir \<and> (\<exists>ys. ys \<noteq> [] \<and> q = done @ ys \<and> take (length ys) cs = ys)"
  using assms
proof (induction "done" cs fs rule: make_dirs_below.induct)
  case (2 d c cs fs)
  have dirs: "make_dirs_below e xs f = Inr f' \<Longrightarrow> fs_at f r = Some Dir \<Longrightarrow> fs_at f' r = Some Dir" for e xs f f' r
    using make_dirs_below_frame [of e xs f f' r] by simp
  show ?case
  proof (cases "is_dir_at fs (d @ [c])")
    case True
    with 2 show ?thesis by (fastforce intro: exI [of _ "c # ys" for ys])
  next
    case False
    with 2 show ?thesis
      by (fastforce simp: fs_at_dset dest: dirs intro: exI [of _ "[c]"] exI [of _ "c # ys" for ys] split: if_splits)
  qed
qed simp

lemma rmtree_at:
  assumes "fs_at fs p = Some Dir" and "q \<noteq> []"
  shows "fs_at (rmtree p fs) q = (if below p q then None else fs_at fs q)"
proof -
  have "map_of (filter (\<lambda>(r, n). \<not> below p r) fs) q = (if below p q then None else map_of fs q)"
    by (induction fs) auto
  with assms show ?thesis by (simp add: rmtree_def fs_at_def dget_def)
qed

end
