(* ===== verification/Blob_Store.thy ===== *)
theory Blob_Store
  imports File_System Messages
begin

text \<open>
  S3 payload offloading (\<open>s3.py\<close>). The object store itself (obstore, a service) and rxon's
  \<open>parse_uri\<close> are parameters collected in \<open>s3_env\<close>; the store's contents are the abstract state
  \<open>'s\<close>. Files live in the file system model. The semaphore only delays operations and is left out.
\<close>

section \<open>Parameters and state\<close>

record blob =
  b_size :: nat
  b_etag :: "string option"
  b_chunks :: "string list"
  b_failure :: "pyexn option" \<comment> \<open>raised by the stream after its chunks\<close>

record 's s3_env =
  se_available :: bool
  se_connect :: "string \<Rightarrow> (string, string) dict \<Rightarrow> pyexn option"
  se_put :: "string \<Rightarrow> string \<Rightarrow> string \<Rightarrow> 's \<Rightarrow> string option result \<times> 's"
  se_get :: "string \<Rightarrow> string \<Rightarrow> 's \<Rightarrow> blob result"
  se_delete :: "string \<Rightarrow> string \<Rightarrow> 's \<Rightarrow> unit result \<times> 's"
  se_list :: "string \<Rightarrow> string \<Rightarrow> 's \<Rightarrow> string list result"
  se_parse_uri :: "string \<Rightarrow> string option \<Rightarrow> (string \<times> string \<times> bool) result"

record 's world =
  wd_fs :: fs
  wd_cwd :: path
  wd_store :: 's
  wd_stores :: "string list" \<comment> \<open>buckets with a cached \<open>S3Store\<close>\<close>
  wd_active_ops :: int
  wd_metrics :: "(string \<times> string) list" \<comment> \<open>\<open>record_s3_op\<close> calls\<close>

type_synonym ('s, 'a) op = "'s world \<Rightarrow> 'a result \<times> 's world"

text \<open>Statement sequencing with the state threaded through and exceptions ending the block.\<close>

definition do_then :: "('w \<Rightarrow> 'a result \<times> 'w) \<Rightarrow> ('a \<Rightarrow> 'w \<Rightarrow> 'b result \<times> 'w) \<Rightarrow> 'w \<Rightarrow> 'b result \<times> 'w" where
  "do_then m f w = (case m w of (Inl e, w') \<Rightarrow> (Inl e, w') | (Inr x, w') \<Rightarrow> f x w')"

definition return_op :: "'a \<Rightarrow> 'w \<Rightarrow> 'a result \<times> 'w" where
  "return_op x w = (Inr x, w)"

definition of_result :: "'a result \<Rightarrow> 'w \<Rightarrow> 'a result \<times> 'w" where
  "of_result r w = (r, w)"

text \<open>A file system call on a path string, relative to the working directory.\<close>

definition fs_do :: "(path \<Rightarrow> fs \<Rightarrow> fs result) \<Rightarrow> string \<Rightarrow> ('s, unit) op" where
  "fs_do f p w =
     (case f (resolve (wd_cwd w) p) (wd_fs w) of
        Inl e \<Rightarrow> (Inl e, w)
      | Inr fs \<Rightarrow> (Inr (), w\<lparr>wd_fs := fs\<rparr>))"

definition exists_at :: "'s world \<Rightarrow> string \<Rightarrow> bool" where
  "exists_at w p = fs_exists (wd_fs w) (resolve (wd_cwd w) p)"

definition read_at :: "'s world \<Rightarrow> string \<Rightarrow> string result" where
  "read_at w p = read_file (wd_fs w) (resolve (wd_cwd w) p)"

definition record_s3_op :: "string \<Rightarrow> string \<Rightarrow> 's world \<Rightarrow> 's world" where
  "record_s3_op kind status w = w\<lparr>wd_metrics := wd_metrics w @ [(kind, status)]\<rparr>"

definition strip_char :: "char \<Rightarrow> string \<Rightarrow> string" where
  "strip_char c s = lstrip_char c (rstrip_char c s)"

abbreviation quote_char :: char where "quote_char \<equiv> CHR 0x22"

section \<open>\<open>S3BlobProvider\<close>\<close>

definition check_availability :: "'s s3_env \<Rightarrow> unit result" where
  "check_availability E =
     (if se_available E then Inr () else Inl (RuntimeError ''S3 support is not installed''))"

definition store_options :: "worker_config \<Rightarrow> (string, string) dict" where
  "store_options cfg =
     (let endpoint = (case cfg_s3_endpoint_url cfg of
            None \<Rightarrow> []
          | Some u \<Rightarrow> if u = [] then []
              else (''endpoint'', u) # (if starts_with u ''http://'' then [(''allow_http'', ''true'')] else []));
          key = (\<lambda>n v. case v of None \<Rightarrow> [] | Some x \<Rightarrow> [(n, x)])
      in key ''aws_access_key_id'' (cfg_s3_access_key cfg) @
         key ''aws_secret_access_key'' (cfg_s3_secret_key cfg) @
         [(''region'', cfg_s3_region cfg)] @ endpoint)"

definition get_store :: "'s s3_env \<Rightarrow> worker_config \<Rightarrow> string \<Rightarrow> ('s, unit) op" where
  "get_store E cfg bucket w =
     (case check_availability E of
        Inl e \<Rightarrow> (Inl e, w)
      | Inr _ \<Rightarrow>
          if bucket \<in> set (wd_stores w) then (Inr (), w)
          else (case se_connect E bucket (store_options cfg) of
                  Some e \<Rightarrow> (Inl e, w)
                | None \<Rightarrow> (Inr (), w\<lparr>wd_stores := wd_stores w @ [bucket]\<rparr>)))"

text \<open>The common head of the provider's operations: availability, bucket and key, store.\<close>

definition with_object :: "'s s3_env \<Rightarrow> worker_config \<Rightarrow> string
    \<Rightarrow> (string \<Rightarrow> string \<Rightarrow> ('s, 'a) op) \<Rightarrow> ('s, 'a) op" where
  "with_object E cfg uri f =
     do_then (of_result (check_availability E)) (\<lambda>_.
     do_then (of_result (se_parse_uri E uri (Some (cfg_s3_default_bucket cfg)))) (\<lambda>(bucket, key, is_dir).
     do_then (get_store E cfg bucket) (\<lambda>_. f bucket key)))"

definition provider_upload :: "'s s3_env \<Rightarrow> worker_config \<Rightarrow> string \<Rightarrow> string \<Rightarrow> ('s, string) op" where
  "provider_upload E cfg local_path uri =
     with_object E cfg uri (\<lambda>bucket key w.
       case read_at w local_path of
         Inl e \<Rightarrow> (Inl e, w)
       | Inr content \<Rightarrow>
           (case se_put E bucket key content (wd_store w) of
              (Inl e, st) \<Rightarrow> (Inl e, w\<lparr>wd_store := st\<rparr>)
            | (Inr tag, st) \<Rightarrow>
                (Inr (case tag of Some t \<Rightarrow> if t = [] then [] else strip_char quote_char t | None \<Rightarrow> []),
                 w\<lparr>wd_store := st\<rparr>)))"

text \<open>\<open>open(local_path, "wb")\<close> and one write per chunk; what was written stays when the stream fails.\<close>

definition save_stream :: "blob \<Rightarrow> string \<Rightarrow> ('s, unit) op" where
  "save_stream b local_path w =
     (case fs_do (write_file (concat (b_chunks b))) local_path w of
        (Inl e, w') \<Rightarrow> (Inl e, w')
      | (Inr _, w') \<Rightarrow> (case b_failure b of Some e \<Rightarrow> (Inl e, w') | None \<Rightarrow> (Inr (), w')))"

definition provider_download :: "'s s3_env \<Rightarrow> worker_config \<Rightarrow> string \<Rightarrow> string \<Rightarrow> ('s, unit) op" where
  "provider_download E cfg uri local_path =
     with_object E cfg uri (\<lambda>bucket key w.
       case se_get E bucket key (wd_store w) of
         Inl e \<Rightarrow> (Inl e, w)
       | Inr b \<Rightarrow> save_stream b local_path w)"

definition provider_get_metadata :: "'s s3_env \<Rightarrow> worker_config \<Rightarrow> string
    \<Rightarrow> ('s, (nat \<times> string option) option) op" where
  "provider_get_metadata E cfg uri =
     with_object E cfg uri (\<lambda>bucket key w.
       case se_get E bucket key (wd_store w) of
         Inl e \<Rightarrow> (if is_exception e then Inr None else Inl e, w)
       | Inr b \<Rightarrow> (Inr (Some (b_size b, case b_etag b of
            Some t \<Rightarrow> if t = [] then None else Some (strip_char quote_char t) | None \<Rightarrow> None)), w))"

definition store_do :: "('s \<Rightarrow> unit result \<times> 's) \<Rightarrow> ('s, unit) op" where
  "store_do f w = (case f (wd_store w) of (r, st) \<Rightarrow> (r, w\<lparr>wd_store := st\<rparr>))"

definition provider_delete :: "'s s3_env \<Rightarrow> worker_config \<Rightarrow> string \<Rightarrow> ('s, unit) op" where
  "provider_delete E cfg uri = with_object E cfg uri (\<lambda>bucket key. store_do (se_delete E bucket key))"

fun delete_objects :: "'s s3_env \<Rightarrow> string \<Rightarrow> string list \<Rightarrow> ('s, unit) op" where
  "delete_objects E bucket [] = return_op ()"
| "delete_objects E bucket (k # ks) =
     do_then (store_do (se_delete E bucket k)) (\<lambda>_. delete_objects E bucket ks)"

definition provider_delete_dir :: "'s s3_env \<Rightarrow> worker_config \<Rightarrow> string \<Rightarrow> ('s, unit) op" where
  "provider_delete_dir E cfg uri =
     with_object E cfg uri (\<lambda>bucket prefix w.
       let prefix = (if ends_with prefix ''/'' then prefix else prefix @ ''/'')
       in case se_list E bucket prefix (wd_store w) of
            Inl e \<Rightarrow> (Inl e, w)
          | Inr keys \<Rightarrow> delete_objects E bucket keys w)"

section \<open>\<open>S3Manager\<close>\<close>

definition task_dir :: "worker_config \<Rightarrow> string \<Rightarrow> string" where
  "task_dir cfg task_id = path_join (cfg_task_files_dir cfg) task_id"

definition cleanup :: "worker_config \<Rightarrow> string \<Rightarrow> 's world \<Rightarrow> 's world" where
  "cleanup cfg task_id w =
     (if exists_at w (task_dir cfg task_id)
      then w\<lparr>wd_fs := rmtree (resolve (wd_cwd w) (task_dir cfg task_id)) (wd_fs w)\<rparr> else w)"

text \<open>Replacing whatever is at \<open>local_path\<close> by a link to the cache file.\<close>

definition link_from_cache :: "string \<Rightarrow> string \<Rightarrow> ('s, unit) op" where
  "link_from_cache cache_file local_path =
     do_then (\<lambda>w. if exists_at w local_path then fs_do unlink local_path w else (Inr (), w)) (\<lambda>_.
       fs_do (symlink cache_file) local_path)"

definition download_file_cached :: "'s s3_env \<Rightarrow> worker_config \<Rightarrow> string \<Rightarrow> string \<Rightarrow> ('s, unit) op" where
  "download_file_cached E cfg uri local_path =
     do_then (provider_get_metadata E cfg uri) (\<lambda>meta.
       let etag = (case meta of Some (_, Some t) \<Rightarrow> t | _ \<Rightarrow> [])
       in if etag \<noteq> []
          then do_then (fs_do make_dirs (cfg_blob_cache_dir cfg)) (\<lambda>_ w.
            let cache_file = path_join (cfg_blob_cache_dir cfg) etag
            in if exists_at w cache_file
               then do_then (link_from_cache cache_file local_path) (\<lambda>_ w.
                      (Inr (), record_s3_op ''download_cache_hit'' ''success'' w)) w
               else do_then (provider_download E cfg uri cache_file) (\<lambda>_.
                    do_then (link_from_cache cache_file local_path) (\<lambda>_ w.
                      (Inr (), record_s3_op ''download'' ''success'' w))) w)
          else do_then (provider_download E cfg uri local_path) (\<lambda>_ w.
                 (Inr (), record_s3_op ''download'' ''success'' w)))"

text \<open>\<open>os.path.relpath\<close>.\<close>

fun common_prefix :: "path \<Rightarrow> path \<Rightarrow> nat" where
  "common_prefix (x # xs) (y # ys) = (if x = y then Suc (common_prefix xs ys) else 0)"
| "common_prefix _ _ = 0"

definition relpath :: "path \<Rightarrow> string \<Rightarrow> string \<Rightarrow> string result" where
  "relpath cwd p start =
     (if p = [] then Inl (ValueError ''no path specified'')
      else (let ps = resolve cwd p; ss = resolve cwd start; i = common_prefix ss ps;
                rel = replicate (length ss - i) ''..'' @ drop i ps
            in Inr (if rel = [] then ''.'' else join_with ''/'' rel)))"

fun download_objects :: "'s s3_env \<Rightarrow> worker_config \<Rightarrow> string \<Rightarrow> string \<Rightarrow> string \<Rightarrow> string list \<Rightarrow> ('s, unit) op" where
  "download_objects E cfg bucket prefix local_path [] = return_op ()"
| "download_objects E cfg bucket prefix local_path (k # ks) =
     (if ends_with k ''/'' then download_objects E cfg bucket prefix local_path ks
      else do_then (\<lambda>w. (relpath (wd_cwd w) k prefix, w)) (\<lambda>rel.
           let target = path_join local_path rel
           in do_then (fs_do make_dirs (dirname target)) (\<lambda>_.
              do_then (download_file_cached E cfg (''s3://'' @ bucket @ ''/'' @ k) target) (\<lambda>_.
                download_objects E cfg bucket prefix local_path ks))))"

definition download_folder :: "'s s3_env \<Rightarrow> worker_config \<Rightarrow> string \<Rightarrow> string \<Rightarrow> ('s, string) op" where
  "download_folder E cfg uri local_path =
     do_then (of_result (se_parse_uri E uri None)) (\<lambda>(bucket, prefix, is_dir).
     do_then (get_store E cfg bucket) (\<lambda>_.
     do_then (\<lambda>w. (se_list E bucket prefix (wd_store w), w)) (\<lambda>keys.
     do_then (download_objects E cfg bucket prefix local_path keys) (\<lambda>_.
       return_op local_path))))"

text \<open>\<open>try ... finally\<close> around one transfer: the counter of active operations.\<close>

definition counted :: "('s, 'a) op \<Rightarrow> ('s, 'a) op" where
  "counted m w =
     (case m (w\<lparr>wd_active_ops := wd_active_ops w + 1\<rparr>) of
        (r, w') \<Rightarrow> (r, w'\<lparr>wd_active_ops := wd_active_ops w' - 1\<rparr>))"

text \<open>
  The nested functions \<open>_process\<close>: strings go to \<open>leaf\<close> together with their key path, containers
  are rebuilt in order.
\<close>

definition sub_key :: "string \<Rightarrow> string \<Rightarrow> string" where
  "sub_key key_path k = (if key_path = [] then k else key_path @ ''.'' @ k)"

fun digits_of :: "nat \<Rightarrow> string" where
  "digits_of n =
     (if n < 10 then [char_of (48 + n)] else digits_of (n div 10) @ [char_of (48 + n mod 10)])"

declare digits_of.simps [simp del]

definition index_key :: "string \<Rightarrow> nat \<Rightarrow> string" where
  "index_key key_path i = key_path @ ''['' @ digits_of i @ '']''"

fun walk :: "(string \<Rightarrow> string \<Rightarrow> 'w \<Rightarrow> pyval result \<times> 'w) \<Rightarrow> string \<Rightarrow> pyval \<Rightarrow> 'w \<Rightarrow> pyval result \<times> 'w"
  and walk_entries :: "(string \<Rightarrow> string \<Rightarrow> 'w \<Rightarrow> pyval result \<times> 'w) \<Rightarrow> string \<Rightarrow> (string \<times> pyval) list \<Rightarrow> 'w
    \<Rightarrow> (string \<times> pyval) list result \<times> 'w"
  and walk_items :: "(string \<Rightarrow> string \<Rightarrow> 'w \<Rightarrow> pyval result \<times> 'w) \<Rightarrow> string \<Rightarrow> nat \<Rightarrow> pyval list \<Rightarrow> 'w
    \<Rightarrow> pyval list result \<times> 'w" where
  "walk leaf key (PStr s) = leaf key s"
| "walk leaf key (PDict d) = do_then (walk_entries leaf key d) (\<lambda>d'. return_op (PDict d'))"
| "walk leaf key (PList xs) = do_then (walk_items leaf key 0 xs) (\<lambda>xs'. return_op (PList xs'))"
| "walk leaf key PNone = return_op PNone"
| "walk leaf key (PBool b) = return_op (PBool b)"
| "walk leaf key (PInt i) = return_op (PInt i)"
| "walk leaf key (PFloat x) = return_op (PFloat x)"
| "walk leaf key (PRef r) = return_op (PRef r)"
| "walk_entries leaf key [] = return_op []"
| "walk_entries leaf key ((k, v) # d) =
     do_then (walk leaf (sub_key key k) v) (\<lambda>v'.
     do_then (walk_entries leaf key d) (\<lambda>d'. return_op ((k, v') # d')))"
| "walk_items leaf key i [] = return_op []"
| "walk_items leaf key i (v # xs) =
     do_then (walk leaf (index_key key i) v) (\<lambda>v'.
     do_then (walk_items leaf key (Suc i) xs) (\<lambda>xs'. return_op (v' # xs')))"

definition endpoint_set :: "worker_config \<Rightarrow> bool" where
  "endpoint_set cfg = (cfg_s3_endpoint_url cfg \<noteq> None \<and> cfg_s3_endpoint_url cfg \<noteq> Some [])"

definition download_leaf :: "'s s3_env \<Rightarrow> worker_config \<Rightarrow> string \<Rightarrow> string \<Rightarrow> string \<Rightarrow> ('s, pyval) op" where
  "download_leaf E cfg task_id key_path item =
     (if starts_with item ''s3://''
      then counted (
        do_then (of_result (se_parse_uri E item None)) (\<lambda>(bucket, key, is_dir).
        do_then (fs_do make_dirs (task_dir cfg task_id)) (\<lambda>_.
          if is_dir
          then do_then (download_folder E cfg item
                 (path_join (task_dir cfg task_id) (last (split_on slash (rstrip_char slash key)))))
                 (\<lambda>p. return_op (PStr p))
          else (let local_path = path_join (task_dir cfg task_id) (basename key)
                in do_then (download_file_cached E cfg item local_path) (\<lambda>_. return_op (PStr local_path))))))
      else return_op (PStr item))"

definition process_params :: "'s s3_env \<Rightarrow> worker_config \<Rightarrow> pyval \<Rightarrow> string \<Rightarrow> ('s, pyval) op" where
  "process_params E cfg params task_id =
     (if \<not> endpoint_set cfg then return_op params else walk (download_leaf E cfg task_id) [] params)"

text \<open>\<open>process_result\<close> collects the metadata of the uploaded files under their key paths.\<close>

type_synonym metadata_map = "(string, file_metadata) dict"

definition result_uri :: "worker_config \<Rightarrow> string \<Rightarrow> string \<Rightarrow> string" where
  "result_uri cfg s3_prefix item =
     ''s3://'' @ cfg_s3_default_bucket cfg @ ''/'' @ lstrip_char slash (path_join s3_prefix (basename item))"

definition upload_one :: "'s s3_env \<Rightarrow> worker_config \<Rightarrow> string \<Rightarrow> string \<Rightarrow> ('s, file_metadata) op" where
  "upload_one E cfg item uri =
     do_then (provider_upload E cfg item uri) (\<lambda>etag.
     do_then (\<lambda>w. (get_size (wd_fs w) (resolve (wd_cwd w) item), w)) (\<lambda>n w.
       (Inr \<lparr>fm_uri = uri, fm_size = Some n, fm_etag = Some etag\<rparr>, record_s3_op ''upload'' ''success'' w)))"

definition upload_leaf :: "'s s3_env \<Rightarrow> worker_config \<Rightarrow> string \<Rightarrow> string \<Rightarrow> string
    \<Rightarrow> metadata_map \<times> 's world \<Rightarrow> pyval result \<times> metadata_map \<times> 's world" where
  "upload_leaf E cfg s3_prefix key_path item = (\<lambda>(md, w).
     if starts_with item (cfg_task_files_dir cfg) \<and> exists_at w item
     then (let uri = result_uri cfg s3_prefix item
           in case counted (upload_one E cfg item uri) w of
                (Inl e, w') \<Rightarrow> (Inl e, md, w')
              | (Inr meta, w') \<Rightarrow> (Inr (PStr uri), dset key_path meta md, w'))
     else (Inr (PStr item), md, w))"

definition process_result :: "'s s3_env \<Rightarrow> worker_config \<Rightarrow> pyval \<Rightarrow> string
    \<Rightarrow> ('s, pyval \<times> metadata_map) op" where
  "process_result E cfg result s3_prefix w =
     (if \<not> endpoint_set cfg then (Inr (result, []), w)
      else (case walk (upload_leaf E cfg s3_prefix) [] result ([], w) of
              (Inl e, md, w') \<Rightarrow> (Inl e, w')
            | (Inr v, md, w') \<Rightarrow> (Inr (v, md), w')))"

text \<open>
  \<open>wait_all_done\<close>: the number of naps of a tenth of a second, \<open>ops n\<close> being the counter after
  \<open>n\<close> of them.
\<close>

function wait_all_done_from :: "rat \<Rightarrow> (nat \<Rightarrow> int) \<Rightarrow> nat \<Rightarrow> nat" where
  "wait_all_done_from timeout ops n =
     (if 0 < ops n \<and> of_nat n / 10 < timeout then wait_all_done_from timeout ops (Suc n) else n)"
  by auto
termination
proof (relation "measure (\<lambda>(timeout, ops, n). nat \<lceil>timeout * 10\<rceil> - n)")
  fix timeout :: rat and ops :: "nat \<Rightarrow> int" and n :: nat
  assume "0 < ops n \<and> of_nat n / 10 < timeout"
  then have "of_nat n < timeout * 10" by (simp add: field_simps)
  then have "int n < \<lceil>timeout * 10\<rceil>" by (simp add: less_ceiling_iff)
  then show "((timeout, ops, Suc n), (timeout, ops, n)) \<in> measure (\<lambda>(timeout, ops, n). nat \<lceil>timeout * 10\<rceil> - n)"
    by auto
qed simp

declare wait_all_done_from.simps [simp del]

definition wait_all_done :: "rat \<Rightarrow> (nat \<Rightarrow> int) \<Rightarrow> nat" where
  "wait_all_done timeout ops = (if ops 0 = 0 then 0 else wait_all_done_from timeout ops 0)"

section \<open>Lemmas\<close>

text \<open>Observations that a block of code leaves alone.\<close>

definition preserves :: "('w \<Rightarrow> 'b) \<Rightarrow> ('w \<Rightarrow> 'a \<times> 'w) \<Rightarrow> bool" where
  "preserves f m = (\<forall>w. f (snd (m w)) = f w)"

lemma preservesD: "preserves f m \<Longrightarrow> m w = (r, w') \<Longrightarrow> f w' = f w"
  unfolding preserves_def by (metis snd_conv)

named_theorems keeps \<open>introduction rules for observations left alone\<close>

lemma preserves_do_then [keeps]:
  assumes "preserves f m" and "\<And>x. preserves f (g x)"
  shows "preserves f (do_then m g)"
  using assms by (auto simp: preserves_def do_then_def split: prod.splits sum.splits) (metis snd_conv)+

lemma preserves_return [keeps]: "preserves f (return_op x)" "preserves f (of_result r)"
  by (simp_all add: preserves_def return_op_def of_result_def)

lemma preserves_pure [keeps]: "preserves f (\<lambda>w. (g w, w))"
  by (simp add: preserves_def)

lemma preserves_if [keeps]:
  "preserves f m \<Longrightarrow> preserves f n \<Longrightarrow> preserves f (if b then m else n)"
  by simp

lemma preserves_if_state [keeps]:
  "preserves f m \<Longrightarrow> preserves f n \<Longrightarrow> preserves f (\<lambda>w. if b w then m w else n w)"
  by (simp add: preserves_def)

lemma preserves_let [keeps]: "(\<And>x. preserves f (m x)) \<Longrightarrow> preserves f (let x = v in m x)"
  by simp

lemma preserves_let_state [keeps]:
  "(\<And>x. preserves f (m x)) \<Longrightarrow> preserves f (\<lambda>w. let x = v in m x w)"
  by simp

lemma preserves_prod [keeps]:
  "(\<And>a b. preserves f (m a b)) \<Longrightarrow> preserves f (case p of (a, b) \<Rightarrow> m a b)"
  by (cases p) simp

lemma preserves_walks:
  assumes "\<And>k s. preserves f (leaf k s)"
  shows preserves_walk: "preserves f (walk leaf key v)"
    and "preserves f (walk_entries leaf key d)"
    and "preserves f (walk_items leaf key i xs)"
  using assms
proof (induction leaf key v and leaf key d and leaf key i xs rule: walk_walk_entries_walk_items.induct)
qed (simp_all add: preserves_do_then preserves_return)

lemma preserves_fs_do [keeps]:
  assumes "\<And>(w :: 's world) x. f (w\<lparr>wd_fs := x\<rparr>) = f w"
  shows "preserves f (fs_do g p)"
  using assms by (simp add: preserves_def fs_do_def split: sum.splits)

lemma preserves_store_do [keeps]:
  assumes "\<And>(w :: 's world) x. f (w\<lparr>wd_store := x\<rparr>) = f w"
  shows "preserves f (store_do g)"
  using assms by (simp add: preserves_def store_do_def split: prod.splits)

text \<open>The bookkeeping fields that a transfer itself never touches.\<close>

definition transfer_frame :: "('s world \<Rightarrow> 'b) \<Rightarrow> bool" where
  "transfer_frame f = ((\<forall>w x. f (w\<lparr>wd_fs := x\<rparr>) = f w) \<and> (\<forall>w x. f (w\<lparr>wd_store := x\<rparr>) = f w) \<and>
     (\<forall>w x. f (w\<lparr>wd_stores := x\<rparr>) = f w) \<and> (\<forall>w x. f (w\<lparr>wd_metrics := x\<rparr>) = f w))"

lemma transfer_frame_cwd: "transfer_frame wd_cwd" "transfer_frame wd_active_ops"
  by (simp_all add: transfer_frame_def)

lemma transfer_frameD:
  assumes "transfer_frame f"
  shows "f (w\<lparr>wd_fs := x\<rparr>) = f w" "f (w\<lparr>wd_store := y\<rparr>) = f w"
    "f (w\<lparr>wd_stores := z\<rparr>) = f w" "f (w\<lparr>wd_metrics := u\<rparr>) = f w"
  using assms by (simp_all add: transfer_frame_def)

lemma preserves_transfers:
  assumes "transfer_frame f"
  shows preserves_fs: "preserves f (fs_do g p)"
    and preserves_get_store: "preserves f (get_store E cfg b)"
    and preserves_save: "preserves f (save_stream bl p)"
    and preserves_metric: "preserves f (\<lambda>w. (Inr (), record_s3_op k st w))"
    and preserves_delete: "preserves f (store_do h)"
proof -
  note upd = transfer_frameD [OF assms]
  show fs: "preserves f (fs_do g p)" for g :: "path \<Rightarrow> fs \<Rightarrow> fs result" and p
    by (rule preserves_fs_do) (rule upd)
  show "preserves f (get_store E cfg b)"
    by (simp add: preserves_def get_store_def upd split: sum.splits option.splits)
  show "preserves f (save_stream bl p)"
    using fs by (auto simp: preserves_def save_stream_def split: prod.splits sum.splits option.splits dest: spec)
      (metis snd_conv)+
  show "preserves f (\<lambda>w. (Inr (), record_s3_op k st w))"
    by (simp add: preserves_def record_s3_op_def upd)
  show "preserves f (store_do h)"
    by (rule preserves_store_do) (rule upd)
qed

lemma preserves_with_object:
  assumes "transfer_frame f" and "\<And>b k. preserves f (g b k)"
  shows "preserves f (with_object E cfg uri g)"
  unfolding with_object_def using assms by (intro keeps preserves_get_store) auto

lemma preserves_provider:
  assumes f: "transfer_frame f"
  shows preserves_upload: "preserves f (provider_upload E cfg p uri)"
    and preserves_download: "preserves f (provider_download E cfg uri p)"
    and preserves_metadata: "preserves f (provider_get_metadata E cfg uri)"
proof -
  note upd = transfer_frameD [OF f]
  show "preserves f (provider_upload E cfg p uri)"
    unfolding provider_upload_def
    by (rule preserves_with_object [OF f]) (simp add: preserves_def upd split: sum.splits prod.splits)
  show "preserves f (provider_download E cfg uri p)"
    unfolding provider_download_def
    using preserves_save [OF f]
    by (intro preserves_with_object [OF f]) (simp add: preserves_def split: sum.splits)
  show "preserves f (provider_get_metadata E cfg uri)"
    unfolding provider_get_metadata_def
    by (rule preserves_with_object [OF f]) (simp add: preserves_def split: sum.splits)
qed

lemma preserves_cached_download:
  assumes f: "transfer_frame f"
  shows "preserves f (download_file_cached E cfg uri p)"
  unfolding download_file_cached_def link_from_cache_def Let_def
  by (intro keeps preserves_metadata [OF f] preserves_download [OF f] preserves_fs [OF f]
      preserves_metric [OF f] preserves_if_state)

lemma preserves_objects:
  assumes f: "transfer_frame f"
  shows "preserves f (download_objects E cfg b pr lp ks)"
  by (induction ks)
    (simp_all add: preserves_return preserves_do_then preserves_pure Let_def preserves_fs [OF f]
      preserves_cached_download [OF f])

lemma preserves_folder:
  assumes f: "transfer_frame f"
  shows "preserves f (download_folder E cfg uri p)"
  unfolding download_folder_def
  by (intro keeps preserves_get_store [OF f] preserves_objects [OF f])

lemma preserves_counted:
  assumes "preserves wd_active_ops m"
  shows "preserves wd_active_ops (counted m)"
proof -
  have "wd_active_ops (snd (counted m w)) = wd_active_ops w" for w
  proof -
    obtain r w' where m: "m (w\<lparr>wd_active_ops := wd_active_ops w + 1\<rparr>) = (r, w')" by fastforce
    then have "wd_active_ops w' = wd_active_ops w + 1"
      using preservesD [OF assms m] by simp
    with m show ?thesis by (simp add: counted_def)
  qed
  then show ?thesis by (simp add: preserves_def)
qed

lemma preserves_counted_other:
  assumes "preserves f m" and "\<And>w x. f (w\<lparr>wd_active_ops := x\<rparr>) = f w"
  shows "preserves f (counted m)"
  using assms by (auto simp: preserves_def counted_def split: prod.splits) (metis snd_conv)

lemma preserves_download_leaf: "preserves wd_active_ops (download_leaf E cfg t k item)"
  unfolding download_leaf_def Let_def
  by (intro keeps preserves_counted preserves_fs preserves_folder preserves_cached_download transfer_frame_cwd)

lemma upload_leaf_ops: "wd_active_ops (snd (snd (upload_leaf E cfg pre k item st))) = wd_active_ops (snd st)"
proof (cases st)
  case (Pair md w)
  let ?m = "counted (upload_one E cfg item (result_uri cfg pre item))"
  have "preserves wd_active_ops ?m"
    unfolding upload_one_def
    by (intro preserves_counted preserves_do_then preserves_upload preserves_metric preserves_pure transfer_frame_cwd)
      (simp add: preserves_def record_s3_op_def)
  then have "?m w = (r, w') \<Longrightarrow> wd_active_ops w' = wd_active_ops w" for r w'
    by (rule preservesD)
  then show ?thesis
    using Pair by (auto simp: upload_leaf_def Let_def split: sum.splits prod.splits)
qed

lemma process_params_ops: "wd_active_ops (snd (process_params E cfg v t w)) = wd_active_ops w"
proof -
  have "preserves wd_active_ops (process_params E cfg v t)"
    unfolding process_params_def by (intro keeps preserves_walk preserves_download_leaf)
  then show ?thesis by (simp add: preserves_def)
qed

lemma process_result_ops: "wd_active_ops (snd (process_result E cfg v pre w)) = wd_active_ops w"
proof -
  have "preserves (wd_active_ops \<circ> snd) (walk (upload_leaf E cfg pre) [] v)"
    by (rule preserves_walk) (simp add: preserves_def upload_leaf_ops)
  then have "wd_active_ops (snd (snd (walk (upload_leaf E cfg pre) [] v ([], w)))) = wd_active_ops w"
    by (simp add: preserves_def)
  then show ?thesis by (auto simp: process_result_def split: prod.splits sum.splits)
qed

section \<open>Fixtures\<close>

text \<open>
  A small store held in memory, on which hypotheses about the service are exercised: the entity
  tag is the content itself; \<open>broken\<close> breaks every download after the given number of bytes.
\<close>

type_synonym memory = "((string \<times> string) \<times> string) list"

definition sample_parse_uri :: "string \<Rightarrow> string option \<Rightarrow> (string \<times> string \<times> bool) result" where
  "sample_parse_uri uri d =
     (let rest = drop 5 uri; key = drop 1 (dropWhile (\<lambda>c. c \<noteq> slash) rest)
      in Inr (takeWhile (\<lambda>c. c \<noteq> slash) rest, key, ends_with key ''/''))"

definition sample_s3 :: "nat option \<Rightarrow> memory s3_env" where
  "sample_s3 broken = \<lparr>se_available = True, se_connect = (\<lambda>b opts. None),
     se_put = (\<lambda>b k c st. (Inr (Some c), dset (b, k) c st)),
     se_get = (\<lambda>b k st. case dget st (b, k) of
        None \<Rightarrow> Inl (OSError ''NotFound'')
      | Some c \<Rightarrow> (case broken of
            None \<Rightarrow> Inr \<lparr>b_size = length c, b_etag = Some c, b_chunks = [c], b_failure = None\<rparr>
          | Some n \<Rightarrow> Inr \<lparr>b_size = length c, b_etag = Some c, b_chunks = [take n c],
                        b_failure = Some (OSError ''reset'')\<rparr>)),
     se_delete = (\<lambda>b k st. (Inr (), dpop (b, k) st)),
     se_list = (\<lambda>b pre st. Inr (map (snd \<circ> fst) (filter (\<lambda>((b', k), c). b' = b \<and> starts_with k pre) st))),
     se_parse_uri = sample_parse_uri\<rparr>"

definition s3_config :: worker_config where
  "s3_config = sample_config\<lparr>cfg_s3_endpoint_url := Some ''http://s3'', cfg_blob_cache_dir := ''/c'',
     cfg_task_files_dir := ''/t''\<rparr>"

definition sample_world :: "memory world" where
  "sample_world = \<lparr>wd_fs = [([''t''], Dir)], wd_cwd = [],
     wd_store = [((''b'', ''x/f''), ''one''), ((''b'', ''y/f''), ''two'')],
     wd_stores = [], wd_active_ops = 0, wd_metrics = []\<rparr>"

section \<open>Properties\<close>

text \<open>
  C34: Transfers are balanced: whatever the parameters or the result contain, and whether or not a
  transfer fails, \<open>process_params\<close> and \<open>process_result\<close> leave the counter of active operations,
  on which shutdown waits, where it was.
\<close>

theorem transfers_balanced:
  "wd_active_ops (snd (process_params E cfg v t w)) = wd_active_ops w \<and>
   wd_active_ops (snd (process_result E cfg r pre w)) = wd_active_ops w"
  by (simp add: process_params_ops process_result_ops)

lemma wait_from_spec:
  "(let m = wait_all_done_from timeout ops n in n \<le> m \<and> (m = n \<or> m \<le> nat \<lceil>timeout * 10\<rceil>) \<and>
     (ops m \<le> 0 \<or> timeout \<le> of_nat m / 10) \<and> list_all (\<lambda>i. 0 < ops i) [n..<m])"
proof (induction timeout ops n rule: wait_all_done_from.induct)
  case (1 timeout ops n)
  show ?case
  proof (cases "0 < ops n \<and> of_nat n / 10 < timeout")
    case True
    let ?m = "wait_all_done_from timeout ops (Suc n)"
    have eq: "wait_all_done_from timeout ops n = ?m"
      using True by (subst wait_all_done_from.simps) simp
    have ih: "Suc n \<le> ?m" "?m = Suc n \<or> ?m \<le> nat \<lceil>timeout * 10\<rceil>" "ops ?m \<le> 0 \<or> timeout \<le> of_nat ?m / 10"
      "list_all (\<lambda>i. 0 < ops i) [Suc n..<?m]"
      using 1 [OF True] by (simp_all add: Let_def)
    have "of_nat n < timeout * 10" using True by (simp add: field_simps)
    then have "int n < \<lceil>timeout * 10\<rceil>" by (simp add: less_ceiling_iff)
    then have "Suc n \<le> nat \<lceil>timeout * 10\<rceil>" by linarith
    moreover have "[n..<?m] = n # [Suc n..<?m]"
      using ih(1) by (simp add: upt_conv_Cons)
    ultimately show ?thesis
      using ih True by (auto simp: eq Let_def)
  next
    case False
    then have "wait_all_done_from timeout ops n = n"
      by (subst wait_all_done_from.simps) (simp only: if_False)
    with False show ?thesis by (auto simp: Let_def not_less)
  qed
qed

text \<open>
  C35: \<open>wait_all_done\<close> returns: it naps only while operations are active, stops at the first idle
  reading, and gives up after the timeout at the latest (at most one nap per tenth of a second).
\<close>

theorem wait_all_done_bounded:
  "let n = wait_all_done timeout ops in
     n \<le> nat \<lceil>timeout * 10\<rceil> \<and> (ops n \<le> 0 \<or> timeout \<le> of_nat n / 10) \<and> list_all (\<lambda>i. 0 < ops i) [0..<n]"
  using wait_from_spec [of timeout ops 0] by (auto simp: wait_all_done_def Let_def)

text \<open>Values in which no string is an S3 address.\<close>

fun no_uri :: "pyval \<Rightarrow> bool" where
  "no_uri (PStr s) = (\<not> starts_with s ''s3://'')"
| "no_uri (PDict d) = list_all (\<lambda>(k, v). no_uri v) d"
| "no_uri (PList xs) = list_all no_uri xs"
| "no_uri _ = True"

lemma walk_identity:
  assumes "\<And>k s. \<not> starts_with s ''s3://'' \<Longrightarrow> leaf k s = return_op (PStr s)"
  shows "no_uri v \<Longrightarrow> walk leaf key v w = (Inr v, w)"
    and "no_uri (PDict d) \<Longrightarrow> walk_entries leaf key d w = (Inr d, w)"
    and "no_uri (PList xs) \<Longrightarrow> walk_items leaf key i xs w = (Inr xs, w)"
  using assms
proof (induction leaf key v and leaf key d and leaf key i xs arbitrary: w and w and w
    rule: walk_walk_entries_walk_items.induct)
qed (simp_all add: return_op_def do_then_def)

text \<open>
  Parameters without S3 addresses pass through \<open>process_params\<close> unchanged, and no file,
  object, counter or metric changes.
\<close>

theorem params_without_uris_unchanged:
  assumes "no_uri v \<or> \<not> endpoint_set cfg"
  shows "process_params E cfg v t w = (Inr v, w)"
  using assms walk_identity(1) [of "download_leaf E cfg t" v "[]" w]
  by (auto simp: process_params_def return_op_def download_leaf_def)

theorem params_without_uris_unchanged_witness:
  "process_params (sample_s3 None) s3_config (PDict [(''a'', PStr ''x''), (''b'', PList [PInt 1, PStr ''s4://''])]) ''t1''
     sample_world = (Inr (PDict [(''a'', PStr ''x''), (''b'', PList [PInt 1, PStr ''s4://''])]), sample_world)"
  by (rule params_without_uris_unchanged) (simp add: starts_with_def)

section \<open>Cached downloads\<close>

lemma do_then_Inr:
  assumes "do_then m f w = (Inr y, w')"
  obtains x w1 where "m w = (Inr x, w1)" and "f x w1 = (Inr y, w')"
  using assms by (auto simp: do_then_def split: prod.splits sum.splits)

lemma fs_do_Inr:
  assumes "fs_do g p w = (Inr u, w')"
  obtains fs where "g (resolve (wd_cwd w) p) (wd_fs w) = Inr fs" and "w' = w\<lparr>wd_fs := fs\<rparr>"
  using assms by (auto simp: fs_do_def split: sum.splits)

lemma get_store_frame:
  "get_store E cfg b w = (r, w') \<Longrightarrow> wd_fs w' = wd_fs w \<and> wd_cwd w' = wd_cwd w \<and> wd_store w' = wd_store w"
  by (auto simp: get_store_def split: sum.splits option.splits if_splits)

lemma with_object_Inr:
  assumes "with_object E cfg uri g w = (r, w')"
    and "se_parse_uri E uri (Some (cfg_s3_default_bucket cfg)) = Inr (b, k, d)" and "is_ok r"
  obtains w1 where "g b k w1 = (r, w')" and "wd_fs w1 = wd_fs w" and "wd_cwd w1 = wd_cwd w"
    and "wd_store w1 = wd_store w"
proof -
  from assms obtain x where r: "r = Inr x" by (cases r) auto
  have "check_availability E = Inr ()"
    using assms(1) r by (auto simp: with_object_def do_then_def of_result_def split: sum.splits)
  then have "do_then (get_store E cfg b) (\<lambda>_. g b k) w = (Inr x, w')"
    using assms(1,2) r by (simp add: with_object_def do_then_def of_result_def)
  then obtain w1 where w1: "get_store E cfg b w = (Inr (), w1)" "g b k w1 = (Inr x, w')"
    by (rule do_then_Inr) simp
  with get_store_frame [OF w1(1)] that r show thesis by simp
qed

text \<open>
  An object as the provider finds it: its address and the answer to a \<open>get\<close>, whose stream does
  not break.
\<close>

definition stored_as :: "'s s3_env \<Rightarrow> worker_config \<Rightarrow> string \<Rightarrow> 's \<Rightarrow> blob \<Rightarrow> bool" where
  "stored_as E cfg uri st bl =
     (case se_parse_uri E uri (Some (cfg_s3_default_bucket cfg)) of
        Inl e \<Rightarrow> False
      | Inr (b, k, d) \<Rightarrow> se_get E b k st = Inr bl \<and> b_failure bl = None)"

lemma metadata_stored:
  assumes "provider_get_metadata E cfg uri w = (Inr m, w')" and "stored_as E cfg uri (wd_store w) bl"
  shows "m = Some (b_size bl, case b_etag bl of
            Some t \<Rightarrow> if t = [] then None else Some (strip_char quote_char t) | None \<Rightarrow> None) \<and>
    wd_fs w' = wd_fs w \<and> wd_cwd w' = wd_cwd w \<and> wd_store w' = wd_store w"
proof -
  obtain b k d where u: "se_parse_uri E uri (Some (cfg_s3_default_bucket cfg)) = Inr (b, k, d)"
    "se_get E b k (wd_store w) = Inr bl"
    using assms(2) by (auto simp: stored_as_def split: sum.splits)
  from assms(1) u(1) show ?thesis
    unfolding provider_get_metadata_def
    by (rule with_object_Inr) (auto simp: u(2))
qed

lemma download_stored:
  assumes "provider_download E cfg uri p w = (Inr m, w')" and "stored_as E cfg uri (wd_store w) bl"
  shows "write_file (concat (b_chunks bl)) (resolve (wd_cwd w) p) (wd_fs w) = Inr (wd_fs w') \<and>
    wd_cwd w' = wd_cwd w \<and> wd_store w' = wd_store w"
proof -
  obtain b k d where u: "se_parse_uri E uri (Some (cfg_s3_default_bucket cfg)) = Inr (b, k, d)"
    "se_get E b k (wd_store w) = Inr bl" "b_failure bl = None"
    using assms(2) by (auto simp: stored_as_def split: sum.splits)
  from assms(1) u(1) show ?thesis
    unfolding provider_download_def
    by (rule with_object_Inr) (auto simp: u(2,3) save_stream_def fs_do_def split: prod.splits sum.splits)
qed

lemma link_from_cache_reads:
  assumes "link_from_cache c p w = (Inr u, w')" and "starts_with c ''/''"
    and "resolve (wd_cwd w) p \<noteq> resolve [] c" and "fs_at (wd_fs w) (resolve [] c) = Some (File x)"
  shows "read_at w' p = Inr x \<and> fs_at (wd_fs w') (resolve [] c) = Some (File x) \<and> wd_cwd w' = wd_cwd w"
proof -
  let ?l = "resolve (wd_cwd w) p"
  obtain w1 where w1: "(if exists_at w p then fs_do unlink p w else (Inr (), w)) = (Inr (), w1)"
    "fs_do (symlink c) p w1 = (Inr u, w')"
    using assms(1) unfolding link_from_cache_def by (rule do_then_Inr) simp
  have "?l \<noteq> []" if "fs_do unlink p w = (Inr (), w1)"
    using that by (rule fs_do_Inr) (auto simp: unlink_def fs_at_def)
  then have c1: "fs_at (wd_fs w1) (resolve [] c) = Some (File x) \<and> wd_cwd w1 = wd_cwd w"
    using w1(1) assms(3,4)
    by (auto split: if_splits elim!: fs_do_Inr simp: unlink_def fs_at_dpop split: option.splits node.splits)
  obtain fs where fs: "symlink c ?l (wd_fs w1) = Inr fs" "w' = w1\<lparr>wd_fs := fs\<rparr>"
    using w1(2) c1 by (auto elim: fs_do_Inr)
  have new: "fs = dset ?l (Link c) (wd_fs w1) \<and> fs_at (wd_fs w1) ?l = None"
    using fs(1) by (auto simp: symlink_def split: if_splits)
  then have "?l \<noteq> []" by (auto simp: fs_at_def)
  moreover have "resolve (butlast ?l) c = resolve [] c"
    using assms(2) by (simp add: resolve_def)
  ultimately show ?thesis
    using new fs c1 assms(3) by (simp add: read_at_def read_file_link [of _ _ c] fs_at_dset)
qed

lemma absolute_join: "starts_with d ''/'' \<Longrightarrow> \<not> starts_with n ''/'' \<Longrightarrow> starts_with (path_join d n) ''/''"
  by (auto simp: path_join_def starts_with_single)

lemma resolve_absolute: "starts_with p ''/'' \<Longrightarrow> resolve cwd p = resolve [] p"
  by (simp add: resolve_def)

lemma make_dirs_keeps_below:
  assumes "make_dirs d fs = Inr fs'" and "fs_at fs (d @ [n]) = None"
  shows "fs_at fs' (d @ [n]) = None"
proof (rule ccontr)
  assume "fs_at fs' (d @ [n]) \<noteq> None"
  with make_dirs_below_new [OF assms(1) [unfolded make_dirs_def] assms(2)]
  obtain ys where "d @ [n] = ys" "take (length ys) d = ys" by auto
  then have "take (Suc (length d)) d = d @ [n]" by auto
  then show False by simp
qed

lemma metadata_fs:
  "provider_get_metadata E cfg uri w = (r, w') \<Longrightarrow> wd_fs w' = wd_fs w"
proof -
  assume r: "provider_get_metadata E cfg uri w = (r, w')"
  have "preserves wd_fs (provider_get_metadata E cfg uri)"
    unfolding provider_get_metadata_def with_object_def
    by (intro keeps) (simp_all add: preserves_def get_store_def split: sum.splits option.splits)
  then show ?thesis using r by (rule preservesD)
qed

text \<open>What a successful cached download did, once the entity tag is known.\<close>

definition link_recorded :: "string \<Rightarrow> string \<Rightarrow> string \<Rightarrow> ('s, unit) op" where
  "link_recorded kind c p = do_then (link_from_cache c p) (\<lambda>_ w. (Inr (), record_s3_op kind ''success'' w))"

lemma cached_run:
  assumes run: "download_file_cached E cfg uri p w = (Inr u, w')"
    and obj: "stored_as E cfg uri (wd_store w) bl" "b_etag bl = Some t" "strip_char quote_char t \<noteq> []"
    and c: "c = path_join (cfg_blob_cache_dir cfg) (strip_char quote_char t)"
  obtains w2 where "make_dirs (resolve (wd_cwd w) (cfg_blob_cache_dir cfg)) (wd_fs w) = Inr (wd_fs w2)"
    and "wd_cwd w2 = wd_cwd w" and "wd_store w2 = wd_store w"
    and "(if exists_at w2 c then link_recorded ''download_cache_hit'' c p w2
          else do_then (provider_download E cfg uri c) (\<lambda>_. link_recorded ''download'' c p) w2) = (Inr u, w')"
proof -
  have "t \<noteq> []" using obj(3) by (auto simp: strip_char_def lstrip_char_def rstrip_char_def)
  obtain m w1 where m: "provider_get_metadata E cfg uri w = (Inr m, w1)"
    using run unfolding download_file_cached_def by (rule do_then_Inr)
  have w1: "m = Some (b_size bl, Some (strip_char quote_char t))" "wd_fs w1 = wd_fs w"
    "wd_cwd w1 = wd_cwd w" "wd_store w1 = wd_store w"
    using metadata_stored [OF m obj(1)] obj(2) \<open>t \<noteq> []\<close> by simp_all
  have "do_then (fs_do make_dirs (cfg_blob_cache_dir cfg)) (\<lambda>_ w.
          if exists_at w c then link_recorded ''download_cache_hit'' c p w
          else do_then (provider_download E cfg uri c) (\<lambda>_. link_recorded ''download'' c p) w) w1 = (Inr u, w')"
    using run m w1(1) obj(3) c
    unfolding link_recorded_def c
    by (simp add: download_file_cached_def do_then_def [of "provider_get_metadata E cfg uri"] Let_def)
  then obtain w2 where w2: "fs_do make_dirs (cfg_blob_cache_dir cfg) w1 = (Inr (), w2)"
    "(if exists_at w2 c then link_recorded ''download_cache_hit'' c p w2
      else do_then (provider_download E cfg uri c) (\<lambda>_. link_recorded ''download'' c p) w2) = (Inr u, w')"
    by (rule do_then_Inr) simp
  obtain fs where "make_dirs (resolve (wd_cwd w1) (cfg_blob_cache_dir cfg)) (wd_fs w1) = Inr fs"
    "w2 = w1\<lparr>wd_fs := fs\<rparr>" using w2(1) by (rule fs_do_Inr)
  then show thesis using w1 w2(2) by (intro that [of w2]) simp_all
qed

lemma link_recorded_reads:
  assumes run: "link_recorded kind c p w = (Inr u, w')" and "starts_with c ''/''"
    and "resolve (wd_cwd w) p \<noteq> resolve [] c" and "fs_at (wd_fs w) (resolve [] c) = Some (File x)"
  shows "read_file (wd_fs w') (resolve (wd_cwd w) p) = Inr x \<and>
    fs_at (wd_fs w') (resolve [] c) = Some (File x) \<and> wd_cwd w' = wd_cwd w"
proof -
  obtain v where v: "link_from_cache c p w = (Inr (), v)" "w' = record_s3_op kind ''success'' v"
    using run unfolding link_recorded_def by (auto elim: do_then_Inr)
  show ?thesis
    using link_from_cache_reads [OF v(1) assms(2,3,4)] v(2) by (auto simp: record_s3_op_def read_at_def)
qed

text \<open>
  C33: A cached download delivers the object: if the cache holds nothing or the right bytes under
  the object's entity tag, then after a successful \<open>_download_file_cached\<close> reading the local path
  gives the object's bytes, and the cache entry is (still) right, for the next download.
\<close>

theorem cached_download_correct:
  assumes obj: "stored_as E cfg uri (wd_store w) bl" "b_etag bl = Some t"
    and tag: "plain_name (strip_char quote_char t)"
    and dir: "starts_with (cfg_blob_cache_dir cfg) ''/''"
    and cache: "entry = resolve [] (cfg_blob_cache_dir cfg) @ [strip_char quote_char t]"
      "fs_at (wd_fs w) entry = None \<or> fs_at (wd_fs w) entry = Some (File (concat (b_chunks bl)))"
    and apart: "resolve (wd_cwd w) local_path \<noteq> entry"
    and run: "download_file_cached E cfg uri local_path w = (Inr u, w')"
  shows "read_at w' local_path = Inr (concat (b_chunks bl)) \<and>
    fs_at (wd_fs w') entry = Some (File (concat (b_chunks bl)))"
proof -
  let ?c = "path_join (cfg_blob_cache_dir cfg) (strip_char quote_char t)" and ?x = "concat (b_chunks bl)"
  have c: "starts_with ?c ''/''" "resolve v ?c = entry" for v
    using absolute_join [OF dir plain_name_relative [OF tag]] resolve_join_plain [OF tag] cache(1)
      resolve_absolute [of ?c] by simp_all
  have "strip_char quote_char t \<noteq> []" using tag by (simp add: plain_name_def)
  from cached_run [OF run obj this refl] obtain w2 where
    dirs: "make_dirs (resolve (wd_cwd w) (cfg_blob_cache_dir cfg)) (wd_fs w) = Inr (wd_fs w2)"
    and w2: "wd_cwd w2 = wd_cwd w" "wd_store w2 = wd_store w"
    and rest: "(if exists_at w2 ?c then link_recorded ''download_cache_hit'' ?c local_path w2
      else do_then (provider_download E cfg uri ?c) (\<lambda>_. link_recorded ''download'' ?c local_path) w2) = (Inr u, w')" .
  have same: "fs_at (wd_fs w2) entry = fs_at (wd_fs w) entry"
    using cache make_dirs_frame [OF dirs, of entry] resolve_absolute [OF dir, of "wd_cwd w"]
      make_dirs_keeps_below [OF dirs, of "strip_char quote_char t"] by auto
  have "\<exists>k v. link_recorded k ?c local_path v = (Inr u, w') \<and> wd_cwd v = wd_cwd w \<and> fs_at (wd_fs v) entry = Some (File ?x)"
  proof (cases "fs_at (wd_fs w) entry")
    case None
    then have "\<not> exists_at w2 ?c"
      using same c(2) exists_iff_plain [of "wd_fs w2" entry] by (simp add: exists_at_def)
    with rest obtain w3 where w3: "provider_download E cfg uri ?c w2 = (Inr (), w3)"
      "link_recorded ''download'' ?c local_path w3 = (Inr u, w')"
      by (auto elim: do_then_Inr)
    have d3: "write_file ?x entry (wd_fs w2) = Inr (wd_fs w3)" "wd_cwd w3 = wd_cwd w"
      using download_stored [OF w3(1)] obj(1) w2 c(2) by simp_all
    then show ?thesis
      using w3(2) write_file_plain [OF d3(1), of entry] None same by auto
  next
    case (Some n)
    with cache(2) have n: "fs_at (wd_fs w2) entry = Some (File ?x)" using same by simp
    then have "exists_at w2 ?c" using c(2) exists_file by (simp add: exists_at_def)
    with rest n w2(1) show ?thesis by (auto split: if_splits)
  qed
  then obtain k v where v: "link_recorded k ?c local_path v = (Inr u, w')" "wd_cwd v = wd_cwd w"
    "fs_at (wd_fs v) entry = Some (File ?x)" by blast
  show ?thesis
    using link_recorded_reads [OF v(1) c(1), of ?x] c(2) v(2,3) apart by (simp add: read_at_def)
qed

theorem cached_download_correct_witness:
  "\<exists>w'. download_file_cached (sample_s3 None) s3_config ''s3://b/x/f'' ''/t/f'' sample_world = (Inr (), w') \<and>
     read_at w' ''/t/f'' = Inr ''one''"
proof -
  let ?w = "sample_world" and ?bl = "\<lparr>b_size = 3, b_etag = Some ''one'', b_chunks = [''one''], b_failure = None\<rparr>"
  obtain w' where w': "download_file_cached (sample_s3 None) s3_config ''s3://b/x/f'' ''/t/f'' ?w = (Inr (), w')"
  proof -
    have "fst (download_file_cached (sample_s3 None) s3_config ''s3://b/x/f'' ''/t/f'' ?w) = Inr ()" by code_simp
    then show thesis using that by (metis prod.collapse)
  qed
  have "stored_as (sample_s3 None) s3_config ''s3://b/x/f'' (wd_store ?w) ?bl" by code_simp
  moreover have "plain_name (strip_char quote_char ''one'')" "starts_with (cfg_blob_cache_dir s3_config) ''/''"
    "[''c'', ''one''] = resolve [] (cfg_blob_cache_dir s3_config) @ [strip_char quote_char ''one'']"
    "fs_at (wd_fs ?w) [''c'', ''one''] = None" "resolve (wd_cwd ?w) ''/t/f'' \<noteq> [''c'', ''one'']"
    by code_simp+
  ultimately have "read_at w' ''/t/f'' = Inr (concat (b_chunks ?bl)) \<and>
      fs_at (wd_fs w') [''c'', ''one''] = Some (File (concat (b_chunks ?bl)))"
    by (intro cached_download_correct [OF _ _ _ _ _ _ _ w', of ?bl "''one''"]) simp_all
  with w' show ?thesis by auto
qed

text \<open>
  A download whose stream breaks leaves its first bytes in the cache under the object's entity
  tag; the next download of the object succeeds as a cache hit and delivers the truncated bytes.
\<close>

theorem truncated_cache_hit:
  "let (r1, w1) = download_file_cached (sample_s3 (Some 2)) s3_config ''s3://b/x/f'' ''/t/f'' sample_world;
       (r2, w2) = download_file_cached (sample_s3 None) s3_config ''s3://b/x/f'' ''/t/f'' w1
   in r1 = Inl (OSError ''reset'') \<and> r2 = Inr () \<and> read_at w2 ''/t/f'' = Inr ''on'' \<and>
      wd_metrics w2 = [(''download_cache_hit'', ''success'')]"
  by code_simp

text \<open>
  Two parameters that name different objects with the same last path component get the same
  local path: the handler reads the second object under both names.
\<close>

theorem basename_collision:
  "let (r, w) = process_params (sample_s3 None) s3_config
       (PDict [(''a'', PStr ''s3://b/x/f''), (''b'', PStr ''s3://b/y/f'')]) ''t1'' sample_world
   in r = Inr (PDict [(''a'', PStr ''/t/t1/f''), (''b'', PStr ''/t/t1/f'')]) \<and> read_at w ''/t/t1/f'' = Inr ''two''"
  by code_simp

text \<open>
  Downloaded files are writable links into the shared cache: a handler that rewrites its input
  file changes the cache entry, and a later task that asks for the same object reads the rewritten
  bytes.
\<close>

theorem cache_written_through:
  "let (r1, w1) = process_params (sample_s3 None) s3_config (PDict [(''a'', PStr ''s3://b/x/f'')]) ''t1'' sample_world;
       (r2, w2) = fs_do (write_file ''mine'') ''/t/t1/f'' w1;
       w3 = cleanup s3_config ''t1'' w2;
       (r4, w4) = process_params (sample_s3 None) s3_config (PDict [(''a'', PStr ''s3://b/x/f'')]) ''t2'' w3
   in r4 = Inr (PDict [(''a'', PStr ''/t/t2/f'')]) \<and> read_at w4 ''/t/t2/f'' = Inr ''mine''"
  by code_simp

section \<open>Cleaning up\<close>

text \<open>
  C36: Cleanup is exact for an ordinary task id: everything at and below the task's own directory
  is gone, every other path is as before, and only the file system changes.
\<close>

theorem cleanup_exact:
  assumes "plain_name task_id" and "fs_at (wd_fs w) (resolve (wd_cwd w) (cfg_task_files_dir cfg) @ [task_id]) = Some Dir"
    and "q \<noteq> []"
  shows "fs_at (wd_fs (cleanup cfg task_id w)) q =
      (if below (resolve (wd_cwd w) (cfg_task_files_dir cfg) @ [task_id]) q then None else fs_at (wd_fs w) q) \<and>
    cleanup cfg task_id w = w\<lparr>wd_fs := wd_fs (cleanup cfg task_id w)\<rparr>"
proof -
  let ?d = "resolve (wd_cwd w) (cfg_task_files_dir cfg) @ [task_id]"
  have d: "resolve (wd_cwd w) (task_dir cfg task_id) = ?d"
    using assms(1) by (simp add: task_dir_def resolve_join_plain)
  have "exists_at w (task_dir cfg task_id)"
    using assms(2) by (simp add: exists_at_def d exists_iff_plain)
  then have "cleanup cfg task_id w = w\<lparr>wd_fs := rmtree ?d (wd_fs w)\<rparr>"
    by (simp add: cleanup_def d)
  then show ?thesis using rmtree_at [OF assms(2,3)] by simp
qed

definition two_tasks :: "memory world" where
  "two_tasks = sample_world\<lparr>wd_fs := [([''t''], Dir), ([''t'', ''t1''], Dir), ([''t'', ''t1'', ''f''], File ''x''),
     ([''t'', ''t2''], Dir), ([''t'', ''t2'', ''g''], File ''y''), ([''etc''], Dir), ([''etc'', ''k''], File ''z'')]\<rparr>"

theorem cleanup_exact_witness:
  "fs_at (wd_fs (cleanup s3_config ''t1'' two_tasks)) [''t'', ''t1'', ''f''] = None \<and>
   fs_at (wd_fs (cleanup s3_config ''t1'' two_tasks)) [''t'', ''t2'', ''g''] = Some (File ''y'')"
proof -
  have h: "plain_name ''t1''"
    "fs_at (wd_fs two_tasks) (resolve (wd_cwd two_tasks) (cfg_task_files_dir s3_config) @ [''t1'']) = Some Dir"
    by code_simp+
  have "below (resolve (wd_cwd two_tasks) (cfg_task_files_dir s3_config) @ [''t1'']) [''t'', ''t1'', ''f'']"
    "\<not> below (resolve (wd_cwd two_tasks) (cfg_task_files_dir s3_config) @ [''t1'']) [''t'', ''t2'', ''g'']"
    "fs_at (wd_fs two_tasks) [''t'', ''t2'', ''g''] = Some (File ''y'')"
    by code_simp+
  then show ?thesis
    using cleanup_exact [OF h, of "[''t'', ''t1'', ''f'']"] cleanup_exact [OF h, of "[''t'', ''t2'', ''g'']"] by simp
qed

text \<open>
  With other task ids cleanup leaves the task's directory: an empty id removes the directories
  of all tasks, an absolute id or one with \<open>..\<close> removes directories elsewhere on the disk.
\<close>

theorem cleanup_escapes:
  "fs_at (wd_fs (cleanup s3_config [] two_tasks)) [''t'', ''t2'', ''g''] = None \<and>
   fs_at (wd_fs (cleanup s3_config ''/etc'' two_tasks)) [''etc'', ''k''] = None \<and>
   fs_at (wd_fs (cleanup s3_config ''../etc'' two_tasks)) [''etc'', ''k''] = None"
  by code_simp

section \<open>Uploads\<close>

text \<open>
  What an object store documents: a stored object is returned by the next \<open>get\<close> of its key.
\<close>

definition returns_what_was_put :: "'s s3_env \<Rightarrow> bool" where
  "returns_what_was_put E = (\<forall>b k c st.
     (case se_put E b k c st of
        (Inl e, st') \<Rightarrow> True
      | (Inr tag, st') \<Rightarrow> (case se_get E b k st' of
           Inl e \<Rightarrow> False
         | Inr bl \<Rightarrow> concat (b_chunks bl) = c \<and> b_failure bl = None)))"

lemma sample_s3_returns: "returns_what_was_put (sample_s3 None)"
  by (simp add: returns_what_was_put_def sample_s3_def dict.get_put)

lemma upload_stores:
  assumes law: "returns_what_was_put E" and uri: "se_parse_uri E uri (Some (cfg_s3_default_bucket cfg)) = Inr (b, k, d)"
    and run: "provider_upload E cfg item uri w = (Inr etag, w')" and item: "read_at w item = Inr content"
  shows "\<exists>bl. stored_as E cfg uri (wd_store w') bl \<and> concat (b_chunks bl) = content"
    and "wd_fs w' = wd_fs w" and "wd_cwd w' = wd_cwd w"
proof -
  from run uri obtain w1 where w1: "(case read_at w1 item of
         Inl e \<Rightarrow> (Inl e, w1)
       | Inr content \<Rightarrow>
           (case se_put E b k content (wd_store w1) of
              (Inl e, st) \<Rightarrow> (Inl e, w1\<lparr>wd_store := st\<rparr>)
            | (Inr tag, st) \<Rightarrow>
                (Inr (case tag of Some t \<Rightarrow> if t = [] then [] else strip_char quote_char t | None \<Rightarrow> []),
                 w1\<lparr>wd_store := st\<rparr>))) = (Inr etag, w')"
    "wd_fs w1 = wd_fs w" "wd_cwd w1 = wd_cwd w"
    unfolding provider_upload_def by (rule with_object_Inr) simp_all
  have "read_at w1 item = Inr content" using w1(2,3) item by (simp add: read_at_def)
  with w1 obtain tag where put: "se_put E b k content (wd_store w1) = (Inr tag, wd_store w')"
    "wd_fs w' = wd_fs w" "wd_cwd w' = wd_cwd w"
    by (auto split: prod.splits sum.splits)
  obtain bl where "se_get E b k (wd_store w') = Inr bl" "concat (b_chunks bl) = content" "b_failure bl = None"
    using law [unfolded returns_what_was_put_def, THEN spec [of _ b], THEN spec [of _ k], THEN spec [of _ content],
      THEN spec [of _ "wd_store w1"]] put(1)
    by (auto split: sum.splits)
  then show "\<exists>bl. stored_as E cfg uri (wd_store w') bl \<and> concat (b_chunks bl) = content"
    using uri by (auto simp: stored_as_def)
  show "wd_fs w' = wd_fs w" "wd_cwd w' = wd_cwd w" using put by simp_all
qed

text \<open>
  C32: Results travel through the store: when \<open>process_result\<close> uploads a result file, the value
  becomes the object's address, the metadata under its key path give that address and the file's
  size, and whoever downloads the address reads the file's bytes, given a store that returns what
  was put.
\<close>

theorem result_file_round_trip:
  assumes law: "returns_what_was_put E"
    and uri: "se_parse_uri E (result_uri cfg pre item) (Some (cfg_s3_default_bucket cfg)) = Inr (b, k, d)"
    and item: "read_at w item = Inr content"
    and under: "starts_with item (cfg_task_files_dir cfg)"
    and run: "upload_leaf E cfg pre key_path item (md, w) = (Inr v, md', w')"
    and reader: "provider_download E cfg (result_uri cfg pre item) local_path r = (Inr u, r')" "wd_store r = wd_store w'"
  shows "v = PStr (result_uri cfg pre item) \<and> read_at r' local_path = Inr content \<and>
    (case dget md' key_path of None \<Rightarrow> False
     | Some m \<Rightarrow> fm_uri m = result_uri cfg pre item \<and> fm_size m = Some (length content))"
proof -
  let ?uri = "result_uri cfg pre item" and ?w0 = "w\<lparr>wd_active_ops := wd_active_ops w + 1\<rparr>"
  have ex: "exists_at w item"
    using item by (auto simp: read_at_def read_file_def exists_at_def fs_exists_def split: option.splits)
  with run under obtain m w1 where m: "upload_one E cfg item ?uri ?w0 = (Inr m, w1)"
    "v = PStr ?uri" "md' = dset key_path m md" "wd_store w' = wd_store w1"
    by (auto simp: upload_leaf_def Let_def counted_def split: sum.splits prod.splits)
  from m(1) obtain etag w2 where w2: "provider_upload E cfg item ?uri ?w0 = (Inr etag, w2)"
    and rest: "do_then (\<lambda>w. (get_size (wd_fs w) (resolve (wd_cwd w) item), w)) (\<lambda>n w.
       (Inr \<lparr>fm_uri = ?uri, fm_size = Some n, fm_etag = Some etag\<rparr>, record_s3_op ''upload'' ''success'' w)) w2 = (Inr m, w1)"
    unfolding upload_one_def by (rule do_then_Inr)
  have item0: "read_at ?w0 item = Inr content" using item by (simp add: read_at_def)
  note up = upload_stores [OF law uri w2 item0]
  obtain bl where bl: "stored_as E cfg ?uri (wd_store w2) bl" "concat (b_chunks bl) = content"
    using up(1) by blast
  have "get_size (wd_fs w2) (resolve (wd_cwd w2) item) = Inr (length content)"
    using item up(2,3) by (simp add: get_size_def read_at_def)
  with rest have m': "fm_uri m = ?uri" "fm_size m = Some (length content)" "wd_store w1 = wd_store w2"
    by (auto simp: do_then_def record_s3_op_def)
  have "stored_as E cfg ?uri (wd_store r) bl" using bl(1) m(4) m'(3) reader(2) by simp
  from download_stored [OF reader(1) this] have "read_at r' local_path = Inr content"
    using bl(2) write_read by (auto simp: read_at_def)
  then show ?thesis using m m' by (simp add: dict.get_put)
qed

theorem result_file_round_trip_witness:
  "\<exists>v md w' r'. upload_leaf (sample_s3 None) s3_config ''job'' ''out'' ''/t/t1/f'' ([], two_tasks) = (Inr v, md, w') \<and>
     provider_download (sample_s3 None) s3_config ''s3://b/job/f'' ''/t/t2/copy'' w' = (Inr (), r') \<and>
     v = PStr ''s3://b/job/f'' \<and> read_at r' ''/t/t2/copy'' = Inr ''x''"
proof -
  let ?E = "sample_s3 None"
  define up where "up = upload_leaf ?E s3_config ''job'' ''out'' ''/t/t1/f'' ([], two_tasks)"
  have ok: "is_ok (fst up)" "is_ok (fst (provider_download ?E s3_config ''s3://b/job/f'' ''/t/t2/copy'' (snd (snd up))))"
    unfolding up_def by code_simp+
  then obtain v md w' where up: "up = (Inr v, md, w')"
    by (cases up; cases "fst up") auto
  obtain u r' where dn: "provider_download ?E s3_config ''s3://b/job/f'' ''/t/t2/copy'' w' = (Inr u, r')"
    using ok(2) up by (cases "provider_download ?E s3_config ''s3://b/job/f'' ''/t/t2/copy'' w'"; cases "fst (provider_download ?E s3_config ''s3://b/job/f'' ''/t/t2/copy'' w')") auto
  have uri: "result_uri s3_config ''job'' ''/t/t1/f'' = ''s3://b/job/f''" by code_simp
  have h: "se_parse_uri ?E (result_uri s3_config ''job'' ''/t/t1/f'') (Some (cfg_s3_default_bucket s3_config)) = Inr (''b'', ''job/f'', False)"
    "read_at two_tasks ''/t/t1/f'' = Inr ''x''" "starts_with ''/t/t1/f'' (cfg_task_files_dir s3_config)"
    by code_simp+
  have "v = PStr (result_uri s3_config ''job'' ''/t/t1/f'') \<and> read_at r' ''/t/t2/copy'' = Inr ''x''"
    using result_file_round_trip [OF sample_s3_returns h up [unfolded up_def] dn [folded uri] refl] by simp
  then show ?thesis using up up_def dn uri by auto
qed

end
