(* ===== verification/Task_Files.thy ===== *)
theory Task_Files
  imports Blob_Store
begin

text \<open>
  The per-task file helper handed to handlers (\<open>task_files.py\<close>). Files hold bytes; a Python \<open>str\<close> is
  represented by its UTF-8 encoding, the encoding of text files here, and lines end in a line feed
  on disk (POSIX). \<open>dumps\<close> and \<open>loads\<close> stand for orjson's functions of these names. The asynchronous
  and the synchronous variants of a method run the same calls.
\<close>

section \<open>The object\<close>

record task_files =
  tf_task_dir :: string
  tf_job_id :: string
  tf_task_id :: string
  tf_s3_manager :: bool \<comment> \<open>an \<open>S3Manager\<close> was supplied\<close>

definition get_root :: "task_files \<Rightarrow> ('s, string) op" where
  "get_root tf = do_then (fs_do make_dirs (tf_task_dir tf)) (\<lambda>_. return_op (tf_task_dir tf))"

definition path_to :: "task_files \<Rightarrow> string \<Rightarrow> ('s, string) op" where
  "path_to tf filename = do_then (get_root tf) (\<lambda>r. return_op (path_join r filename))"

section \<open>Reading and writing\<close>

text \<open>What is written to a file or read from it: a \<open>str\<close>, by its UTF-8 encoding, or \<open>bytes\<close>.\<close>

datatype file_data = Text (raw_bytes: string) | Bytes (raw_bytes: string)

text \<open>Well-formed UTF-8: no overlong forms, no surrogates, nothing above \<open>U+10FFFF\<close>.\<close>

definition byte_of :: "char \<Rightarrow> nat" where
  "byte_of c = of_char c"

definition continuation :: "char \<Rightarrow> bool" where
  "continuation c = (128 \<le> byte_of c \<and> byte_of c \<le> 191)"

fun utf8_valid :: "string \<Rightarrow> bool" where
  "utf8_valid [] = True"
| "utf8_valid (c # cs) =
     (if byte_of c < 128 then utf8_valid cs
      else if 194 \<le> byte_of c \<and> byte_of c \<le> 223
      then (case cs of c1 # r \<Rightarrow> continuation c1 \<and> utf8_valid r | _ \<Rightarrow> False)
      else if 224 \<le> byte_of c \<and> byte_of c \<le> 239
      then (case cs of
              c1 # c2 # r \<Rightarrow> continuation c1 \<and> continuation c2 \<and> (byte_of c = 224 \<longrightarrow> 160 \<le> byte_of c1) \<and>
                (byte_of c = 237 \<longrightarrow> byte_of c1 \<le> 159) \<and> utf8_valid r
            | _ \<Rightarrow> False)
      else if 240 \<le> byte_of c \<and> byte_of c \<le> 244
      then (case cs of
              c1 # c2 # c3 # r \<Rightarrow> continuation c1 \<and> continuation c2 \<and> continuation c3 \<and>
                (byte_of c = 240 \<longrightarrow> 144 \<le> byte_of c1) \<and> (byte_of c = 244 \<longrightarrow> byte_of c1 \<le> 143) \<and> utf8_valid r
            | _ \<Rightarrow> False)
      else False)"

text \<open>Reading text translates every kind of line end to a line feed.\<close>

fun universal_newlines :: "string \<Rightarrow> string" where
  "universal_newlines [] = []"
| "universal_newlines [c] = [if c = CHR 0x0D then CHR 0x0A else c]"
| "universal_newlines (c # d # cs) =
     (if c \<noteq> CHR 0x0D then c # universal_newlines (d # cs)
      else if d = CHR 0x0A then CHR 0x0A # universal_newlines cs
      else CHR 0x0A # universal_newlines (d # cs))"

text \<open>
  File modes: one of \<open>r w a x\<close>, with \<open>+\<close> for updating, and \<open>b\<close> for bytes instead of text. Opening
  truncates, creates or fails; \<open>read\<close> and \<open>write\<close> then act at the position the mode gives.
\<close>

definition mode_kind :: "string \<Rightarrow> string" where
  "mode_kind m = filter (\<lambda>c. c \<in> set ''rwax'') m"

definition updating :: "string \<Rightarrow> bool" where
  "updating m = (CHR ''+'' \<in> set m)"

definition binary :: "string \<Rightarrow> bool" where
  "binary m = (CHR ''b'' \<in> set m)"

definition valid_mode :: "string \<Rightarrow> bool" where
  "valid_mode m = (set m \<subseteq> set ''rwax+bt'' \<and> distinct m \<and> length (mode_kind m) = 1 \<and>
     \<not> (binary m \<and> CHR ''t'' \<in> set m))"

definition open_effect :: "string \<Rightarrow> path \<Rightarrow> fs \<Rightarrow> fs result" where
  "open_effect m p fs =
     (if \<not> valid_mode m then Inl (ValueError ''invalid mode'')
      else if mode_kind m = ''r'' then and_then (read_file fs p) (\<lambda>_. Inr fs)
      else if mode_kind m = ''w'' then write_file [] p fs
      else if mode_kind m = ''a'' then append_file [] p fs
      else if fs_at fs p \<noteq> None then Inl (OSError ''File exists'')
      else write_file [] p fs)"

text \<open>\<open>UnicodeDecodeError\<close> is a \<open>ValueError\<close>.\<close>

definition decode_error :: pyexn where
  "decode_error = ValueError ''codec cannot decode bytes''"

definition decoded :: "string \<Rightarrow> string \<Rightarrow> file_data result" where
  "decoded m raw =
     (if binary m then Inr (Bytes raw)
      else if utf8_valid raw then Inr (Text (universal_newlines raw))
      else Inl decode_error)"

definition read_opened :: "string \<Rightarrow> fs \<Rightarrow> path \<Rightarrow> file_data result" where
  "read_opened m fs p =
     (if mode_kind m = ''r'' then and_then (read_file fs p) (decoded m)
      else if updating m then decoded m []
      else Inl (OSError ''not readable''))"

text \<open>A text file takes \<open>str\<close> only, a binary one that can be written \<open>bytes\<close> only.\<close>

definition writable :: "string \<Rightarrow> bool" where
  "writable m = (mode_kind m \<noteq> ''r'' \<or> updating m)"

definition encoded :: "string \<Rightarrow> file_data \<Rightarrow> string result" where
  "encoded m data =
     (case data of
        Text s \<Rightarrow>
          if binary m \<and> writable m then Inl (TypeError ''a bytes-like object is required'')
          else if \<not> writable m then Inl (OSError ''not writable'') else Inr s
      | Bytes s \<Rightarrow>
          if \<not> binary m then Inl (TypeError ''write() argument must be str'')
          else if \<not> writable m then Inl (OSError ''not writable'') else Inr s)"

definition write_opened :: "string \<Rightarrow> file_data \<Rightarrow> path \<Rightarrow> fs \<Rightarrow> fs result" where
  "write_opened m data p fs =
     and_then (encoded m data) (\<lambda>content.
       if mode_kind m = ''a'' then append_file content p fs
       else if mode_kind m = ''r'' then write_with (\<lambda>old. content @ drop (length content) old) p fs
       else write_file content p fs)"

text \<open>\<open>TaskFiles.open\<close>: the task root, the file's own directory, then \<open>open\<close> itself.\<close>

definition open_file :: "task_files \<Rightarrow> string \<Rightarrow> string \<Rightarrow> ('s, string) op" where
  "open_file tf filename m =
     do_then (path_to tf filename) (\<lambda>p.
     do_then (if dirname p \<noteq> tf_task_dir tf then fs_do make_dirs (dirname p) else return_op ()) (\<lambda>_.
     do_then (fs_do (open_effect m) p) (\<lambda>_. return_op p)))"

definition read_task_file :: "task_files \<Rightarrow> string \<Rightarrow> string \<Rightarrow> ('s, file_data) op" where
  "read_task_file tf filename m =
     do_then (open_file tf filename m) (\<lambda>p w. (read_opened m (wd_fs w) (resolve (wd_cwd w) p), w))"

definition write_task_file :: "task_files \<Rightarrow> string \<Rightarrow> file_data \<Rightarrow> string \<Rightarrow> ('s, unit) op" where
  "write_task_file tf filename data m =
     do_then (open_file tf filename m) (\<lambda>p. fs_do (write_opened m data) p)"

section \<open>Transfers\<close>

definition no_manager :: pyexn where
  "no_manager = RuntimeError ''S3Manager not configured for this TaskFiles instance.''"

definition upload_file :: "'s s3_env \<Rightarrow> worker_config \<Rightarrow> task_files \<Rightarrow> string \<Rightarrow> ('s, file_metadata) op" where
  "upload_file E cfg tf filename =
     (if \<not> tf_s3_manager tf then of_result (Inl no_manager)
      else do_then (path_to tf filename) (\<lambda>p.
           let uri = result_uri cfg (tf_job_id tf) p
           in do_then (provider_upload E cfg p uri) (\<lambda>etag.
              do_then (\<lambda>w. (get_size (wd_fs w) (resolve (wd_cwd w) p), w)) (\<lambda>n.
                return_op \<lparr>fm_uri = uri, fm_size = Some n, fm_etag = Some etag\<rparr>))))"

definition write_json :: "(pyval \<Rightarrow> string result) \<Rightarrow> 's s3_env \<Rightarrow> worker_config \<Rightarrow> task_files \<Rightarrow> string \<Rightarrow> pyval
    \<Rightarrow> ('s, file_metadata option) op" where
  "write_json dumps E cfg tf filename v =
     do_then (of_result (dumps v)) (\<lambda>content.
     do_then (write_task_file tf filename (Bytes content) ''wb'') (\<lambda>_.
       if tf_s3_manager tf then do_then (upload_file E cfg tf filename) (\<lambda>m. return_op (Some m))
       else return_op None))"

definition read_json :: "(string \<Rightarrow> pyval result) \<Rightarrow> task_files \<Rightarrow> string \<Rightarrow> ('s, pyval) op" where
  "read_json loads tf filename =
     do_then (read_task_file tf filename ''r'') (\<lambda>c. of_result (loads (raw_bytes c)))"

definition upload_dir :: "'s s3_env \<Rightarrow> worker_config \<Rightarrow> task_files \<Rightarrow> string \<Rightarrow> ('s, file_metadata) op" where
  "upload_dir E cfg tf name =
     (if \<not> tf_s3_manager tf then of_result (Inl no_manager)
      else let p = (if name = [] then tf_task_dir tf else path_join (tf_task_dir tf) name)
           in do_then (process_result E cfg (PDict [(''root'', PStr p)]) (tf_job_id tf)) (\<lambda>(_, metadata).
                of_result (case dget metadata ''root'' of Some m \<Rightarrow> Inr m | None \<Rightarrow> Inl (KeyError ''root''))))"

definition download_file :: "'s s3_env \<Rightarrow> worker_config \<Rightarrow> task_files \<Rightarrow> string \<Rightarrow> string \<Rightarrow> file_metadata option
    \<Rightarrow> ('s, string) op" where
  "download_file E cfg tf uri filename verify_meta =
     (if \<not> tf_s3_manager tf then of_result (Inl no_manager)
      else do_then (path_to tf filename) (\<lambda>p.
           do_then (provider_download E cfg uri p) (\<lambda>_.
             case verify_meta of
               None \<Rightarrow> return_op p
             | Some m \<Rightarrow>
                 do_then (\<lambda>w. (get_size (wd_fs w) (resolve (wd_cwd w) p), w)) (\<lambda>actual_size.
                   case fm_size m of
                     Some n \<Rightarrow> if actual_size \<noteq> n then of_result (Inl (ValueError ''Size mismatch'')) else return_op p
                   | None \<Rightarrow> return_op p))))"

definition list_task_files :: "task_files \<Rightarrow> ('s, string list) op" where
  "list_task_files tf =
     do_then (get_root tf) (\<lambda>r w. (list_dir (wd_fs w) (resolve (wd_cwd w) r), w))"

definition exists_task_file :: "task_files \<Rightarrow> string \<Rightarrow> 's world \<Rightarrow> bool" where
  "exists_task_file tf filename w = exists_at w (path_join (tf_task_dir tf) filename)"

section \<open>Lemmas\<close>

text \<open>Directories survive file writes, so making them again changes nothing.\<close>

lemma is_dir_after_write:
  assumes "is_dir_at fs p" and "fs_at fs q \<noteq> Some Dir" and "\<And>t. fs_at fs q \<noteq> Some (Link t)" and "q \<noteq> []"
  shows "is_dir_at (dset q (File c) fs) p"
proof -
  have "deref n fs p = Some r \<Longrightarrow> fs_at fs r = Some Dir \<Longrightarrow>
      deref n (dset q (File c) fs) p = Some r \<and> fs_at (dset q (File c) fs) r = Some Dir" for n r
    using assms(2,3,4)
    by (induction n fs p rule: deref.induct) (auto simp: fs_at_dset split: option.splits node.splits if_splits)
  with assms(1) show ?thesis
    by (auto simp: is_dir_at_def split: option.splits)
qed

lemma deref_dir_added:
  assumes "fs_at fs q = None" and "q \<noteq> []" and "deref n fs p = Some r" and "fs_at fs r = Some Dir"
  shows "deref n (dset q Dir fs) p = Some r \<and> fs_at (dset q Dir fs) r = Some Dir"
  using assms
  by (induction n fs p rule: deref.induct) (auto simp: fs_at_dset split: option.splits node.splits if_splits)

lemma is_dir_added:
  "is_dir_at fs p \<Longrightarrow> fs_at fs q = None \<Longrightarrow> q \<noteq> [] \<Longrightarrow> is_dir_at (dset q Dir fs) p"
  using deref_dir_added [of fs q max_links p] by (auto simp: is_dir_at_def split: option.splits)

lemma is_dir_new: "q \<noteq> [] \<Longrightarrow> is_dir_at (dset q Dir fs) q"
  using deref_id [of "dset q Dir fs" q] by (simp add: is_dir_at_def fs_at_dset)

lemma make_dirs_below_keeps_dirs:
  assumes "make_dirs_below d cs fs = Inr fs'" and "is_dir_at fs p"
  shows "is_dir_at fs' p"
  using assms by (induction d cs fs rule: make_dirs_below.induct) (auto simp: is_dir_added split: if_splits)

lemma make_dirs_below_all:
  assumes "make_dirs_below d cs fs = Inr fs'"
  shows "list_all (\<lambda>n. is_dir_at fs' (d @ take (Suc n) cs)) [0..<length cs]"
  using assms
proof (induction d cs fs rule: make_dirs_below.induct)
  case (2 d c cs fs)
  have "is_dir_at fs' (d @ [c])"
    using 2(3) by (auto split: if_splits intro: make_dirs_below_keeps_dirs is_dir_new)
  moreover have "list_all (\<lambda>n. is_dir_at fs' (d @ c # take (Suc n) cs)) [0..<length cs]"
    using 2 by (auto split: if_splits)
  ultimately show ?case
    by (simp add: list_all_iff upt_conv_Cons del: upt_Suc) (auto simp: image_iff less_Suc_eq_0_disj)
qed simp

lemma make_dirs_below_again:
  assumes "list_all (\<lambda>n. is_dir_at fs (d @ take (Suc n) cs)) [0..<length cs]"
  shows "make_dirs_below d cs fs = Inr fs"
  using assms
proof (induction d cs fs rule: make_dirs_below.induct)
  case (2 d c cs fs)
  have "\<forall>n \<in> {0..<length (c # cs)}. is_dir_at fs (d @ take (Suc n) (c # cs))"
    using 2(3) by (simp only: list_all_iff set_upt)
  from bspec [OF this, of 0] have "is_dir_at fs (d @ [c])" by simp
  moreover have "list_all (\<lambda>n. is_dir_at fs ((d @ [c]) @ take (Suc n) cs)) [0..<length cs]"
    using 2(3) by (auto simp: list_all_iff)
  ultimately show ?case using 2(1) by simp
qed simp

definition dirs_made :: "path \<Rightarrow> fs \<Rightarrow> bool" where
  "dirs_made p fs = list_all (\<lambda>n. is_dir_at fs (take (Suc n) p)) [0..<length p]"

lemma make_dirs_made: "make_dirs p fs = Inr fs' \<Longrightarrow> dirs_made p fs'"
  using make_dirs_below_all [of "[]"] by (simp add: make_dirs_def dirs_made_def)

lemma make_dirs_again: "dirs_made p fs \<Longrightarrow> make_dirs p fs = Inr fs"
  using make_dirs_below_again [of fs "[]"] by (simp add: make_dirs_def dirs_made_def)

lemma make_dirs_keeps_made: "make_dirs p fs = Inr fs' \<Longrightarrow> dirs_made q fs \<Longrightarrow> dirs_made q fs'"
  by (auto simp: dirs_made_def make_dirs_def list_all_iff intro: make_dirs_below_keeps_dirs)

lemma write_keeps_made:
  assumes "write_with u p fs = Inr fs'" and "dirs_made q fs"
  shows "dirs_made q fs'"
  using assms(1)
proof (rule write_with_target)
  fix r c
  assume r: "deref max_links fs p = Some r" "r \<noteq> []" "fs' = dset r (File (u c)) fs"
    "fs_at fs r = Some (File c) \<or> fs_at fs r = None \<and> c = []"
  then have "is_dir_at fs x \<Longrightarrow> is_dir_at fs' x" for x
    using is_dir_after_write [of fs x r "u c"] by auto
  with assms(2) show ?thesis by (auto simp: dirs_made_def list_all_iff)
qed

section \<open>Properties\<close>

lemma path_to_Inr:
  assumes "path_to tf f w = (Inr p, w')"
  obtains fs where "p = path_join (tf_task_dir tf) f" and "w' = w\<lparr>wd_fs := fs\<rparr>"
    and "make_dirs (resolve (wd_cwd w) (tf_task_dir tf)) (wd_fs w) = Inr fs"
  using assms
  by (auto simp: path_to_def get_root_def return_op_def elim!: do_then_Inr fs_do_Inr)

lemma open_file_Inr:
  assumes "open_file tf f m w = (Inr p, w')"
  obtains fs fs' where "p = path_join (tf_task_dir tf) f" and "w' = w\<lparr>wd_fs := fs'\<rparr>"
    and "open_effect m (resolve (wd_cwd w) p) fs = Inr fs'"
    and "dirs_made (resolve (wd_cwd w) (tf_task_dir tf)) fs"
    and "dirname p \<noteq> tf_task_dir tf \<longrightarrow> dirs_made (resolve (wd_cwd w) (dirname p)) fs"
proof -
  from assms obtain q w1 w2 where
    w1: "path_to tf f w = (Inr q, w1)" and
    w2: "(if dirname q \<noteq> tf_task_dir tf then fs_do make_dirs (dirname q) else return_op ()) w1 = (Inr (), w2)" and
    w3: "fs_do (open_effect m) q w2 = (Inr (), w')" "p = q"
    unfolding open_file_def by (auto simp: return_op_def elim!: do_then_Inr)
  obtain fs1 where fs1: "q = path_join (tf_task_dir tf) f" "w1 = w\<lparr>wd_fs := fs1\<rparr>"
    "make_dirs (resolve (wd_cwd w) (tf_task_dir tf)) (wd_fs w) = Inr fs1"
    using w1 by (rule path_to_Inr)
  note made1 = make_dirs_made [OF fs1(3)]
  obtain fs2 where fs2: "w2 = w\<lparr>wd_fs := fs2\<rparr>" "dirs_made (resolve (wd_cwd w) (tf_task_dir tf)) fs2"
    "dirname p \<noteq> tf_task_dir tf \<longrightarrow> dirs_made (resolve (wd_cwd w) (dirname p)) fs2"
  proof (cases "dirname q = tf_task_dir tf")
    case True
    with w2 fs1(2) made1 w3(2) show ?thesis by (intro that [of fs1]) (simp_all add: return_op_def)
  next
    case False
    with w2 obtain fs where fs: "make_dirs (resolve (wd_cwd w1) (dirname q)) (wd_fs w1) = Inr fs" "w2 = w1\<lparr>wd_fs := fs\<rparr>"
      by (auto elim: fs_do_Inr)
    with fs1(2) made1 w3(2) make_dirs_made make_dirs_keeps_made show ?thesis
      by (intro that [of fs]) auto
  qed
  from w3(1) obtain fs3 where "open_effect m (resolve (wd_cwd w2) q) (wd_fs w2) = Inr fs3" "w' = w2\<lparr>wd_fs := fs3\<rparr>"
    by (rule fs_do_Inr)
  with fs1(1) fs2 w3(2) show thesis by (intro that [of fs3 fs2]) simp_all
qed

text \<open>Opening for reading what has just been written, with every directory already there.\<close>

lemma read_after:
  assumes "dirs_made (resolve (wd_cwd w) (tf_task_dir tf)) (wd_fs w)"
    and "dirname p \<noteq> tf_task_dir tf \<Longrightarrow> dirs_made (resolve (wd_cwd w) (dirname p)) (wd_fs w)"
    and "p = path_join (tf_task_dir tf) f"
    and "read_file (wd_fs w) (resolve (wd_cwd w) p) = Inr c" and "mode_kind m = ''r''" and "valid_mode m"
  shows "read_task_file tf f m w = (decoded m c, w)"
  using assms make_dirs_again
  by (simp add: read_task_file_def open_file_def path_to_def get_root_def return_op_def do_then_def fs_do_def
      open_effect_def read_opened_def)

lemma write_file_keeps_made: "write_file c p fs = Inr fs' \<Longrightarrow> dirs_made q fs \<Longrightarrow> dirs_made q fs'"
  unfolding write_file_def by (rule write_keeps_made)

lemma write_then_read:
  assumes "write_task_file tf f c m w = (Inr u, w')" and "mode_kind m = ''w''"
    and "mode_kind m' = ''r''" and "valid_mode m'"
  shows "read_task_file tf f m' w' = (decoded m' (raw_bytes c), w')"
proof -
  from assms(1) obtain p w1 where w1: "open_file tf f m w = (Inr p, w1)" "fs_do (write_opened m c) p w1 = (Inr u, w')"
    unfolding write_task_file_def by (rule do_then_Inr)
  from w1(1) obtain fs fs1 where p: "p = path_join (tf_task_dir tf) f" and w1': "w1 = w\<lparr>wd_fs := fs1\<rparr>"
    and op: "open_effect m (resolve (wd_cwd w) p) fs = Inr fs1"
    and made: "dirs_made (resolve (wd_cwd w) (tf_task_dir tf)) fs"
      "dirname p \<noteq> tf_task_dir tf \<longrightarrow> dirs_made (resolve (wd_cwd w) (dirname p)) fs"
    by (rule open_file_Inr)
  have trunc: "write_file [] (resolve (wd_cwd w) p) fs = Inr fs1"
    using op assms(2) by (simp add: open_effect_def split: if_splits)
  have enc: "encoded m c = Inr x \<Longrightarrow> x = raw_bytes c" for x
    by (cases c) (auto simp: encoded_def split: if_splits)
  obtain fs2 where fs2: "write_file (raw_bytes c) (resolve (wd_cwd w) p) fs1 = Inr fs2" "w' = w\<lparr>wd_fs := fs2\<rparr>"
    using w1(2) w1' assms(2) enc by (auto simp: write_opened_def and_then_Inr_iff elim!: fs_do_Inr)
  have keep: "dirs_made q fs \<Longrightarrow> dirs_made q fs2" for q
    using write_file_keeps_made [OF trunc] write_file_keeps_made [OF fs2(1)] by blast
  show ?thesis
    using write_read [OF fs2(1)] fs2(2) p assms(3,4) made keep
    by (intro read_after [of _ _ p]) auto
qed

lemma no_carriage_returns: "CHR 0x0D \<notin> set s \<Longrightarrow> universal_newlines s = s"
  by (induction s rule: universal_newlines.induct) auto

lemma newlines_normal: "CHR 0x0D \<notin> set (universal_newlines s)"
  by (induction s rule: universal_newlines.induct) auto

lemma plain_modes:
  "mode_kind ''r'' = ''r''" "mode_kind ''rb'' = ''r''" "mode_kind ''w'' = ''w''" "mode_kind ''wb'' = ''w''"
  "valid_mode ''r''" "valid_mode ''rb''" "\<not> binary ''r''" "binary ''rb''"
  by (simp_all add: mode_kind_def valid_mode_def binary_def)

text \<open>
  C37: Task files round trip: once a write has succeeded, as text or as bytes and whatever directories
  the name goes through, reading the same name as bytes returns exactly the bytes written and
  changes nothing. Read as text they come back with their line ends normalised, unchanged if they hold
  no carriage return, and are refused just if they are not UTF-8.
\<close>

theorem task_file_round_trip:
  assumes "write_task_file tf f data m w = (Inr u, w')" and "m \<in> {''w'', ''wb''}"
  shows "read_task_file tf f ''rb'' w' = (Inr (Bytes (raw_bytes data)), w') \<and>
    read_task_file tf f ''r'' w' =
      (if \<not> utf8_valid (raw_bytes data) then Inl decode_error
       else if CHR 0x0D \<in> set (raw_bytes data) then Inr (Text (universal_newlines (raw_bytes data)))
       else Inr (Text (raw_bytes data)), w')"
  using write_then_read [OF assms(1)] assms(2) plain_modes
  by (auto simp: decoded_def no_carriage_returns)

definition sample_files :: task_files where
  "sample_files = \<lparr>tf_task_dir = ''/t/t1'', tf_job_id = ''job'', tf_task_id = ''t1'', tf_s3_manager = True\<rparr>"

lemma is_ok_Inr: "is_ok (fst m) \<Longrightarrow> \<exists>x w. m = (Inr x, w)"
  by (cases m; cases "fst m") auto

theorem task_file_round_trip_witness:
  "\<exists>w'. write_task_file sample_files ''out/a.txt'' (Text ''hi'') ''w'' sample_world = (Inr (), w') \<and>
     read_task_file sample_files ''out/a.txt'' ''r'' w' = (Inr (Text ''hi''), w')"
proof -
  have "is_ok (fst (write_task_file sample_files ''out/a.txt'' (Text ''hi'') ''w'' sample_world))" by code_simp
  then obtain u w' where w: "write_task_file sample_files ''out/a.txt'' (Text ''hi'') ''w'' sample_world = (Inr u, w')"
    using is_ok_Inr by blast
  have "utf8_valid ''hi''" by code_simp
  with task_file_round_trip [OF w] w show ?thesis by auto
qed

text \<open>
  Text does not survive in general: a carriage return written as text is read back as a line feed.
\<close>

theorem text_carriage_return_lost:
  "case write_task_file sample_files ''a.txt'' (Text [CHR ''a'', CHR 0x0D, CHR ''b'']) ''w'' sample_world of
     (Inr _, w') \<Rightarrow> fst (read_task_file sample_files ''a.txt'' ''r'' w') = Inr (Text [CHR ''a'', CHR 0x0A, CHR ''b''])
   | _ \<Rightarrow> False"
  by code_simp

text \<open>
  JSON round trip: after \<open>write_json\<close> succeeds without an S3 manager, \<open>read_json\<close> returns the
  value, given that \<open>loads\<close> undoes \<open>dumps\<close> and that the JSON text is UTF-8 with its control characters
  escaped.
\<close>

theorem json_round_trip:
  assumes "write_json dumps E cfg tf f v w = (Inr r, w')" and "\<not> tf_s3_manager tf"
    and "case dumps v of Inl e \<Rightarrow> True | Inr c \<Rightarrow> loads c = Inr v \<and> utf8_valid c \<and> CHR 0x0D \<notin> set c"
  shows "read_json loads tf f w' = (Inr v, w') \<and> r = None"
proof -
  from assms(1,2) obtain c where c: "dumps v = Inr c" "write_task_file tf f (Bytes c) ''wb'' w = (Inr (), w')" "r = None"
    by (auto simp: write_json_def of_result_def return_op_def elim!: do_then_Inr)
  have "read_task_file tf f ''r'' w' = (Inr (Text c), w')"
    using write_then_read [OF c(2)] c(1) assms(3) plain_modes by (simp add: decoded_def no_carriage_returns)
  with c(1,3) assms(3) show ?thesis by (simp add: read_json_def do_then_def of_result_def)
qed

theorem json_round_trip_witness:
  "\<exists>w'. read_json (\<lambda>c. Inr (PStr (tl c))) (sample_files\<lparr>tf_s3_manager := False\<rparr>) ''a.json'' (w' :: memory world) = (Inr (PStr ''x''), w')"
proof -
  let ?tf = "sample_files\<lparr>tf_s3_manager := False\<rparr>"
    and ?d = "\<lambda>v. Inr (case v of PStr s \<Rightarrow> CHR ''!'' # s | _ \<Rightarrow> ''?'')"
  have "is_ok (fst (write_json ?d (sample_s3 None) s3_config ?tf ''a.json'' (PStr ''x'') sample_world))" by code_simp
  then obtain r w' where "write_json ?d (sample_s3 None) s3_config ?tf ''a.json'' (PStr ''x'') sample_world = (Inr r, w')"
    using is_ok_Inr by blast
  then have "read_json (\<lambda>c. Inr (PStr (tl c))) ?tf ''a.json'' w' = (Inr (PStr ''x''), w') \<and> r = None"
    by (rule json_round_trip) (simp_all add: byte_of_def)
  then show ?thesis by blast
qed

text \<open>Relative names that never step up.\<close>

definition descends :: "string \<Rightarrow> bool" where
  "descends f = (\<not> starts_with f ''/'' \<and> ''..'' \<notin> set (split_on slash f))"

lemma resolve_onto_descends:
  "''..'' \<notin> set cs \<Longrightarrow> resolve_onto acc cs = rev acc @ filter (\<lambda>c. c \<noteq> [] \<and> c \<noteq> ''.'') cs"
  by (induction acc cs rule: resolve_onto.induct) auto

text \<open>
  C40: The workspace is isolated for relative names without \<open>..\<close>: the path a handler gets for such
  a name lies in the task's directory.
\<close>

theorem path_to_contained:
  assumes "descends f" and "path_to tf f w = (Inr p, w')"
  shows "below (resolve (wd_cwd w) (tf_task_dir tf)) (resolve (wd_cwd w') p)"
  using assms(2)
proof (rule path_to_Inr)
  fix fs assume p: "p = path_join (tf_task_dir tf) f" "w' = w\<lparr>wd_fs := fs\<rparr>"
  have "resolve (wd_cwd w) p = resolve (wd_cwd w) (tf_task_dir tf) @ filter (\<lambda>c. c \<noteq> [] \<and> c \<noteq> ''.'') (split_on slash f)"
    using assms(1) p(1) by (simp add: descends_def resolve_path_join resolve_onto_descends)
  with p(2) show ?thesis by (simp add: below_def)
qed

theorem path_to_contained_witness:
  "\<exists>p w'. path_to sample_files ''a/./b'' sample_world = (Inr p, w') \<and> below [''t'', ''t1''] (resolve (wd_cwd w') p)"
proof -
  have "is_ok (fst (path_to sample_files ''a/./b'' sample_world))" by code_simp
  then obtain p w' where p: "path_to sample_files ''a/./b'' sample_world = (Inr p, w')" using is_ok_Inr by blast
  have d: "descends ''a/./b''" "resolve (wd_cwd sample_world) (tf_task_dir sample_files) = [''t'', ''t1'']"
    by code_simp+
  with path_to_contained [OF d(1) p] p show ?thesis by auto
qed

text \<open>
  Other names leave the workspace: an absolute name, or one with \<open>..\<close>, reaches files outside
  the task's directory through \<open>read\<close>.
\<close>

theorem path_to_escapes:
  "fst (read_task_file sample_files ''/etc/k'' ''r'' two_tasks) = Inr (Text ''z'') \<and>
   fst (read_task_file sample_files ''../t2/g'' ''r'' two_tasks) = Inr (Text ''y'')"
  by code_simp

lemma upload_leaf_result:
  assumes "upload_leaf E cfg pre key item ([], w) = (Inr v, md, w')" and "dget md key \<noteq> None"
  shows "is_ok (read_at w item)"
proof (rule ccontr)
  assume no: "\<not> is_ok (read_at w item)"
  let ?w0 = "w\<lparr>wd_active_ops := wd_active_ops w + 1\<rparr>" and ?uri = "result_uri cfg pre item"
  have "is_ok (fst (upload_one E cfg item ?uri ?w0))"
    using assms by (auto simp: upload_leaf_def Let_def counted_def split: if_splits sum.splits prod.splits)
  then obtain m w1 where "upload_one E cfg item ?uri ?w0 = (Inr m, w1)" using is_ok_Inr by blast
  then obtain e w2 where up: "provider_upload E cfg item ?uri ?w0 = (Inr e, w2)"
    unfolding upload_one_def by (rule do_then_Inr) blast
  obtain b k d where uri: "se_parse_uri E ?uri (Some (cfg_s3_default_bucket cfg)) = Inr (b, k, d)"
    using up by (auto simp: provider_upload_def with_object_def do_then_def of_result_def split: sum.splits prod.splits)
  from up uri no show False
    unfolding provider_upload_def
    by (rule_tac with_object_Inr) (auto simp: read_at_def split: sum.splits)
qed

text \<open>
  \<open>upload_dir\<close> never uploads a directory: it returns only when the path it is given can be read
  as a regular file; for a directory it raises.
\<close>

theorem upload_dir_only_files:
  assumes "upload_dir E cfg tf name w = (Inr m, w')"
  shows "is_ok (read_at w (if name = [] then tf_task_dir tf else path_join (tf_task_dir tf) name))"
proof -
  let ?p = "if name = [] then tf_task_dir tf else path_join (tf_task_dir tf) name"
  obtain v md where r: "process_result E cfg (PDict [(''root'', PStr ?p)]) (tf_job_id tf) w = (Inr (v, md), w')"
    "dget md ''root'' = Some m"
    using assms
    by (auto simp: upload_dir_def of_result_def Let_def elim!: do_then_Inr split: if_splits option.splits)
  have "walk (upload_leaf E cfg (tf_job_id tf)) [] (PDict [(''root'', PStr ?p)]) ([], w) = (Inr v, md, w')"
    using r by (auto simp: process_result_def split: if_splits prod.splits sum.splits)
  then obtain v' where "upload_leaf E cfg (tf_job_id tf) ''root'' ?p ([], w) = (Inr v', md, w')"
    by (auto simp: return_op_def sub_key_def elim!: do_then_Inr)
  then show ?thesis using upload_leaf_result [of E cfg] r(2) by blast
qed

theorem upload_dir_only_files_witness:
  "\<exists>m w'. upload_dir (sample_s3 None) s3_config sample_files ''f'' two_tasks = (Inr m, w') \<and>
     is_ok (read_at two_tasks ''/t/t1/f'') \<and>
     fst (upload_dir (sample_s3 None) s3_config sample_files [] two_tasks) = Inl (OSError ''Is a directory'')"
proof -
  have "is_ok (fst (upload_dir (sample_s3 None) s3_config sample_files ''f'' two_tasks))"
    and d: "fst (upload_dir (sample_s3 None) s3_config sample_files [] two_tasks) = Inl (OSError ''Is a directory'')"
    and p: "path_join (tf_task_dir sample_files) ''f'' = ''/t/t1/f''"
    by code_simp+
  then obtain m w' where "upload_dir (sample_s3 None) s3_config sample_files ''f'' two_tasks = (Inr m, w')"
    using is_ok_Inr by blast
  with upload_dir_only_files [OF this] d p show ?thesis by auto
qed

text \<open>
  A verified download delivers a file of the announced size: when metadata with a size are
  given, \<open>download_file\<close> returns only if the file on disk has that size.
\<close>

theorem download_file_verified:
  assumes "download_file E cfg tf uri f (Some m) w = (Inr p, w')" and "fm_size m = Some n"
  shows "p = path_join (tf_task_dir tf) f \<and> get_size (wd_fs w') (resolve (wd_cwd w') p) = Inr n"
  using assms
  by (auto simp: download_file_def of_result_def return_op_def
      elim!: do_then_Inr path_to_Inr split: if_splits)

theorem download_file_verified_witness:
  "\<exists>w'. download_file (sample_s3 None) s3_config sample_files ''s3://b/x/f'' ''g''
       (Some \<lparr>fm_uri = ''u'', fm_size = Some 3, fm_etag = None\<rparr>) sample_world = (Inr ''/t/t1/g'', w') \<and>
     get_size (wd_fs w') (resolve (wd_cwd w') ''/t/t1/g'') = Inr 3"
proof -
  let ?m = "\<lparr>fm_uri = ''u'', fm_size = Some 3, fm_etag = None\<rparr>"
  have "is_ok (fst (download_file (sample_s3 None) s3_config sample_files ''s3://b/x/f'' ''g'' (Some ?m) sample_world))"
    by code_simp
  then obtain p w' where p: "download_file (sample_s3 None) s3_config sample_files ''s3://b/x/f'' ''g'' (Some ?m) sample_world = (Inr p, w')"
    using is_ok_Inr by blast
  have "path_join (tf_task_dir sample_files) ''g'' = ''/t/t1/g''" by code_simp
  with download_file_verified [OF p, of 3] p show ?thesis by auto
qed

end
