(* ===== verification/Observability.thy ===== *)
theory Observability
  imports Py_Value
begin

text \<open>
  Metrics and traces (\<open>observability.py\<close>). What of OpenTelemetry is importable is a parameter; its
  objects are represented by the calls made on them, recorded in order.
\<close>

section \<open>State\<close>

record otel =
  ot_installed :: bool \<comment> \<open>\<open>_HAS_OTEL\<close>\<close>
  ot_tracer_sdk :: bool \<comment> \<open>\<open>TracerProvider\<close> is there\<close>
  ot_metric_sdk :: bool \<comment> \<open>\<open>PeriodicExportingMetricReader\<close> is there\<close>
  ot_otlp :: bool \<comment> \<open>the OTLP exporters are there\<close>
  ot_endpoint :: "string option" \<comment> \<open>\<open>OTEL_EXPORTER_OTLP_ENDPOINT\<close>\<close>
  ot_extract :: "(string, pyval) dict \<Rightarrow> pyval" \<comment> \<open>\<open>propagate.extract\<close>\<close>

datatype exporter = OTLPExporter string | ConsoleExporter

record metric_point =
  mp_instrument :: string
  mp_value :: pyval
  mp_labels :: "(string, pyval) dict"

record span =
  sp_name :: string
  sp_context :: pyval
  sp_attributes :: "(string, pyval) dict"
  sp_error :: "string option"

record observability =
  ob_enabled :: bool
  ob_resource :: "(string, pyval) dict"
  ob_tracer :: "exporter option" \<comment> \<open>the tracer provider, where there is one\<close>
  ob_meter :: "exporter option"
  ob_points :: "metric_point list"
  ob_closed :: "string list" \<comment> \<open>providers on which \<open>shutdown\<close> was called\<close>

definition choose_exporter :: "otel \<Rightarrow> exporter" where
  "choose_exporter ot =
     (case ot_endpoint ot of
        Some e \<Rightarrow> if e \<noteq> [] \<and> ot_otlp ot then OTLPExporter e else ConsoleExporter
      | None \<Rightarrow> ConsoleExporter)"

definition observability_init ::
  "otel \<Rightarrow> bool \<Rightarrow> string \<Rightarrow> string option \<Rightarrow> string option \<Rightarrow> string option \<Rightarrow> observability" where
  "observability_init ot enabled service_name worker_id worker_type version =
     (if enabled \<and> ot_installed ot
      then \<lparr>ob_enabled = True,
            ob_resource = [(''service.name'', PStr service_name),
              (''service.instance.id'', PStr (str_or worker_id ''unknown'')),
              (''worker.type'', PStr (str_or worker_type ''unknown'')),
              (''worker.version'', PStr (str_or version ''unknown''))],
            ob_tracer = (if ot_tracer_sdk ot then Some (choose_exporter ot) else None),
            ob_meter = (if ot_metric_sdk ot then Some (choose_exporter ot) else None),
            ob_points = [], ob_closed = []\<rparr>
      else \<lparr>ob_enabled = False, ob_resource = [], ob_tracer = None, ob_meter = None,
            ob_points = [], ob_closed = []\<rparr>)"

section \<open>Spans and metrics\<close>

definition tracing :: "observability \<Rightarrow> bool" where
  "tracing ob = (ob_enabled ob \<and> ob_tracer ob \<noteq> None)"

definition metering :: "observability \<Rightarrow> bool" where
  "metering ob = (ob_enabled ob \<and> ob_meter ob \<noteq> None)"

definition start_task_span ::
  "otel \<Rightarrow> observability \<Rightarrow> string \<Rightarrow> string \<Rightarrow> string \<Rightarrow> (string, pyval) dict option \<Rightarrow> int \<Rightarrow> int
    \<Rightarrow> string option \<Rightarrow> span option" where
  "start_task_span ot ob task_type task_id job_id parent_context step depth parent_hash =
     (if \<not> tracing ob then None
      else Some \<lparr>sp_name = ''task.'' @ task_type,
        sp_context = (case parent_context of
            None \<Rightarrow> PNone
          | Some d \<Rightarrow> if d = [] then PNone else ot_extract ot d),
        sp_attributes = [(''task.id'', PStr task_id), (''job.id'', PStr job_id), (''task.type'', PStr task_type),
            (''task.step'', PInt step), (''task.depth'', PInt depth)] @
          (case parent_hash of None \<Rightarrow> [] | Some h \<Rightarrow> if h = [] then [] else [(''task.parent_hash'', PStr h)]),
        sp_error = None\<rparr>)"

definition start_s3_span :: "observability \<Rightarrow> string \<Rightarrow> string \<Rightarrow> span option" where
  "start_s3_span ob op uri =
     (if \<not> tracing ob then None
      else Some \<lparr>sp_name = ''s3.'' @ op, sp_context = PNone,
             sp_attributes = [(''s3.uri'', PStr uri), (''s3.operation'', PStr op)], sp_error = None\<rparr>)"

definition record_task_finished :: "string \<Rightarrow> pyval \<Rightarrow> pyfloat \<Rightarrow> observability \<Rightarrow> observability" where
  "record_task_finished task_type status duration ob =
     (if \<not> metering ob then ob
      else ob\<lparr>ob_points := ob_points ob @
        [\<lparr>mp_instrument = ''worker.tasks.total'', mp_value = PInt 1,
          mp_labels = [(''task.type'', PStr task_type), (''status'', status)]\<rparr>,
         \<lparr>mp_instrument = ''worker.tasks.duration'', mp_value = PFloat duration,
          mp_labels = [(''task.type'', PStr task_type)]\<rparr>]\<rparr>)"

definition record_s3_metric :: "string \<Rightarrow> string \<Rightarrow> observability \<Rightarrow> observability" where
  "record_s3_metric op status ob =
     (if \<not> metering ob then ob
      else ob\<lparr>ob_points := ob_points ob @
        [\<lparr>mp_instrument = ''worker.s3.operations.total'', mp_value = PInt 1,
          mp_labels = [(''s3.operation'', PStr op), (''status'', PStr status)]\<rparr>]\<rparr>)"

definition set_span_status_error :: "observability \<Rightarrow> string \<Rightarrow> span option \<Rightarrow> span option" where
  "set_span_status_error ob message sp =
     (if \<not> ob_enabled ob then sp else map_option (\<lambda>s. s\<lparr>sp_error := Some message\<rparr>) sp)"

text \<open>
  \<open>shutdown\<close>: \<open>outcome\<close> is what each provider's own \<open>shutdown\<close> does; only an \<open>Exception\<close> is caught.
\<close>

definition close_provider :: "(string \<Rightarrow> pyexn option) \<Rightarrow> string \<Rightarrow> observability \<Rightarrow> unit result \<times> observability" where
  "close_provider outcome name ob =
     (let ob = ob\<lparr>ob_closed := ob_closed ob @ [name]\<rparr>
      in case outcome name of
           Some e \<Rightarrow> (if is_exception e then Inr () else Inl e, ob)
         | None \<Rightarrow> (Inr (), ob))"

definition observability_shutdown :: "(string \<Rightarrow> pyexn option) \<Rightarrow> observability \<Rightarrow> unit result \<times> observability" where
  "observability_shutdown outcome ob =
     (if \<not> ob_enabled ob then (Inr (), ob)
      else (case (if ob_tracer ob \<noteq> None then close_provider outcome ''tracer'' ob else (Inr (), ob)) of
              (Inl e, ob) \<Rightarrow> (Inl e, ob)
            | (Inr _, ob) \<Rightarrow>
                if ob_meter ob \<noteq> None then close_provider outcome ''meter'' ob else (Inr (), ob)))"

section \<open>Properties\<close>

text \<open>
  Without OpenTelemetry, or when switched off, the manager is a no-op: no spans, no metric
  points, nothing to close.
\<close>

theorem observability_noop:
  assumes "ob = observability_init ot enabled sv wid wty ver" and "\<not> enabled \<or> \<not> ot_installed ot"
  shows "start_task_span ot ob ty tid jid ctx st dp ph = None \<and> start_s3_span ob op uri = None \<and>
    record_task_finished ty stat dur ob = ob \<and> record_s3_metric op s ob = ob \<and>
    observability_shutdown outcome ob = (Inr (), ob)"
  using assms
  by (auto simp: observability_init_def start_task_span_def start_s3_span_def record_task_finished_def
      record_s3_metric_def observability_shutdown_def tracing_def metering_def)

definition sample_otel :: otel where
  "sample_otel = \<lparr>ot_installed = True, ot_tracer_sdk = True, ot_metric_sdk = True, ot_otlp = False,
     ot_endpoint = Some ''http://collector'', ot_extract = (\<lambda>d. PDict d)\<rparr>"

theorem observability_noop_witness:
  "start_s3_span (observability_init sample_otel False ''svc'' None None None) ''upload'' ''s3://b/k'' = None"
  using observability_noop [OF refl, of False sample_otel] by simp

text \<open>
  Shutdown closes both providers even when closing the first one fails: with tracing and
  metering on, both are closed, in this order, and no \<open>Exception\<close> escapes.
\<close>

theorem shutdown_closes_both:
  assumes "ob_enabled ob" and "ob_tracer ob \<noteq> None" and "ob_meter ob \<noteq> None"
    and "list_all (\<lambda>n. case outcome n of None \<Rightarrow> True | Some e \<Rightarrow> is_exception e) [''tracer'', ''meter'']"
  shows "observability_shutdown outcome ob = (Inr (), ob\<lparr>ob_closed := ob_closed ob @ [''tracer'', ''meter'']\<rparr>)"
  using assms by (auto simp: observability_shutdown_def close_provider_def Let_def split: option.splits)

theorem shutdown_closes_both_witness:
  "ob_closed (snd (observability_shutdown (\<lambda>n. Some (RuntimeError n))
     (observability_init sample_otel True ''svc'' None None None))) = [''tracer'', ''meter'']"
proof -
  let ?ob = "observability_init sample_otel True ''svc'' None None None"
  have "ob_enabled ?ob" "ob_tracer ?ob \<noteq> None" "ob_meter ?ob \<noteq> None" "ob_closed ?ob = []"
    by (simp_all add: observability_init_def sample_otel_def)
  with shutdown_closes_both [of ?ob "\<lambda>n. Some (RuntimeError n)"] show ?thesis
    by (simp add: is_exception_def)
qed

end
