(* ===== verification/Log_Context.thy ===== *)
theory Log_Context
  imports Py_Value
begin

text \<open>
  The log context (\<open>logging.py\<close>): one process-wide dictionary that a filter copies onto every log
  record, and the set-up of the root logger. Handlers are identified by numbers.
\<close>

type_synonym log_context = "(string, pyval) dict"

type_synonym log_record = "(string, pyval) dict"

section \<open>Context\<close>

definition set_context :: "(string, pyval) dict \<Rightarrow> log_context \<Rightarrow> log_context" where
  "set_context kwargs ctx = dmerge ctx kwargs"

definition clear_context :: "string list \<Rightarrow> log_context \<Rightarrow> log_context" where
  "clear_context ks ctx = (if ks = [] then [] else foldl (\<lambda>c k. dpop k c) ctx ks)"

text \<open>\<open>ContextFilter.filter\<close> sets one attribute per entry and lets the record through.\<close>

definition context_filter :: "log_context \<Rightarrow> log_record \<Rightarrow> log_record \<times> bool" where
  "context_filter ctx r = (dmerge r ctx, True)"

section \<open>Set-up\<close>

datatype log_format = JsonFormat | TextFormat

record log_handler =
  lh_id :: nat
  lh_format :: log_format
  lh_filtered :: bool \<comment> \<open>carries the context filter\<close>

record logging_state =
  lg_handlers :: "log_handler list"
  lg_level :: string
  lg_context :: log_context

definition upper :: "string \<Rightarrow> string" where
  "upper s = map (\<lambda>c. let n = of_char c in if 97 \<le> n \<and> n \<le> (122 :: nat) then char_of (n - 32) else c) s"

text \<open>\<open>valid_level\<close> is the level check of \<open>setLevel\<close>, which raises after the handlers changed.\<close>

definition setup_logging ::
  "(string \<Rightarrow> bool) \<Rightarrow> string option \<Rightarrow> string option \<Rightarrow> nat \<Rightarrow> string option \<Rightarrow> logging_state
    \<Rightarrow> unit result \<times> logging_state" where
  "setup_logging valid_level env_level env_format new_id worker_id st =
     (let level = upper (case env_level of Some l \<Rightarrow> l | None \<Rightarrow> ''INFO'');
          fmt = (if lower (case env_format of Some f \<Rightarrow> f | None \<Rightarrow> ''text'') = ''json'' then JsonFormat else TextFormat);
          st = st\<lparr>lg_handlers := [\<lparr>lh_id = new_id, lh_format = fmt, lh_filtered = True\<rparr>]\<rparr>
      in if \<not> valid_level level then (Inl (ValueError ''Unknown level''), st)
         else (let st = st\<lparr>lg_level := level\<rparr>
               in (Inr (), case worker_id of
                     None \<Rightarrow> st
                   | Some w \<Rightarrow> if w = [] then st
                       else st\<lparr>lg_context := set_context [(''worker_id'', PStr w)] (lg_context st)\<rparr>)))"

section \<open>Lemmas\<close>

lemma dget_foldl_dpop: "dget (foldl (\<lambda>c k. dpop k c) ctx ks) j = (if j \<in> set ks then None else dget ctx j)"
  by (induction ks arbitrary: ctx) (auto simp: dict.get_rem)

lemma dget_clear: "ks \<noteq> [] \<Longrightarrow> dget (clear_context ks ctx) j = (if j \<in> set ks then None else dget ctx j)"
  by (simp add: clear_context_def dget_foldl_dpop)

lemma dget_set_context:
  "dget (set_context kw ctx) j = (case dget (rev kw) j of None \<Rightarrow> dget ctx j | Some v \<Rightarrow> Some v)"
  by (simp add: set_context_def dget_dmerge)

lemma dget_rev_keys: "dget (rev kw) j \<noteq> None \<longleftrightarrow> j \<in> set (dkeys kw)"
  by (metis dict.keys_get dkeys_def rev_map set_rev)

section \<open>Properties\<close>

text \<open>
  Setting a context and clearing its keys is neutral for every other key, takes the keys
  themselves out, and between the two every record carries the values set.
\<close>

theorem context_bracket:
  assumes "kw \<noteq> []" and "dict_wf kw" and "dict_wf ctx"
  shows "(j \<in> set (dkeys kw) \<longrightarrow> dget (clear_context (dkeys kw) (set_context kw ctx)) j = None) \<and>
    (j \<notin> set (dkeys kw) \<longrightarrow> dget (clear_context (dkeys kw) (set_context kw ctx)) j = dget ctx j) \<and>
    (j \<in> set (dkeys kw) \<longrightarrow>
       dget (fst (context_filter (set_context kw ctx) r)) j = dget kw j)"
proof -
  have ne: "dkeys kw \<noteq> []" using assms(1) by (cases kw) auto
  have "dict_wf (set_context kw ctx)"
    using assms(3) by (auto simp: set_context_def)
  then show ?thesis
    using ne assms(2) dget_rev_keys [of kw j] dict.keys_get [of j kw]
    by (auto simp: dget_clear dget_set_context dget_rev context_filter_def dget_dmerge split: option.splits)
qed

theorem context_bracket_witness:
  "dget (clear_context [''task_id'', ''job_id''] (set_context [(''task_id'', PStr ''t''), (''job_id'', PStr ''j'')]
      [(''worker_id'', PStr ''w'')])) ''worker_id'' = Some (PStr ''w'')"
  using context_bracket [of "[(''task_id'', PStr ''t''), (''job_id'', PStr ''j'')]" "[(''worker_id'', PStr ''w'')]" "''worker_id''"]
  by (simp add: dict_wf_def)

text \<open>
  The context is shared by all tasks: with two tasks in flight, the first task's records carry
  the second one's id, and once one of them has ended the other's records carry none.
\<close>

theorem context_shared_between_tasks:
  "let c1 = set_context [(''task_id'', PStr ''A''), (''job_id'', PStr ''J'')] [];
       c2 = set_context [(''task_id'', PStr ''B''), (''job_id'', PStr ''K'')] c1;
       logged_by_A = fst (context_filter c2 [(''message'', PStr ''from A'')]);
       c3 = clear_context [''task_id'', ''job_id''] c2;
       logged_by_B = fst (context_filter c3 [(''message'', PStr ''from B'')])
   in dget logged_by_A ''task_id'' = Some (PStr ''B'') \<and> dget logged_by_B ''task_id'' = None"
  by code_simp

text \<open>
  Setting logging up is idempotent in its effect on the handlers: whatever handlers the root
  logger had, afterwards it has exactly the new one, with the context filter, so records are
  printed once.
\<close>

theorem setup_replaces_handlers:
  "map lh_id (lg_handlers (snd (setup_logging ok lv fm n wid (snd (setup_logging ok' lv' fm' m wid' st))))) = [n] \<and>
   list_all lh_filtered (lg_handlers (snd (setup_logging ok lv fm n wid st))) \<and>
   is_ok (fst (setup_logging ok lv fm n wid st)) = ok (upper (case lv of Some l \<Rightarrow> l | None \<Rightarrow> ''INFO''))"
  by (simp add: setup_logging_def Let_def split: option.splits)

end
