(* ===== verification/Task_Run.thy ===== *)
theory Task_Run
  imports Worker_State Task_Files Observability Log_Context
begin

text \<open>
  The life of one task: \<open>_process_task\<close> with the preparation of its parameters and injected
  dependencies, the middleware chain, the event gate, the error mapping and the final
  bookkeeping. The surroundings of one run (clocks, identifiers, what other coroutines do while
  it waits, the transport's answer) are collected in \<open>task_env\<close>.
\<close>

section \<open>State and surroundings\<close>

record 's runtime =
  rt_worker :: worker
  rt_world :: "'s world"
  rt_log :: log_context
  rt_obs :: observability
  rt_spans :: "span list" \<comment> \<open>task spans, when they end\<close>
  rt_events :: "(client \<times> event_payload) list" \<comment> \<open>\<open>emit_event\<close> calls\<close>
  rt_sent :: "(client \<times> task_result) list" \<comment> \<open>\<open>send_result\<close> calls made by tasks\<close>

record 's task_env =
  te_secret :: "string option" \<comment> \<open>\<open>ORCHESTRATOR_SECRET_KEY\<close>\<close>
  te_now :: int
  te_elapsed :: pyval \<comment> \<open>the rounded \<open>perf_counter\<close> difference\<close>
  te_duration :: pyfloat
  te_uuid :: "nat \<Rightarrow> string" \<comment> \<open>identifiers of the successive events\<close>
  te_show :: "pyval \<Rightarrow> string" \<comment> \<open>\<open>str\<close> of numbers, containers and objects\<close>
  te_traceparent :: "string option" \<comment> \<open>header of the current span, when its context is valid\<close>
  te_inject :: "(string, pyval) dict \<Rightarrow> (string, pyval) dict" \<comment> \<open>\<open>propagate.inject\<close>\<close>
  te_during :: "'s runtime \<Rightarrow> 's runtime" \<comment> \<open>other coroutines while the handler runs\<close>
  te_cleanup_cut :: "pyexn option" \<comment> \<open>the cleanup is interrupted by this exception\<close>
  te_send :: "task_result \<Rightarrow> bool result"
  te_during_send :: "'s runtime \<Rightarrow> 's runtime"

section \<open>Admission\<close>

definition allowed_skills :: "policy \<Rightarrow> pyval" where
  "allowed_skills p = (case p of PolicyDict d \<Rightarrow> dget_or d ''allowed_skills'' PNone | PolicyObject v \<Rightarrow> v)"

fun policy_truthy :: "policy option \<Rightarrow> bool" where
  "policy_truthy None = False"
| "policy_truthy (Some (PolicyDict d)) = (d \<noteq> [])"
| "policy_truthy (Some (PolicyObject v)) = True"

definition payload_sig :: "task_payload \<Rightarrow> string" where
  "payload_sig t = str_or (tp_sig t) (str_or (tp_orchestrator_signature t) [])"

text \<open>The checks before the \<open>try\<close> statement; what they raise ends the coroutine.\<close>

definition task_gate :: "rxon \<Rightarrow> string option \<Rightarrow> task_payload \<Rightarrow> unit result" where
  "task_gate rx secret t =
     (let secret_key = (case secret of Some s \<Rightarrow> s | None \<Rightarrow> []); sg = payload_sig t
      in if secret_key \<noteq> [] \<and> sg \<noteq> [] \<and>
            \<not> rx_verify_signature rx t sg secret_key [''sig'', ''orchestrator_signature'']
         then Inl (PermissionError ''orchestrator signature mismatch: task rejected'')
         else (case tp_policy t of
                 None \<Rightarrow> Inr ()
               | Some p \<Rightarrow>
                   if policy_truthy (Some p) \<and> allowed_skills p \<noteq> PNone
                   then and_then (py_in (tp_type t) (allowed_skills p)) (\<lambda>permitted.
                     if permitted then Inr () else Inl (PermissionError ''not permitted by task policy''))
                   else Inr ()))"

section \<open>Parameters and dependencies\<close>

definition param_annotation :: "func \<Rightarrow> params_annotation" where
  "param_annotation f =
     (if ''params'' \<in> set (map pp_name (fn_params f)) then fn_annotation f else PlainParams)"

definition required_fields :: "dc_param_field list \<Rightarrow> string list" where
  "required_fields fs =
     map pf_name (filter (\<lambda>f. pf_default f = ParameterEmpty \<and> pf_default_factory f = ParameterEmpty) fs)"

definition prepare_task_params :: "func \<Rightarrow> (string, pyval) dict \<Rightarrow> pyval result" where
  "prepare_task_params f params =
     (case param_annotation f of
        PlainParams \<Rightarrow> Inr (PDict params)
      | PydanticParams validate_model \<Rightarrow>
          (case validate_model params of Inl msg \<Rightarrow> Inl (ParamValidationError msg) | Inr v \<Rightarrow> Inr v)
      | DataclassParams fs build \<Rightarrow>
          (let known = map pf_name fs;
               filtered_params = filter (\<lambda>(k, v). k \<in> set known) params;
               missing_fields = filter (\<lambda>n. \<not> dhas filtered_params n) (required_fields fs)
           in if missing_fields \<noteq> []
              then Inl (ParamValidationError (''Missing required fields for dataclass: '' @ join_with '', '' missing_fields))
              else (case build filtered_params of
                      Inl (TypeError m) \<Rightarrow> Inl (ParamValidationError m)
                    | Inl (ValueError m) \<Rightarrow> Inl (ParamValidationError m)
                    | r \<Rightarrow> r)))"

definition dep_of :: "string list \<Rightarrow> pyval option" where
  "dep_of types =
     (if ''OrchestratorClient'' \<in> set types then Some (PRef ''OrchestratorClient'')
      else if ''ObservabilityManager'' \<in> set types then Some (PRef ''ObservabilityManager'')
      else if ''TaskFiles'' \<in> set types then Some (PRef ''TaskFiles'') else None)"

fun deps_of_hints :: "(string \<times> string list) list \<Rightarrow> (string, pyval) dict \<Rightarrow> (string, pyval) dict" where
  "deps_of_hints [] deps = deps"
| "deps_of_hints ((n, types) # hs) deps =
     deps_of_hints hs (case dep_of types of Some d \<Rightarrow> dset n d deps | None \<Rightarrow> deps)"

definition prepare_dependencies :: "func \<Rightarrow> (string, pyval) dict" where
  "prepare_dependencies f = deps_of_hints (case fn_hints f of Some hs \<Rightarrow> hs | None \<Rightarrow> []) []"

text \<open>The helper injected for a \<open>TaskFiles\<close> hint.\<close>

definition injected_files :: "worker_config \<Rightarrow> task_payload \<Rightarrow> task_files" where
  "injected_files cfg t =
     \<lparr>tf_task_dir = task_dir cfg (tp_task_id t), tf_job_id = tp_job_id t, tf_task_id = tp_task_id t,
      tf_s3_manager = True\<rparr>"

definition opt_dict :: "(string, pyval) dict option \<Rightarrow> pyval" where
  "opt_dict d = (case d of None \<Rightarrow> PNone | Some x \<Rightarrow> PDict x)"

definition available_context :: "task_payload \<Rightarrow> pyval \<Rightarrow> (string, pyval) dict \<Rightarrow> (string, pyval) dict" where
  "available_context t params deps =
     dmerge [(''params'', params), (''task_id'', PStr (tp_task_id t)), (''job_id'', PStr (tp_job_id t)),
        (''tracing_context'', opt_dict (tp_tracing_context t)), (''priority'', tp_priority t),
        (''deadline'', tp_deadline t), (''security'', tp_security t), (''metadata'', tp_metadata t),
        (''send_progress'', PRef ''send_progress''), (''send_event'', PRef ''send_event''),
        (''add_to_hot_skills'', PRef ''add_to_hot_skills''),
        (''remove_from_hot_skills'', PRef ''remove_from_hot_skills'')] deps"

fun bind_parameters :: "(string, pyval) dict \<Rightarrow> pyparam list \<Rightarrow> (string, pyval) dict \<Rightarrow> (string, pyval) dict result" where
  "bind_parameters ctx [] kw = Inr kw"
| "bind_parameters ctx (p # ps) kw =
     (if pp_name p = ''params'' then bind_parameters ctx ps kw
      else case dget ctx (pp_name p) of
             Some v \<Rightarrow> bind_parameters ctx ps (dset (pp_name p) v kw)
           | None \<Rightarrow>
               if \<not> pp_has_default p \<and> pp_kind p = Named
               then Inl (ParamValidationError (''Missing required parameter: '' @ pp_name p))
               else bind_parameters ctx ps kw)"

definition handler_arguments :: "func \<Rightarrow> (string, pyval) dict \<Rightarrow> pyval \<Rightarrow> (string, pyval) dict result" where
  "handler_arguments f ctx params =
     bind_parameters ctx (fn_params f)
       (if ''params'' \<in> set (map pp_name (fn_params f)) then [(''params'', params)] else [])"

section \<open>The handler chain\<close>

definition execution_logic :: "func \<Rightarrow> (string, pyval) dict \<Rightarrow> stage" where
  "execution_logic f ctx kwargs =
     (let f_kwargs = (if list_ex (\<lambda>p. pp_kind p = VarKeyword) (fn_params f) then dmerge ctx kwargs else kwargs)
      in case fn_body f f_kwargs of (acts, r) \<Rightarrow> (acts, kwargs, r))"

text \<open>Wrapped in reverse order of registration: the first middleware is the outermost.\<close>

definition handler_chain :: "middleware list \<Rightarrow> stage \<Rightarrow> stage" where
  "handler_chain ms inner = foldl (\<lambda>next m. m next) inner (rev ms)"

section \<open>Events\<close>

definition events_schema_of :: "skill_info \<Rightarrow> (string, pyval) dict" where
  "events_schema_of i = (case attr i ''events_schema'' of PDict d \<Rightarrow> d | _ \<Rightarrow> [])"

definition event_permitted :: "rxon \<Rightarrow> worker_config \<Rightarrow> handler option \<Rightarrow> string \<Rightarrow> pyval \<Rightarrow> bool" where
  "event_permitted rx cfg h event_type payload =
     (case h of
        None \<Rightarrow> True
      | Some h \<Rightarrow>
          (let schema = events_schema_of (h_info h)
           in if schema = [] then True
              else (case dget schema event_type of
                      Some s \<Rightarrow> fst (rx_validate_data rx payload s)
                    | None \<Rightarrow> event_type = rx_event_progress rx \<or> \<not> cfg_strict_event_validation cfg)))"

definition event_trace :: "'s task_env \<Rightarrow> task_payload \<Rightarrow> (string, pyval) dict" where
  "event_trace env t =
     (let base = (case tp_tracing_context t of Some d \<Rightarrow> d | None \<Rightarrow> []);
          ctx = (case te_traceparent env of
                   Some h \<Rightarrow> dset ''traceparent'' (PStr h) base
                 | None \<Rightarrow> te_inject env base)
      in if \<not> truthy (dget_or ctx ''traceparent'' PNone) then dmerge ctx base else ctx)"

definition send_event ::
  "rxon \<Rightarrow> 's task_env \<Rightarrow> worker_config \<Rightarrow> handler option \<Rightarrow> task_payload \<Rightarrow> nat \<Rightarrow> string \<Rightarrow> pyval \<Rightarrow> pyfloat
    \<Rightarrow> security_context option \<Rightarrow> pyval \<Rightarrow> string option \<Rightarrow> event_payload option" where
  "send_event rx env cfg h t n event_type payload priority security metadata origin =
     (if \<not> event_permitted rx cfg h event_type payload then None
      else (let ev = \<lparr>ev_event_id = te_uuid env n, ev_worker_id = cfg_worker_id cfg,
                ev_origin_worker_id = str_or origin (cfg_worker_id cfg), ev_event_type = event_type,
                ev_payload = payload, ev_origin_task_id = tp_task_id t, ev_bubbling_chain = [],
                ev_target_job_id = tp_job_id t, ev_target_task_id = tp_task_id t,
                ev_trace_context = event_trace env t, ev_priority = priority, ev_timestamp = te_now env,
                ev_security = None, ev_metadata = metadata\<rparr>;
                sec = (case security of
                         Some s \<Rightarrow> Some s
                       | None \<Rightarrow> sign_payload_if_needed rx cfg (EventMsg ev) [''bubbling_chain''] None)
            in Some (case sec of Some s \<Rightarrow> ev\<lparr>ev_security := Some s\<rparr> | None \<Rightarrow> ev)))"

definition emit :: "client \<Rightarrow> event_payload option \<Rightarrow> 's runtime \<Rightarrow> 's runtime" where
  "emit c ev rt = (case ev of None \<Rightarrow> rt | Some e \<Rightarrow> rt\<lparr>rt_events := rt_events rt @ [(c, e)]\<rparr>)"

text \<open>One callback call of the handler.\<close>

definition do_act :: "rxon \<Rightarrow> 's task_env \<Rightarrow> handler option \<Rightarrow> client \<Rightarrow> task_payload \<Rightarrow> act \<Rightarrow> 's runtime \<Rightarrow> 's runtime" where
  "do_act rx env h c t a rt =
     (let cfg = w_config (rt_worker rt); n = length (rt_events rt)
      in case a of
           AddHot s \<Rightarrow> rt\<lparr>rt_worker := add_to_hot_skills s (rt_worker rt)\<rparr>
         | RemoveHot s \<Rightarrow> rt\<lparr>rt_worker := remove_from_hot_skills s (rt_worker rt)\<rparr>
         | SendEvent ty p pr sec md origin \<Rightarrow> emit c (send_event rx env cfg h t n ty p pr sec md origin) rt
         | SendProgress progress message \<Rightarrow>
             emit c (send_event rx env cfg h t n (rx_event_progress rx)
               (PDict [(''progress'', progress), (''message'', message)]) 0 None PNone None) rt)"

definition do_acts :: "rxon \<Rightarrow> 's task_env \<Rightarrow> handler option \<Rightarrow> client \<Rightarrow> task_payload \<Rightarrow> act list \<Rightarrow> 's runtime \<Rightarrow> 's runtime" where
  "do_acts rx env h c t acts rt = fold (do_act rx env h c t) acts rt"

section \<open>Results\<close>

definition py_str :: "(pyval \<Rightarrow> string) \<Rightarrow> pyval \<Rightarrow> string" where
  "py_str show_value v =
     (case v of
        PStr s \<Rightarrow> s
      | PNone \<Rightarrow> ''None''
      | PBool b \<Rightarrow> (if b then ''True'' else ''False'')
      | _ \<Rightarrow> show_value v)"

definition new_error :: "string \<Rightarrow> string \<Rightarrow> task_error" where
  "new_error code message = \<lparr>err_code = PStr code, err_message = PStr message, err_details = []\<rparr>"

definition origin_of :: "worker_config \<Rightarrow> task_payload \<Rightarrow> string" where
  "origin_of cfg t = str_or (tp_origin_worker_id t) (cfg_worker_id cfg)"

text \<open>A result without data, for a task that did not complete.\<close>

definition bare_result ::
  "rxon \<Rightarrow> 's task_env \<Rightarrow> worker_config \<Rightarrow> task_payload \<Rightarrow> string option \<Rightarrow> string \<Rightarrow> task_error option \<Rightarrow> task_result" where
  "bare_result rx env cfg t origin status err =
     sign_result rx cfg \<lparr>tr_job_id = tp_job_id t, tr_task_id = tp_task_id t, tr_worker_id = cfg_worker_id cfg,
       tr_origin_worker_id = origin, tr_status = PStr status, tr_data = None, tr_error = err,
       tr_data_metadata = None, tr_security = None, tr_metadata = tp_metadata t, tr_timestamp = te_now env,
       tr_costs = None\<rparr>"

definition invalid_input :: "rxon \<Rightarrow> 's task_env \<Rightarrow> worker_config \<Rightarrow> task_payload \<Rightarrow> string option \<Rightarrow> task_result" where
  "invalid_input rx env cfg t msg =
     bare_result rx env cfg t (Some (origin_of cfg t)) (rx_status_failure rx)
       (Some (new_error (rx_code_invalid_input rx) (str_or msg ''Validation failed'')))"

definition unsupported_skill :: "rxon \<Rightarrow> 's task_env \<Rightarrow> worker_config \<Rightarrow> task_payload \<Rightarrow> task_result" where
  "unsupported_skill rx env cfg t =
     bare_result rx env cfg t None (rx_status_failure rx)
       (Some (new_error (rx_code_permanent rx) (''Unsupported skill: '' @ tp_type t)))"

text \<open>The \<open>except\<close> clauses, in their order.\<close>

definition result_of_exn :: "rxon \<Rightarrow> 's task_env \<Rightarrow> worker_config \<Rightarrow> task_payload \<Rightarrow> pyexn \<Rightarrow> task_result" where
  "result_of_exn rx env cfg t e =
     (let failure = (\<lambda>code. bare_result rx env cfg t (Some (origin_of cfg t)) (rx_status_failure rx)
            (Some (new_error code (exn_str e))))
      in case e of
           ParamValidationError _ \<Rightarrow> failure (rx_code_invalid_input rx)
         | CancelledError \<Rightarrow>
             bare_result rx env cfg t (Some (origin_of cfg t)) (rx_status_cancelled rx) None
         | ValueError _ \<Rightarrow> failure (rx_code_integrity_mismatch rx)
         | _ \<Rightarrow> failure (rx_code_transient rx))"

definition span_message_of_exn :: "pyexn \<Rightarrow> string" where
  "span_message_of_exn e = (if e = CancelledError then ''Task cancelled'' else exn_str e)"

text \<open>The handler's answer as a dictionary, after the check against the output schema.\<close>

definition normal_answer :: "pyval \<Rightarrow> (string, pyval) dict" where
  "normal_answer v = (case v of PDict d \<Rightarrow> d | _ \<Rightarrow> [(''data'', v)])"

definition check_output :: "rxon \<Rightarrow> (pyval \<Rightarrow> string) \<Rightarrow> skill_info \<Rightarrow> (string, pyval) dict \<Rightarrow> (string, pyval) dict" where
  "check_output rx show_value i answer =
     (let schema = attr i ''output_schema''
      in if \<not> truthy schema then answer
         else (case rx_validate_data rx (dget_or answer ''data'' PNone) schema of
                 (True, _) \<Rightarrow> answer
               | (False, msg) \<Rightarrow>
                   dset ''error'' (PDict [(''code'', PStr (rx_code_contract_violation rx)),
                        (''message'', PStr (''Local contract violation: output does not match schema. '' @
                           (case msg of Some m \<Rightarrow> m | None \<Rightarrow> ''None'')))])
                     (dset ''status'' (PStr (rx_status_failure rx)) answer)))"

definition task_error_of :: "rxon \<Rightarrow> (pyval \<Rightarrow> string) \<Rightarrow> (string, pyval) dict \<Rightarrow> task_error option result" where
  "task_error_of rx show_value answer =
     (case dget answer ''error'' of
        None \<Rightarrow> Inr None
      | Some (PDict d) \<Rightarrow>
          and_then (rx_new_task_error rx (filter (\<lambda>(k, v). k \<in> set (rx_task_error_fields rx)) d)) (\<lambda>e. Inr (Some e))
      | Some v \<Rightarrow> Inr (Some (new_error (rx_code_transient rx) (py_str show_value v))))"

definition costs_of :: "pyval \<Rightarrow> (string, pyval) dict \<Rightarrow> (string, pyval) dict" where
  "costs_of elapsed answer =
     (let costs = [(''execution_time_seconds'', elapsed)]
      in case dget answer ''costs'' of Some (PDict d) \<Rightarrow> dmerge costs d | _ \<Rightarrow> costs)"

definition complete_result ::
  "rxon \<Rightarrow> 's task_env \<Rightarrow> worker_config \<Rightarrow> task_payload \<Rightarrow> (string, pyval) dict \<Rightarrow> pyval \<Rightarrow> metadata_map
    \<Rightarrow> task_error option \<Rightarrow> task_result" where
  "complete_result rx env cfg t answer data md err =
     (let r = \<lparr>tr_job_id = tp_job_id t, tr_task_id = tp_task_id t, tr_worker_id = cfg_worker_id cfg,
           tr_origin_worker_id = Some (origin_of cfg t),
           tr_status = dget_or answer ''status'' (PStr (rx_status_success rx)),
           tr_data = Some data, tr_error = err, tr_data_metadata = (if md = [] then None else Some md),
           tr_security = None, tr_metadata = dget_or answer ''metadata'' PNone, tr_timestamp = te_now env,
           tr_costs = Some (costs_of (te_elapsed env) answer)\<rparr>
      in case sign_payload_if_needed rx cfg (ResultMsg r) [] None of
           Some s \<Rightarrow> r\<lparr>tr_security := Some s\<rparr>
         | None \<Rightarrow> r\<lparr>tr_security := rx_security_of rx (dget_or answer ''security'' PNone)\<rparr>)"

section \<open>The attempt\<close>

definition in_world :: "('s, 'a) op \<Rightarrow> 's runtime \<Rightarrow> 'a result \<times> 's runtime" where
  "in_world m rt = (case m (rt_world rt) of (r, w) \<Rightarrow> (r, rt\<lparr>rt_world := w\<rparr>))"

text \<open>Running the chain: its callbacks act on the worker while other coroutines run.\<close>

definition run_chain ::
  "rxon \<Rightarrow> 's task_env \<Rightarrow> handler \<Rightarrow> client \<Rightarrow> task_payload \<Rightarrow> (string, pyval) dict \<Rightarrow> (string, pyval) dict
    \<Rightarrow> 's runtime \<Rightarrow> pyval result \<times> 's runtime" where
  "run_chain rx env h c t ctx kwargs rt =
     (case handler_chain (w_middlewares (rt_worker rt)) (execution_logic (h_func h) ctx) kwargs of
        (acts, _, r) \<Rightarrow> (r, te_during env (do_acts rx env (Some h) c t acts rt)))"

definition finish_answer ::
  "rxon \<Rightarrow> 's s3_env \<Rightarrow> 's task_env \<Rightarrow> handler \<Rightarrow> task_payload \<Rightarrow> pyval \<Rightarrow> 's runtime \<Rightarrow> task_result result \<times> 's runtime" where
  "finish_answer rx E env h t v rt =
     (let cfg = w_config (rt_worker rt); answer = check_output rx (te_show env) (h_info h) (normal_answer v)
      in do_then (in_world (process_result E cfg (dget_or answer ''data'' (PDict [])) (tp_job_id t))) (\<lambda>(data, md).
         do_then (of_result (task_error_of rx (te_show env) answer)) (\<lambda>err.
           return_op (complete_result rx env cfg t answer data md err))) rt)"

definition attempt ::
  "rxon \<Rightarrow> 's s3_env \<Rightarrow> 's task_env \<Rightarrow> handler \<Rightarrow> client \<Rightarrow> task_payload \<Rightarrow> 's runtime \<Rightarrow> task_result result \<times> 's runtime" where
  "attempt rx E env h c t rt =
     (let cfg = w_config (rt_worker rt); f = h_func h
      in do_then (in_world (process_params E cfg (PDict (tp_params t)) (tp_task_id t))) (\<lambda>params.
         do_then (of_result (prepare_task_params f (case params of PDict d \<Rightarrow> d | _ \<Rightarrow> []))) (\<lambda>validated.
           let ctx = available_context t validated (prepare_dependencies f)
           in do_then (of_result (handler_arguments f ctx validated)) (\<lambda>kwargs.
              do_then (run_chain rx env h c t ctx kwargs) (\<lambda>v.
                finish_answer rx E env h t v)))) rt)"

text \<open>
  The body of the \<open>try\<close> with its \<open>except\<close> clauses: the result, the exception that goes on, and
  the message for the span.
\<close>

record outcome =
  oc_result :: task_result
  oc_reraised :: "pyexn option"
  oc_span_error :: "string option"

definition is_failure :: "rxon \<Rightarrow> task_result \<Rightarrow> bool" where
  "is_failure rx r = (tr_status r = PStr (rx_status_failure rx))"

definition error_text :: "task_result \<Rightarrow> string" where
  "error_text r = (case tr_error r of
      Some e \<Rightarrow> (case err_message e of PStr m \<Rightarrow> m | _ \<Rightarrow> [])
    | None \<Rightarrow> ''Unknown failure'')"

definition try_task ::
  "rxon \<Rightarrow> 's s3_env \<Rightarrow> 's task_env \<Rightarrow> client \<Rightarrow> task_payload \<Rightarrow> 's runtime \<Rightarrow> outcome \<times> 's runtime" where
  "try_task rx E env c t rt =
     (let cfg = w_config (rt_worker rt)
      in case dget (w_handlers (rt_worker rt)) (tp_type t) of
           None \<Rightarrow>
             (\<lparr>oc_result = unsupported_skill rx env cfg t, oc_reraised = None,
               oc_span_error = Some (''Unsupported skill: '' @ tp_type t)\<rparr>, rt)
         | Some h \<Rightarrow>
             (case rx_validate_params rx t (h_info h) of
                (False, msg) \<Rightarrow>
                  (\<lparr>oc_result = invalid_input rx env cfg t msg, oc_reraised = None, oc_span_error = None\<rparr>, rt)
              | (True, _) \<Rightarrow>
                  (case attempt rx E env h c t rt of
                     (Inr r, rt') \<Rightarrow>
                       (\<lparr>oc_result = r, oc_reraised = None,
                         oc_span_error = (if is_failure rx r then Some (error_text r) else None)\<rparr>, rt')
                   | (Inl e, rt') \<Rightarrow>
                       (\<lparr>oc_result = result_of_exn rx env (w_config (rt_worker rt')) t e,
                         oc_reraised = (if e = CancelledError then Some e else None),
                         oc_span_error = Some (span_message_of_exn e)\<rparr>, rt'))))"

section \<open>The bookkeeping\<close>

definition drop_type_load :: "string option \<Rightarrow> worker \<Rightarrow> worker result" where
  "drop_type_load ty w =
     (case ty of
        None \<Rightarrow> Inr w
      | Some k \<Rightarrow>
          (case dget (w_load_by_type w) k of
             None \<Rightarrow> Inl (KeyError k)
           | Some n \<Rightarrow> Inr (w\<lparr>w_load_by_type := dset k (n - 1) (w_load_by_type w)\<rparr>)))"

definition release_slot :: "string \<Rightarrow> string option \<Rightarrow> worker \<Rightarrow> worker \<times> pyexn option" where
  "release_slot task_id ty w =
     (let w = w\<lparr>w_active_tasks := dpop task_id (w_active_tasks w), w_current_load := w_current_load w - 1\<rparr>
      in case drop_type_load ty w of
           Inl e \<Rightarrow> (w, Some e)
         | Inr w \<Rightarrow> (schedule_heartbeat_debounce w, None))"

definition deliver :: "'s task_env \<Rightarrow> client \<Rightarrow> task_result \<Rightarrow> 's runtime \<Rightarrow> unit result \<times> 's runtime" where
  "deliver env c r rt =
     (if w_queue_worker_running (rt_worker rt)
      then (Inr (), rt\<lparr>rt_worker := (rt_worker rt)\<lparr>w_result_queue := w_result_queue (rt_worker rt) @ [(c, r)]\<rparr>\<rparr>)
      else (case te_send env r of
              Inl e \<Rightarrow> (if is_rxon_error e then Inr () else Inl e)
            | Inr _ \<Rightarrow> Inr (),
            te_during_send env (rt\<lparr>rt_sent := rt_sent rt @ [(c, r)]\<rparr>)))"

text \<open>\<open>ty\<close> is the type captured before the \<open>try\<close>.\<close>

definition finish_task ::
  "'s task_env \<Rightarrow> client \<Rightarrow> task_payload \<Rightarrow> string option \<Rightarrow> task_result \<Rightarrow> 's runtime \<Rightarrow> 's runtime \<times> pyexn option" where
  "finish_task env c t ty r rt =
     (let rt = rt\<lparr>rt_world := cleanup (w_config (rt_worker rt)) (tp_task_id t) (rt_world rt)\<rparr>
      in case te_cleanup_cut env of
           Some e \<Rightarrow> (rt, Some e)
         | None \<Rightarrow>
             (let rt = rt\<lparr>rt_obs := record_task_finished (tp_type t) (tr_status r) (te_duration env) (rt_obs rt)\<rparr>
              in case deliver env c r rt of
                   (Inl e, rt) \<Rightarrow> (rt, Some e)
                 | (Inr _, rt) \<Rightarrow>
                     (case release_slot (tp_task_id t) ty (rt_worker rt) of
                        (w, err) \<Rightarrow>
                          (rt\<lparr>rt_log := clear_context [''task_id'', ''job_id''] (rt_log rt), rt_worker := w\<rparr>, err))))"

definition captured_type :: "worker \<Rightarrow> task_payload \<Rightarrow> string option" where
  "captured_type w t =
     (case dget (w_handlers w) (tp_type t) of
        Some h \<Rightarrow> if h_type h = [] then None else Some (h_type h)
      | None \<Rightarrow> None)"

definition end_span :: "observability \<Rightarrow> span option \<Rightarrow> string option \<Rightarrow> 's runtime \<Rightarrow> 's runtime" where
  "end_span ob sp err rt =
     (case (case err of Some m \<Rightarrow> set_span_status_error ob m sp | None \<Rightarrow> sp) of
        None \<Rightarrow> rt
      | Some s \<Rightarrow> rt\<lparr>rt_spans := rt_spans rt @ [s]\<rparr>)"

text \<open>
  \<open>_process_task\<close>: the state it leaves and the exception with which the coroutine ends. An
  exception in the \<open>finally\<close> block replaces the one on its way.
\<close>

definition process_task ::
  "rxon \<Rightarrow> 's s3_env \<Rightarrow> otel \<Rightarrow> 's task_env \<Rightarrow> client \<Rightarrow> task_payload \<Rightarrow> 's runtime \<Rightarrow> 's runtime \<times> pyexn option" where
  "process_task rx E ot env c t rt =
     (case task_gate rx (te_secret env) t of
        Inl e \<Rightarrow> (rt, Some e)
      | Inr _ \<Rightarrow>
          (let rt = rt\<lparr>rt_log := set_context [(''task_id'', PStr (tp_task_id t)), (''job_id'', PStr (tp_job_id t))] (rt_log rt)\<rparr>;
               ty = captured_type (rt_worker rt) t;
               sp = start_task_span ot (rt_obs rt) (tp_type t) (tp_task_id t) (tp_job_id t) (tp_tracing_context t)
                      (tp_step t) (tp_depth t) (tp_parent_hash t)
           in case try_task rx E env c t rt of
                (oc, rt) \<Rightarrow>
                  (case finish_task env c t ty (oc_result oc) rt of
                     (rt, err) \<Rightarrow>
                       (end_span (rt_obs rt) sp (oc_span_error oc) rt,
                        case err of Some e \<Rightarrow> Some e | None \<Rightarrow> oc_reraised oc))))"

section \<open>Lemmas\<close>

text \<open>What the bookkeeping is about.\<close>

definition accounts :: "'s runtime \<Rightarrow> int \<times> (string, int) dict \<times> (string, handle) dict \<times> bool
    \<times> (client \<times> task_result) list \<times> (client \<times> task_result) list" where
  "accounts rt = (let w = rt_worker rt in (w_current_load w, w_load_by_type w, w_active_tasks w,
     w_queue_worker_running w, w_result_queue w, rt_sent rt))"

text \<open>Interleaved coroutines that neither take nor finish tasks.\<close>

definition quiet_task :: "'s task_env \<Rightarrow> bool" where
  "quiet_task env = (\<forall>rt. accounts (te_during env rt) = accounts rt \<and>
     accounts (te_during_send env rt) = accounts rt)"

definition send_contained :: "'s task_env \<Rightarrow> bool" where
  "send_contained env = (\<forall>r. case te_send env r of Inl e \<Rightarrow> is_rxon_error e | Inr _ \<Rightarrow> True)"

lemma hot_frame [simp]:
  "w_current_load (add_to_hot_skills s w) = w_current_load w" "w_load_by_type (add_to_hot_skills s w) = w_load_by_type w"
  "w_active_tasks (add_to_hot_skills s w) = w_active_tasks w" "w_config (add_to_hot_skills s w) = w_config w"
  "w_result_queue (add_to_hot_skills s w) = w_result_queue w"
  "w_queue_worker_running (add_to_hot_skills s w) = w_queue_worker_running w"
  "w_current_load (remove_from_hot_skills s w) = w_current_load w"
  "w_load_by_type (remove_from_hot_skills s w) = w_load_by_type w"
  "w_active_tasks (remove_from_hot_skills s w) = w_active_tasks w" "w_config (remove_from_hot_skills s w) = w_config w"
  "w_result_queue (remove_from_hot_skills s w) = w_result_queue w"
  "w_queue_worker_running (remove_from_hot_skills s w) = w_queue_worker_running w"
  by (simp_all add: add_to_hot_skills_def remove_from_hot_skills_def)

lemma emit_frame [simp]:
  "rt_worker (emit c ev rt) = rt_worker rt" "rt_sent (emit c ev rt) = rt_sent rt"
  "rt_world (emit c ev rt) = rt_world rt"
  by (simp_all add: emit_def split: option.splits)

lemma do_act_accounts: "accounts (do_act rx env h c t a rt) = accounts rt"
  by (simp add: do_act_def accounts_def Let_def split: act.splits)

lemma do_act_config: "w_config (rt_worker (do_act rx env h c t a rt)) = w_config (rt_worker rt)"
  by (simp add: do_act_def Let_def split: act.splits)

lemma do_acts_accounts: "accounts (do_acts rx env h c t acts rt) = accounts rt"
  unfolding do_acts_def by (induction acts arbitrary: rt) (simp_all add: do_act_accounts)

lemma do_acts_config: "w_config (rt_worker (do_acts rx env h c t acts rt)) = w_config (rt_worker rt)"
  unfolding do_acts_def by (induction acts arbitrary: rt) (simp_all add: do_act_config)

lemma preserves_in_world: "preserves accounts (in_world m)"
  by (simp add: preserves_def in_world_def accounts_def split: prod.splits)

lemma preserves_run_chain: "quiet_task env \<Longrightarrow> preserves accounts (run_chain rx env h c t ctx kw)"
  by (simp add: preserves_def run_chain_def quiet_task_def do_acts_accounts split: prod.splits)

lemma preserves_finish_answer:
  fixes f :: "'s runtime \<Rightarrow> 'b"
  assumes world: "\<And>m :: ('s, pyval \<times> metadata_map) op. preserves f (in_world m)"
  shows "preserves f (finish_answer rx E env h t v)"
proof -
  have "f (snd (finish_answer rx E env h t v rt)) = f rt" for rt
  proof -
    let ?a = "check_output rx (te_show env) (h_info h) (normal_answer v)" and ?cfg = "w_config (rt_worker rt)"
    have "preserves f (do_then (in_world (process_result E ?cfg (dget_or ?a ''data'' (PDict [])) (tp_job_id t))) (\<lambda>(data, md).
         do_then (of_result (task_error_of rx (te_show env) ?a)) (\<lambda>err.
           return_op (complete_result rx env ?cfg t ?a data md err))))"
      by (intro keeps world)
    then show ?thesis by (simp add: finish_answer_def Let_def preserves_def)
  qed
  then show ?thesis by (simp add: preserves_def)
qed

lemma attempt_preserves:
  fixes f :: "'s runtime \<Rightarrow> 'b"
  assumes world: "\<And>m :: ('s, pyval) op. preserves f (in_world m)"
    "\<And>m :: ('s, pyval \<times> metadata_map) op. preserves f (in_world m)"
    and chain: "\<And>ctx kw. preserves f (run_chain rx env h c t ctx kw)"
  shows "f (snd (attempt rx E env h c t rt)) = f rt"
proof -
  have "preserves f (do_then (in_world (process_params E (w_config (rt_worker rt)) (PDict (tp_params t)) (tp_task_id t))) (\<lambda>params.
         do_then (of_result (prepare_task_params (h_func h) (case params of PDict d \<Rightarrow> d | _ \<Rightarrow> []))) (\<lambda>validated.
           let ctx = available_context t validated (prepare_dependencies (h_func h))
           in do_then (of_result (handler_arguments (h_func h) ctx validated)) (\<lambda>kwargs.
              do_then (run_chain rx env h c t ctx kwargs) (\<lambda>v.
                finish_answer rx E env h t v)))))"
    by (intro keeps world chain preserves_finish_answer)
  then show ?thesis by (simp add: attempt_def preserves_def Let_def)
qed

lemma attempt_accounts:
  "quiet_task env \<Longrightarrow> accounts (snd (attempt rx E env h c t rt)) = accounts rt"
  by (intro attempt_preserves preserves_in_world preserves_run_chain)

lemma try_task_accounts: "quiet_task env \<Longrightarrow> accounts (snd (try_task rx E env c t rt)) = accounts rt"
  using attempt_accounts [of env rx E _ c t rt]
  by (auto simp: try_task_def Let_def split: option.splits prod.splits sum.splits bool.splits) (metis snd_conv)+

section \<open>Identity and signature of results\<close>

lemma bare_result_ids [simp]:
  "tr_task_id (bare_result rx env cfg t o' s e) = tp_task_id t" "tr_job_id (bare_result rx env cfg t o' s e) = tp_job_id t"
  by (simp_all add: bare_result_def)

lemma complete_result_ids [simp]:
  "tr_task_id (complete_result rx env cfg t a d md e) = tp_task_id t"
  "tr_job_id (complete_result rx env cfg t a d md e) = tp_job_id t"
  by (simp_all add: complete_result_def Let_def split: option.splits)

lemma result_of_exn_ids [simp]:
  "tr_task_id (result_of_exn rx env cfg t e) = tp_task_id t" "tr_job_id (result_of_exn rx env cfg t e) = tp_job_id t"
  by (cases e; simp add: result_of_exn_def Let_def)+

lemma finish_answer_Inr:
  assumes "finish_answer rx E env h t v rt = (Inr r, rt')"
  obtains data md err where
    "r = complete_result rx env (w_config (rt_worker rt)) t
       (check_output rx (te_show env) (h_info h) (normal_answer v)) data md err"
    and "task_error_of rx (te_show env) (check_output rx (te_show env) (h_info h) (normal_answer v)) = Inr err"
  using assms
  by (auto simp: finish_answer_def Let_def of_result_def return_op_def elim!: do_then_Inr)

lemma attempt_Inr:
  assumes "attempt rx E env h c t rt = (Inr r, rt')"
  obtains v rt1 where "finish_answer rx E env h t v rt1 = (Inr r, rt')"
  using assms by (auto simp: attempt_def Let_def elim!: do_then_Inr)

lemma try_task_ids:
  "tr_task_id (oc_result (fst (try_task rx E env c t rt))) = tp_task_id t \<and>
   tr_job_id (oc_result (fst (try_task rx E env c t rt))) = tp_job_id t"
proof -
  have "tr_task_id r = tp_task_id t \<and> tr_job_id r = tp_job_id t"
    if a: "attempt rx E env h c t rt = (Inr r, rt')" for h r rt'
    using a by (rule attempt_Inr) (auto elim!: finish_answer_Inr)
  then show ?thesis
    by (auto simp: try_task_def Let_def unsupported_skill_def invalid_input_def
        split: option.splits prod.splits sum.splits bool.splits)
qed

section \<open>Fixtures\<close>

definition sample_payload :: task_payload where
  "sample_payload = \<lparr>tp_job_id = ''j1'', tp_task_id = ''t1'', tp_type = ''echo'', tp_params = [], tp_tracing_context = None,
     tp_priority = PFloat 0, tp_deadline = PNone, tp_security = PNone, tp_metadata = PNone, tp_sig = None,
     tp_orchestrator_signature = None, tp_policy = None, tp_step = 0, tp_depth = 0, tp_parent_hash = None,
     tp_origin_worker_id = None\<rparr>"

definition sample_task_env :: "'s task_env" where
  "sample_task_env = \<lparr>te_secret = None, te_now = 100, te_elapsed = PFloat 0, te_duration = 0,
     te_uuid = (\<lambda>n. ''id''), te_show = (\<lambda>v. ''?''), te_traceparent = None, te_inject = (\<lambda>d. d),
     te_during = (\<lambda>rt. rt), te_cleanup_cut = None, te_send = (\<lambda>r. Inr True), te_during_send = (\<lambda>rt. rt)\<rparr>"

definition sample_runtime :: "worker \<Rightarrow> memory runtime" where
  "sample_runtime w = \<lparr>rt_worker = w, rt_world = sample_world, rt_log = [],
     rt_obs = observability_init sample_otel False ''w'' None None None, rt_spans = [], rt_events = [], rt_sent = []\<rparr>"

definition busy_worker :: worker where
  "busy_worker = sample_worker\<lparr>w_current_load := 1, w_load_by_type := [(''echo'', 1)], w_active_tasks := [(''t1'', 7)]\<rparr>"

lemma sample_task_env_quiet: "quiet_task sample_task_env" "send_contained sample_task_env"
  by (simp_all add: quiet_task_def send_contained_def sample_task_env_def)

section \<open>Properties\<close>

lemma deliver_result:
  assumes "quiet_task env" and "deliver env c r rt = (res, rt')" and "send_contained env"
  shows "res = Inr () \<and> (case accounts rt of (l, ls, a, running, q, sent) \<Rightarrow>
    accounts rt' = (l, ls, a, running, if running then q @ [(c, r)] else q, if running then sent else sent @ [(c, r)]))"
proof -
  have during: "accounts (te_during_send env x) = accounts x" for x
    using assms(1) by (simp add: quiet_task_def)
  have send: "te_send env r = Inl e \<Longrightarrow> is_rxon_error e" for e
    using assms(3) by (auto simp: send_contained_def split: sum.splits dest: spec [of _ r])
  have new: "accounts (rt\<lparr>rt_sent := rt_sent rt @ [(c, r)]\<rparr>) =
      (case accounts rt of (l, ls, a, running, q, sent) \<Rightarrow> (l, ls, a, running, q, sent @ [(c, r)]))"
    by (simp add: accounts_def Let_def)
  show ?thesis
  proof (cases "w_queue_worker_running (rt_worker rt)")
    case True
    with assms(2) show ?thesis by (auto simp: deliver_def accounts_def Let_def)
  next
    case False
    with assms(2) have "rt' = te_during_send env (rt\<lparr>rt_sent := rt_sent rt @ [(c, r)]\<rparr>)"
      "res = Inr ()" using send by (auto simp: deliver_def split: sum.splits)
    with False show ?thesis using during new by (simp add: accounts_def Let_def)
  qed
qed

lemma release_slot_result:
  assumes "ty \<noteq> None \<longrightarrow> dhas (w_load_by_type w) (the ty)" and "release_slot k ty w = (w', err)"
  shows "err = None \<and> w_current_load w' = w_current_load w - 1 \<and> w_active_tasks w' = dpop k (w_active_tasks w) \<and>
    dget_or (w_load_by_type w') x 0 = dget_or (w_load_by_type w) x 0 - (if ty = Some x then 1 else 0) \<and>
    w_result_queue w' = w_result_queue w \<and> w_config w' = w_config w \<and> dkeys (w_load_by_type w') = dkeys (w_load_by_type w)"
proof (cases ty)
  case None
  with assms show ?thesis by (auto simp: release_slot_def drop_type_load_def Let_def)
next
  case (Some k')
  with assms(1) obtain n where "dget (w_load_by_type w) k' = Some n" by (auto simp: dhas_iff)
  with Some assms(2) show ?thesis
    by (auto simp: release_slot_def drop_type_load_def Let_def dict_simps dget_or_def dict.keys_get dict.keys_put_old)
qed

lemma captured_counter:
  "worker_wf w \<Longrightarrow> captured_type w t \<noteq> None \<longrightarrow> dhas (w_load_by_type w) (the (captured_type w t))"
  using worker_wf_handler(2) by (auto simp: captured_type_def split: option.splits)

text \<open>
  C1: Every admitted task gives its slot back and delivers exactly one result: whatever the
  handler does (returns, raises, is cancelled) or the files do, the load and the counter of the
  task's type go down by one, other counters stay, the task leaves the active table, and one
  result with the task's ids is queued (or sent, when no queue worker runs). Only a cancellation
  goes on as an exception.
\<close>

theorem task_releases_slot:
  assumes wf: "worker_wf (rt_worker rt)" and gate: "task_gate rx (te_secret env) t = Inr ()"
    and quiet: "quiet_task env" and cut: "te_cleanup_cut env = None" and send: "send_contained env"
    and run: "process_task rx E ot env c t rt = (rt', err)"
  shows "w_current_load (rt_worker rt') = w_current_load (rt_worker rt) - 1 \<and>
    dget_or (w_load_by_type (rt_worker rt')) x 0 = dget_or (w_load_by_type (rt_worker rt)) x 0 -
      (if captured_type (rt_worker rt) t = Some x then 1 else 0) \<and>
    w_active_tasks (rt_worker rt') = dpop (tp_task_id t) (w_active_tasks (rt_worker rt)) \<and>
    err \<in> {None, Some CancelledError} \<and>
    (\<exists>r. tr_task_id r = tp_task_id t \<and> tr_job_id r = tp_job_id t \<and>
       (if w_queue_worker_running (rt_worker rt)
        then w_result_queue (rt_worker rt') = w_result_queue (rt_worker rt) @ [(c, r)] \<and> rt_sent rt' = rt_sent rt
        else w_result_queue (rt_worker rt') = w_result_queue (rt_worker rt) \<and> rt_sent rt' = rt_sent rt @ [(c, r)]))"
proof -
  let ?rt0 = "rt\<lparr>rt_log := set_context [(''task_id'', PStr (tp_task_id t)), (''job_id'', PStr (tp_job_id t))] (rt_log rt)\<rparr>"
  let ?ty = "captured_type (rt_worker rt) t"
  obtain oc rt1 where tr: "try_task rx E env c t ?rt0 = (oc, rt1)" by fastforce
  obtain rt2 e where fin: "finish_task env c t ?ty (oc_result oc) rt1 = (rt2, e)" by fastforce
  obtain sp where out: "rt' = end_span (rt_obs rt2) sp (oc_span_error oc) rt2"
    "err = (case e of Some x \<Rightarrow> Some x | None \<Rightarrow> oc_reraised oc)"
    using run gate tr fin by (auto simp: process_task_def Let_def)
  have a1: "accounts rt1 = accounts rt"
    using try_task_accounts [OF quiet, of rx E c t ?rt0] tr by (simp add: accounts_def)
  have ids: "tr_task_id (oc_result oc) = tp_task_id t" "tr_job_id (oc_result oc) = tp_job_id t"
    using try_task_ids [of rx E env c t ?rt0] tr by simp_all
  have re: "oc_reraised oc \<in> {None, Some CancelledError}"
    using tr by (auto simp: try_task_def Let_def split: option.splits prod.splits sum.splits bool.splits if_splits)
  let ?rt1 = "rt1\<lparr>rt_world := cleanup (w_config (rt_worker rt1)) (tp_task_id t) (rt_world rt1),
      rt_obs := record_task_finished (tp_type t) (tr_status (oc_result oc)) (te_duration env) (rt_obs rt1)\<rparr>"
  obtain res rt3 where dl: "deliver env c (oc_result oc) ?rt1 = (res, rt3)" by fastforce
  have a3: "res = Inr ()" "case accounts rt of (l, ls, a, running, q, sent) \<Rightarrow>
    accounts rt3 = (l, ls, a, running, if running then q @ [(c, oc_result oc)] else q,
      if running then sent else sent @ [(c, oc_result oc)])"
    using deliver_result [OF quiet dl send] a1 by (simp_all add: accounts_def Let_def)
  obtain w e' where rel: "release_slot (tp_task_id t) ?ty (rt_worker rt3) = (w, e')" by fastforce
  have slot: "rt_worker rt2 = w" "e = e'" "rt_sent rt2 = rt_sent rt3"
    using fin cut dl a3(1) rel by (auto simp: finish_task_def Let_def)
  have counters: "w_load_by_type (rt_worker rt3) = w_load_by_type (rt_worker rt)"
    using a3(2) by (simp add: accounts_def Let_def)
  have "?ty \<noteq> None \<longrightarrow> dhas (w_load_by_type (rt_worker rt3)) (the ?ty)"
    using captured_counter [OF wf] counters by simp
  note rs = release_slot_result [OF this rel, of x]
  have same: "rt_worker rt' = rt_worker rt2" "rt_sent rt' = rt_sent rt2"
    using out(1) by (simp_all add: end_span_def split: option.splits)
  show ?thesis
    using rs a3(2) slot same ids re out(2)
    by (auto simp: accounts_def Let_def intro!: exI [of _ "oc_result oc"])
qed

theorem task_releases_slot_witness:
  "\<exists>rt' r. process_task sample_rxon (sample_s3 None) sample_otel sample_task_env 1 sample_payload
       (sample_runtime busy_worker) = (rt', None) \<and>
     w_current_load (rt_worker rt') = 0 \<and> w_active_tasks (rt_worker rt') = [] \<and>
     w_result_queue (rt_worker rt') = [(1, r)] \<and> tr_task_id r = ''t1''"
proof -
  let ?run = "process_task sample_rxon (sample_s3 None) sample_otel sample_task_env 1 sample_payload (sample_runtime busy_worker)"
  obtain rt' err where run: "?run = (rt', err)" by fastforce
  have "snd ?run = None" by code_simp
  with run have none: "err = None" by simp
  have wf: "worker_wf (rt_worker (sample_runtime busy_worker))"
    by (simp add: sample_runtime_def busy_worker_def worker_wf_def sample_worker_def dict_wf_def)
  have gate: "task_gate sample_rxon (te_secret sample_task_env) sample_payload = Inr ()"
    by (simp add: task_gate_def sample_payload_def sample_task_env_def)
  have cut: "te_cleanup_cut sample_task_env = None" by (simp add: sample_task_env_def)
  have w: "w_current_load (rt_worker (sample_runtime busy_worker)) = 1"
    "w_active_tasks (rt_worker (sample_runtime busy_worker)) = [(''t1'', 7)]"
    "w_result_queue (rt_worker (sample_runtime busy_worker)) = []"
    "w_queue_worker_running (rt_worker (sample_runtime busy_worker))"
    "tp_task_id sample_payload = ''t1''"
    by (simp_all add: sample_runtime_def busy_worker_def sample_worker_def sample_payload_def)
  show ?thesis
    using task_releases_slot [OF wf gate sample_task_env_quiet(1) cut sample_task_env_quiet(2) run] run none w
    by auto
qed

text \<open>
  C22: What the gate admits, exactly. The signature: no secret is configured, or the task carries no
  signature at all, or the first non-empty one of \<open>sig\<close> and \<open>orchestrator_signature\<close> verifies with
  the secret over the task without these two fields. The policy: there is none, or it does not say
  which skills are allowed, or the task's type is an element of the list, a key of the dictionary or
  a substring of the string it gives. In particular a task without a signature passes even when a
  secret is configured.
\<close>

theorem gate_admits_iff:
  "is_ok (task_gate rx secret t) \<longleftrightarrow>
     (case secret of
        None \<Rightarrow> True
      | Some s \<Rightarrow>
          if s = [] then True
          else if tp_sig t \<notin> {None, Some []}
          then rx_verify_signature rx t (the (tp_sig t)) s [''sig'', ''orchestrator_signature'']
          else if tp_orchestrator_signature t \<notin> {None, Some []}
          then rx_verify_signature rx t (the (tp_orchestrator_signature t)) s [''sig'', ''orchestrator_signature'']
          else True) \<and>
     (case (case tp_policy t of
              None \<Rightarrow> None
            | Some (PolicyDict d) \<Rightarrow> dget d ''allowed_skills''
            | Some (PolicyObject v) \<Rightarrow> Some v) of
        None \<Rightarrow> True
      | Some PNone \<Rightarrow> True
      | Some (PList vs) \<Rightarrow> PStr (tp_type t) \<in> set vs
      | Some (PDict d) \<Rightarrow> tp_type t \<in> set (dkeys d)
      | Some (PStr s) \<Rightarrow> (\<exists>before after. s = before @ tp_type t @ after)
      | Some _ \<Rightarrow> False)"
proof -
  have sig: "payload_sig t = (if tp_sig t \<notin> {None, Some []} then the (tp_sig t)
      else if tp_orchestrator_signature t \<notin> {None, Some []} then the (tp_orchestrator_signature t) else [])"
    by (auto simp: payload_sig_def str_or_def split: option.splits)
  define given where "given = (case tp_policy t of
      None \<Rightarrow> None | Some (PolicyDict d) \<Rightarrow> dget d ''allowed_skills'' | Some (PolicyObject v) \<Rightarrow> Some v)"
  have allowed: "(case tp_policy t of
        None \<Rightarrow> Inr ()
      | Some p \<Rightarrow>
          if policy_truthy (Some p) \<and> allowed_skills p \<noteq> PNone
          then and_then (py_in (tp_type t) (allowed_skills p)) (\<lambda>permitted.
            if permitted then Inr () else Inl (PermissionError ''not permitted by task policy''))
          else Inr ()) =
      (case given of
         None \<Rightarrow> Inr ()
       | Some v \<Rightarrow> if v = PNone then Inr () else and_then (py_in (tp_type t) v) (\<lambda>permitted.
            if permitted then Inr () else Inl (PermissionError ''not permitted by task policy'')))"
    by (auto simp: given_def allowed_skills_def dget_or_def dget_def split: option.splits policy.splits)
  have verdict: "is_ok (case given of
         None \<Rightarrow> Inr ()
       | Some v \<Rightarrow> if v = PNone then Inr () else and_then (py_in (tp_type t) v) (\<lambda>permitted.
            if permitted then Inr () else Inl (PermissionError ''not permitted by task policy''))) \<longleftrightarrow>
      (case given of
        None \<Rightarrow> True
      | Some PNone \<Rightarrow> True
      | Some (PList vs) \<Rightarrow> PStr (tp_type t) \<in> set vs
      | Some (PDict d) \<Rightarrow> tp_type t \<in> set (dkeys d)
      | Some (PStr s) \<Rightarrow> (\<exists>before after. s = before @ tp_type t @ after)
      | Some _ \<Rightarrow> False)"
    by (simp add: contains_iff dhas_def split: option.split pyval.split)
  show ?thesis
    unfolding task_gate_def Let_def allowed given_def [symmetric]
    using verdict sig by (cases secret) auto
qed

section \<open>Arguments\<close>





text \<open>A middleware that calls back before and after the next stage.\<close>

definition announcing :: "act \<times> act \<Rightarrow> middleware" where
  "announcing p next kw = (case next kw of (acts, kw', r) \<Rightarrow> (fst p # acts @ [snd p], kw', r))"

lemma handler_chain_foldr: "handler_chain ms inner = foldr (\<lambda>m next. m next) ms inner"
  by (simp add: handler_chain_def foldl_conv_foldr)

text \<open>
  C23: Middlewares nest in the order of their registration: the first one registered acts first
  before the handler and last after it, and the handler runs once in between.
\<close>

theorem middleware_order:
  "handler_chain (map announcing ps) (execution_logic f ctx) kw =
     (case execution_logic f ctx kw of
        (acts, kw', r) \<Rightarrow> (map fst ps @ acts @ rev (map snd ps), kw', r))"
  by (induction ps) (auto simp: handler_chain_foldr announcing_def split: prod.splits)

section \<open>Results\<close>

text \<open>\<open>TaskError\<close> keeps the code and the message it is given (fields of the rxon model).\<close>

definition errors_keep_code :: "rxon \<Rightarrow> bool" where
  "errors_keep_code rx = ({''code'', ''message''} \<subseteq> set (rx_task_error_fields rx) \<and>
     (\<forall>d e. rx_new_task_error rx d = Inr e \<longrightarrow>
        err_code e = dget_or d ''code'' PNone \<and> err_message e = dget_or d ''message'' PNone))"

lemma dget_filter: "P k \<Longrightarrow> dget (filter (\<lambda>(k, v). P k) d) k = dget d k"
  by (induction d) (auto simp: dget_def)

lemma complete_result_status [simp]:
  "tr_status (complete_result rx env cfg t a d md e) = dget_or a ''status'' (PStr (rx_status_success rx))"
  "tr_error (complete_result rx env cfg t a d md e) = e"
  by (simp_all add: complete_result_def Let_def split: option.splits)

lemma check_output_valid:
  assumes "\<not> (truthy (attr i ''output_schema'') \<and>
    \<not> fst (rx_validate_data rx (dget_or a ''data'' PNone) (attr i ''output_schema'')))"
  shows "check_output rx show i a = a"
  using assms by (auto simp: check_output_def Let_def split: prod.splits bool.splits)

lemma check_output_invalid:
  assumes "truthy (attr i ''output_schema'')"
    and "rx_validate_data rx (dget_or a ''data'' PNone) (attr i ''output_schema'') = (False, msg)"
  shows "check_output rx show i a =
    dset ''error'' (PDict [(''code'', PStr (rx_code_contract_violation rx)),
        (''message'', PStr (''Local contract violation: output does not match schema. '' @
           (case msg of Some m \<Rightarrow> m | None \<Rightarrow> ''None'')))])
      (dset ''status'' (PStr (rx_status_failure rx)) a)"
  using assms by (simp add: check_output_def Let_def)

text \<open>
  C19: Local contract enforcement: when the handler's data do not validate against the output
  schema, the result is a failure with the contract-violation code and the validator's complaint as
  message, whatever status or error the handler reported. Otherwise the status is the handler's, or
  success; and the error is none if it gave none, the protocol's error object of its known fields if
  it gave a dictionary, and a transient error with the text of anything else it gave.
\<close>

theorem output_contract_enforced:
  assumes "finish_answer rx E env h t v rt = (Inr r, rt')" and "errors_keep_code rx"
  shows "let answer = normal_answer v; schema = attr (h_info h) ''output_schema'';
      (valid, msg) = rx_validate_data rx (dget_or answer ''data'' PNone) schema in
    if truthy schema \<and> \<not> valid
    then tr_status r = PStr (rx_status_failure rx) \<and>
      (case tr_error r of
         Some e \<Rightarrow> err_code e = PStr (rx_code_contract_violation rx) \<and>
           err_message e = PStr (''Local contract violation: output does not match schema. '' @
             (case msg of Some m \<Rightarrow> m | None \<Rightarrow> ''None''))
       | None \<Rightarrow> False)
    else tr_status r = dget_or answer ''status'' (PStr (rx_status_success rx)) \<and>
      (case dget answer ''error'' of
         None \<Rightarrow> tr_error r = None
       | Some (PDict d) \<Rightarrow>
           (case rx_new_task_error rx (filter (\<lambda>(k, v). k \<in> set (rx_task_error_fields rx)) d) of
              Inr e \<Rightarrow> tr_error r = Some e | Inl _ \<Rightarrow> False)
       | Some x \<Rightarrow> tr_error r = Some \<lparr>err_code = PStr (rx_code_transient rx),
            err_message = PStr (py_str (te_show env) x), err_details = []\<rparr>)"
  using assms(1)
proof (rule finish_answer_Inr)
  let ?s = "attr (h_info h) ''output_schema''" and ?a = "normal_answer v"
  let ?a' = "check_output rx (te_show env) (h_info h) ?a"
  fix data md err
  assume r: "r = complete_result rx env (w_config (rt_worker rt)) t ?a' data md err"
    and err: "task_error_of rx (te_show env) ?a' = Inr err"
  obtain valid msg where vm: "rx_validate_data rx (dget_or ?a ''data'' PNone) ?s = (valid, msg)" by fastforce
  show ?thesis
  proof (cases "truthy ?s \<and> \<not> valid")
    case True
    define m where "m = PStr (''Local contract violation: output does not match schema. '' @ (case msg of Some m \<Rightarrow> m | None \<Rightarrow> ''None''))"
    let ?e = "[(''code'', PStr (rx_code_contract_violation rx)), (''message'', m)]"
    have a': "?a' = dset ''error'' (PDict ?e) (dset ''status'' (PStr (rx_status_failure rx)) ?a)"
      unfolding m_def using True vm by (intro check_output_invalid) simp_all
    have "filter (\<lambda>(k, v). k \<in> set (rx_task_error_fields rx)) ?e = ?e"
      using assms(2) by (simp add: errors_keep_code_def)
    then obtain e where e: "err = Some e" "rx_new_task_error rx ?e = Inr e"
      using err unfolding a' task_error_of_def by (auto simp: dict.get_put and_then_Inr_iff simp del: filter.simps)
    then have "err_code e = PStr (rx_code_contract_violation rx)" "err_message e = m"
      using assms(2) by (auto simp: errors_keep_code_def dget_or_def)
    moreover have "dget_or ?a' ''status'' (PStr (rx_status_success rx)) = PStr (rx_status_failure rx)"
      by (simp add: a' dict_simps)
    ultimately show ?thesis using True vm r e(1) by (simp add: m_def)
  next
    case False
    then have "?a' = ?a" using vm by (intro check_output_valid) auto
    with False r err vm show ?thesis
      by (auto simp: task_error_of_def new_error_def and_then_Inr_iff split: option.splits pyval.splits)
  qed
qed

theorem output_contract_enforced_witness:
  "\<exists>r rt'. finish_answer (sample_rxon\<lparr>rx_validate_data := (\<lambda>d s. (False, Some ''bad''))\<rparr>) (sample_s3 None) sample_task_env
       \<lparr>h_func = sample_func, h_info = with_attr ''output_schema'' (PDict [(''type'', PStr ''object'')]) (sample_skill ''echo''),
         h_type = ''echo''\<rparr> sample_payload (PDict [(''status'', PStr ''success'')]) (sample_runtime sample_worker) = (Inr r, rt') \<and>
     tr_status r = PStr ''failure''"
proof -
  let ?rx = "sample_rxon\<lparr>rx_validate_data := (\<lambda>d s. (False, Some ''bad''))\<rparr>"
  let ?h = "\<lparr>h_func = sample_func, h_info = with_attr ''output_schema'' (PDict [(''type'', PStr ''object'')]) (sample_skill ''echo''),
         h_type = ''echo''\<rparr>"
  let ?run = "finish_answer ?rx (sample_s3 None) sample_task_env ?h sample_payload (PDict [(''status'', PStr ''success'')])
       (sample_runtime sample_worker)"
  have "is_ok (fst ?run)" by code_simp
  then obtain r rt' where run: "?run = (Inr r, rt')" using is_ok_Inr by blast
  have k: "errors_keep_code ?rx" by (auto simp: errors_keep_code_def sample_rxon_def)
  have "truthy (attr (h_info ?h) ''output_schema'')" "rx_status_failure ?rx = ''failure''"
    by (simp_all add: sample_rxon_def)
  then have "tr_status r = PStr ''failure''"
    using output_contract_enforced [OF run k] by (simp add: Let_def)
  with run show ?thesis by blast
qed

section \<open>Signatures and events\<close>

definition signed_result :: "rxon \<Rightarrow> worker_config \<Rightarrow> task_result \<Rightarrow> bool" where
  "signed_result rx cfg r =
     (tr_security r = Some \<lparr>sec_signature = rx_sign rx (ResultMsg (r\<lparr>tr_security := None\<rparr>)) (cfg_worker_token cfg) [],
        sec_signer_id = cfg_worker_id cfg, sec_identity_chain = None\<rparr>)"

lemma bare_result_signed: "token_set cfg \<Longrightarrow> signed_result rx cfg (bare_result rx env cfg t o' s e)"
  by (simp add: bare_result_def sign_result_def signed_result_def sign_set)

lemma complete_result_signed: "token_set cfg \<Longrightarrow> signed_result rx cfg (complete_result rx env cfg t a d md e)"
  by (simp add: complete_result_def Let_def signed_result_def sign_set)

lemma preserves_config_world: "preserves (w_config \<circ> rt_worker) (in_world m)"
  by (simp add: preserves_def in_world_def split: prod.splits)

text \<open>Interleaved coroutines that leave the configuration alone (no token rotation meanwhile).\<close>

definition config_stable :: "'s task_env \<Rightarrow> bool" where
  "config_stable env = (\<forall>rt. w_config (rt_worker (te_during env rt)) = w_config (rt_worker rt))"

lemma run_chain_config:
  "config_stable env \<Longrightarrow> preserves (w_config \<circ> rt_worker) (run_chain rx env h c t ctx kw)"
  by (simp add: preserves_def run_chain_def config_stable_def do_acts_config split: prod.splits)

lemma attempt_config:
  assumes "config_stable env"
  shows "w_config (rt_worker (snd (attempt rx E env h c t rt))) = w_config (rt_worker rt)"
proof -
  have "(w_config \<circ> rt_worker) (snd (attempt rx E env h c t rt)) = (w_config \<circ> rt_worker) rt"
    by (intro attempt_preserves preserves_config_world run_chain_config assms)
  then show ?thesis by simp
qed

lemma finish_answer_signed:
  assumes "finish_answer rx E env h t v rt = (Inr r, rt')" and "token_set (w_config (rt_worker rt))"
  shows "signed_result rx (w_config (rt_worker rt)) r"
  using assms(1) by (rule finish_answer_Inr) (simp add: complete_result_signed assms(2))

lemma result_of_exn_signed: "token_set cfg \<Longrightarrow> signed_result rx cfg (result_of_exn rx env cfg t e)"
  by (cases e; simp add: result_of_exn_def Let_def bare_result_signed)

lemma attempt_signed:
  assumes stable: "config_stable env"
    and run: "attempt rx E env h c t rt = (Inr r, rt')" and tok: "token_set (w_config (rt_worker rt))"
  shows "signed_result rx (w_config (rt_worker rt)) r"
proof -
  from run obtain params kw x rt1 rt2 ctx where
    p: "in_world (process_params E (w_config (rt_worker rt)) (PDict (tp_params t)) (tp_task_id t)) rt = (Inr params, rt1)" and
    c: "run_chain rx env h c t ctx kw rt1 = (Inr x, rt2)" and
    f: "finish_answer rx E env h t x rt2 = (Inr r, rt')"
    by (auto simp: attempt_def Let_def of_result_def elim!: do_then_Inr)
  have "w_config (rt_worker rt2) = w_config (rt_worker rt)"
    using preservesD [OF preserves_config_world p] preservesD [OF run_chain_config [OF stable] c] by simp
  with finish_answer_signed [OF f] tok show ?thesis by simp
qed

text \<open>
  C9: With a token configured every result of a task is signed by the worker: the security context
  names the worker and its signature is that of exactly the result sent, without the security
  field. This covers success, every failure and cancellation.
\<close>

theorem results_signed:
  assumes "config_stable env" and "token_set (w_config (rt_worker rt))"
  shows "signed_result rx (w_config (rt_worker rt)) (oc_result (fst (try_task rx E env c t rt)))"
proof -
  have "w_config (rt_worker rt') = w_config (rt_worker rt)" if "attempt rx E env h c t rt = (r, rt')" for h r rt'
    using attempt_config [OF assms(1), of rx E h c t rt] that by simp
  then show ?thesis
    using attempt_signed [OF assms(1), of rx E _ c t rt] assms(2)
    by (auto simp: try_task_def Let_def unsupported_skill_def invalid_input_def bare_result_signed
        result_of_exn_signed split: option.splits prod.splits sum.splits bool.splits)
qed

definition token_worker :: worker where
  "token_worker = sample_worker\<lparr>w_config := sample_config\<lparr>cfg_worker_token := ''s3cret''\<rparr>\<rparr>"

theorem results_signed_witness:
  "signed_result sample_rxon (w_config token_worker)
     (oc_result (fst (try_task sample_rxon (sample_s3 None) sample_task_env 1 sample_payload (sample_runtime token_worker))))"
proof -
  have w: "w_config (rt_worker (sample_runtime token_worker)) = w_config token_worker"
    by (simp add: sample_runtime_def)
  have "token_set (w_config token_worker)" by code_simp
  moreover have "config_stable sample_task_env" by (simp add: config_stable_def sample_task_env_def)
  ultimately show ?thesis
    using results_signed [of sample_task_env "sample_runtime token_worker"] w by simp
qed

text \<open>
  What a handler asks for: type, payload, priority, security, metadata and origin of each event it
  sends, in order. Progress is an event of its own type.
\<close>

type_synonym event_request = "string \<times> pyval \<times> pyfloat \<times> security_context option \<times> pyval \<times> string option"

fun event_request :: "rxon \<Rightarrow> act \<Rightarrow> event_request option" where
  "event_request rx (SendEvent ty p pr sec md origin) = Some (ty, p, pr, sec, md, origin)"
| "event_request rx (SendProgress progress message) =
     Some (rx_event_progress rx, PDict [(''progress'', progress), (''message'', message)], 0, None, PNone, None)"
| "event_request rx _ = None"

text \<open>
  The contract: the schemas a skill declares bind the events of their types; with any declared,
  strict validation admits no other type than progress.
\<close>

definition contract_allows :: "rxon \<Rightarrow> bool \<Rightarrow> pyval \<Rightarrow> event_request \<Rightarrow> bool" where
  "contract_allows rx strict declared rq = (case rq of (ty, p, _) \<Rightarrow>
     (\<forall>schemas. declared = PDict schemas \<and> schemas \<noteq> [] \<longrightarrow>
        (\<forall>s. dget schemas ty = Some s \<longrightarrow> fst (rx_validate_data rx p s)) \<and>
        (dget schemas ty = None \<and> strict \<longrightarrow> ty = rx_event_progress rx)))"

text \<open>The event that answers a request, on the connection of the task.\<close>

definition event_for :: "rxon \<Rightarrow> worker_config \<Rightarrow> client \<Rightarrow> task_payload \<Rightarrow> event_request \<Rightarrow> client \<times> event_payload \<Rightarrow> bool" where
  "event_for rx cfg c t rq sent = (case rq of (ty, p, pr, sec, md, origin) \<Rightarrow> case sent of (c', ev) \<Rightarrow>
     c' = c \<and> ev_event_type ev = ty \<and> ev_payload ev = p \<and> ev_priority ev = pr \<and> ev_metadata ev = md \<and>
     ev_worker_id ev = cfg_worker_id cfg \<and> ev_origin_task_id ev = tp_task_id t \<and>
     ev_origin_worker_id ev = (if origin \<in> {None, Some []} then cfg_worker_id cfg else the origin) \<and>
     ev_target_job_id ev = tp_job_id t \<and> ev_target_task_id ev = tp_task_id t \<and> ev_bubbling_chain ev = [] \<and>
     ev_security ev =
       (if sec \<noteq> None then sec
        else if cfg_worker_token cfg \<in> {[], default_token} then None
        else Some \<lparr>sec_signature =
            rx_sign rx (EventMsg (ev\<lparr>ev_security := None\<rparr>)) (cfg_worker_token cfg) [''bubbling_chain''],
          sec_signer_id = cfg_worker_id cfg, sec_identity_chain = None\<rparr>))"

definition declared_events :: "handler option \<Rightarrow> pyval" where
  "declared_events h = (case h of Some h \<Rightarrow> attr (h_info h) ''events_schema'' | None \<Rightarrow> PNone)"

lemma event_permitted_iff:
  "event_permitted rx cfg h ty p \<longleftrightarrow>
     contract_allows rx (cfg_strict_event_validation cfg) (declared_events h) (ty, p, rest)"
  by (auto simp: event_permitted_def contract_allows_def declared_events_def events_schema_of_def Let_def
      split: option.splits pyval.splits)

lemma send_event_for:
  "case send_event rx env cfg h t n ty p pr sec md origin of
     None \<Rightarrow> \<not> contract_allows rx (cfg_strict_event_validation cfg) (declared_events h) (ty, p, pr, sec, md, origin)
   | Some ev \<Rightarrow> contract_allows rx (cfg_strict_event_validation cfg) (declared_events h) (ty, p, pr, sec, md, origin) \<and>
       event_for rx cfg c t (ty, p, pr, sec, md, origin) (c, ev)"
  unfolding event_permitted_iff [symmetric]
  by (auto simp: send_event_def event_for_def Let_def sign_payload_if_needed_def str_or_def split: option.splits)

lemma do_act_events:
  "\<exists>new. rt_events (do_act rx env h c t a rt) = rt_events rt @ new \<and>
     list_all2 (event_for rx (w_config (rt_worker rt)) c t)
       (filter (contract_allows rx (cfg_strict_event_validation (w_config (rt_worker rt))) (declared_events h))
         (List.map_filter (event_request rx) [a])) new"
proof -
  note sent = send_event_for [where rx = rx and env = env and cfg = "w_config (rt_worker rt)" and h = h and t = t
      and n = "length (rt_events rt)" and c = c]
  show ?thesis
  proof (cases a)
    case (SendEvent ty p pr sec md origin)
    then show ?thesis using sent [where ty = ty and p = p and pr = pr and sec = sec and md = md and origin = origin]
      by (auto simp: do_act_def Let_def emit_def map_filter_simps split: option.splits)
  next
    case (SendProgress progress message)
    then show ?thesis
      using sent [where ty = "rx_event_progress rx" and p = "PDict [(''progress'', progress), (''message'', message)]"
          and pr = 0 and sec = None and md = PNone and origin = None]
      by (auto simp: do_act_def Let_def emit_def map_filter_simps split: option.splits)
  qed (simp_all add: do_act_def Let_def map_filter_simps)
qed

text \<open>
  C18: The events that reach the orchestrator are those the handler sent that its skill's contract
  allows, one for one and in order, after the earlier ones: each has the content asked for, names the
  worker (and the origin asked for) and the task, goes to the task's job over the task's connection,
  and carries the security context the handler gave, or else, with a token configured, the worker's
  signature over exactly this event without its security field and its bubbling chain.
\<close>

theorem emitted_events_in_order:
  "\<exists>new. rt_events (do_acts rx env h c t acts rt) = rt_events rt @ new \<and>
     list_all2 (event_for rx (w_config (rt_worker rt)) c t)
       (filter (contract_allows rx (cfg_strict_event_validation (w_config (rt_worker rt))) (declared_events h))
         (List.map_filter (event_request rx) acts)) new"
proof (induction acts arbitrary: rt)
  case Nil
  then show ?case by (simp add: do_acts_def map_filter_simps)
next
  case (Cons a acts)
  let ?rt = "do_act rx env h c t a rt" and ?cfg = "w_config (rt_worker rt)"
  let ?allowed = "\<lambda>acts. filter (contract_allows rx (cfg_strict_event_validation ?cfg) (declared_events h))
      (List.map_filter (event_request rx) acts)"
  obtain new1 where n1: "rt_events ?rt = rt_events rt @ new1" "list_all2 (event_for rx ?cfg c t) (?allowed [a]) new1"
    using do_act_events by blast
  obtain new2 where n2: "rt_events (do_acts rx env h c t acts ?rt) = rt_events ?rt @ new2"
    "list_all2 (event_for rx ?cfg c t) (?allowed acts) new2"
    using Cons [of ?rt] by (auto simp: do_act_config)
  have "?allowed (a # acts) = ?allowed [a] @ ?allowed acts"
    by (simp add: map_filter_simps split: option.split)
  moreover have "do_acts rx env h c t (a # acts) rt = do_acts rx env h c t acts ?rt"
    by (simp add: do_acts_def)
  ultimately show ?case
    using n1 n2 list_all2_appendI by (intro exI [of _ "new1 @ new2"]) fastforce
qed

section \<open>Error classes\<close>

text \<open>
  C21: The error table: a handler's task that ends in an exception yields a cancelled result, and
  the exception goes on, exactly for a cancellation; otherwise a failure whose code is
  invalid-input for a parameter error, integrity-mismatch for a ValueError and transient for
  anything else, with the exception's text as message; nothing else goes on.
\<close>

theorem exception_classified:
  assumes "dget (w_handlers (rt_worker rt)) (tp_type t) = Some h"
    and "fst (rx_validate_params rx t (h_info h))" and "attempt rx E env h c t rt = (Inl e, rt')"
  shows "let oc = fst (try_task rx E env c t rt); r = oc_result oc in
    oc_reraised oc = (if e = CancelledError then Some e else None) \<and>
    tr_status r = PStr (if e = CancelledError then rx_status_cancelled rx else rx_status_failure rx) \<and>
    (case tr_error r of
       None \<Rightarrow> e = CancelledError
     | Some err \<Rightarrow> err_message err = PStr (exn_str e) \<and> err_code err = PStr
         (case e of ParamValidationError _ \<Rightarrow> rx_code_invalid_input rx
          | ValueError _ \<Rightarrow> rx_code_integrity_mismatch rx | _ \<Rightarrow> rx_code_transient rx)) \<and>
    tr_data r = None"
proof -
  obtain msg where "rx_validate_params rx t (h_info h) = (True, msg)"
    using assms(2) by (metis (full_types) prod.collapse)
  then show ?thesis
    using assms by (cases e) (simp_all add: try_task_def Let_def result_of_exn_def bare_result_def new_error_def sign_result_def)
qed

theorem exception_classified_witness:
  "\<exists>rt'. attempt sample_rxon (sample_s3 None) sample_task_env
       \<lparr>h_func = sample_func\<lparr>fn_body := (\<lambda>kw. ([], Inl (ValueError ''bad'')))\<rparr>, h_info = sample_skill ''echo'', h_type = ''echo''\<rparr>
       1 sample_payload (sample_runtime (sample_worker\<lparr>w_handlers := [(''echo'', \<lparr>h_func = sample_func\<lparr>fn_body := (\<lambda>kw. ([], Inl (ValueError ''bad'')))\<rparr>, h_info = sample_skill ''echo'', h_type = ''echo''\<rparr>)]\<rparr>)) = (Inl (ValueError ''bad''), rt') \<and>
     tr_status (oc_result (fst (try_task sample_rxon (sample_s3 None) sample_task_env 1 sample_payload
       (sample_runtime (sample_worker\<lparr>w_handlers := [(''echo'', \<lparr>h_func = sample_func\<lparr>fn_body := (\<lambda>kw. ([], Inl (ValueError ''bad'')))\<rparr>, h_info = sample_skill ''echo'', h_type = ''echo''\<rparr>)]\<rparr>))))) = PStr ''failure''"
proof -
  let ?h = "\<lparr>h_func = sample_func\<lparr>fn_body := (\<lambda>kw. ([], Inl (ValueError ''bad'')))\<rparr>, h_info = sample_skill ''echo'', h_type = ''echo''\<rparr>"
  let ?rt = "sample_runtime (sample_worker\<lparr>w_handlers := [(''echo'', ?h)]\<rparr>)"
  let ?run = "attempt sample_rxon (sample_s3 None) sample_task_env ?h 1 sample_payload ?rt"
  have e: "fst ?run = Inl (ValueError ''bad'')" by code_simp
  obtain rt' where run: "?run = (Inl (ValueError ''bad''), rt')"
    using e by (cases ?run) simp
  have h: "dget (w_handlers (rt_worker ?rt)) (tp_type sample_payload) = Some ?h"
    by (simp add: sample_runtime_def sample_payload_def)
  have v: "fst (rx_validate_params sample_rxon sample_payload (h_info ?h))" by (simp add: sample_rxon_def)
  have "rx_status_failure sample_rxon = ''failure''" by (simp add: sample_rxon_def)
  with exception_classified [OF h v run] run show ?thesis by (auto simp: Let_def)
qed

text \<open>
  The search for missing dataclass fields never finds one: fields without default carry
  \<open>dataclasses.MISSING\<close>, not the marker the code compares with. It is the constructor that
  complains, and its complaint becomes a parameter error.
\<close>

lemma missing_fields_unreachable:
  assumes "param_annotation f = DataclassParams fs build" and "list_all (\<lambda>x. pf_default x \<noteq> ParameterEmpty) fs"
  shows "prepare_task_params f params =
    (case build (filter (\<lambda>(k, v). k \<in> set (map pf_name fs)) params) of
       Inl (TypeError m) \<Rightarrow> Inl (ParamValidationError m)
     | Inl (ValueError m) \<Rightarrow> Inl (ParamValidationError m)
     | r \<Rightarrow> r)"
proof -
  have "required_fields fs = []"
    using assms(2) by (auto simp: required_fields_def list_all_iff filter_empty_conv)
  with assms(1) show ?thesis by (simp add: prepare_task_params_def)
qed

end
