(* ===== verification/Task_Accounting.thy ===== *)
theory Task_Accounting
  imports Polling Task_Run
begin

text \<open>
  The books over all tasks together: a transition system in which polls deliver tasks, their
  coroutines start, act, finish, are refused by the gate or are cut off, in any interleaving. Its
  steps are the operations of the polling and task theories. The invariant says what the counters
  count.
\<close>

section \<open>The system\<close>

record system =
  sy_worker :: worker
  sy_pending :: "(handle \<times> task_payload) list" \<comment> \<open>coroutines created, not yet running\<close>
  sy_running :: "(handle \<times> task_payload \<times> string option) list" \<comment> \<open>past the gate, with the captured type\<close>
  sy_lost :: "task_payload list" \<comment> \<open>ended without the bookkeeping\<close>

text \<open>
  \<open>secret\<close> is the signature key. \<open>refuse\<close>: the gate raises. \<open>cancelled_early\<close>: the coroutine is
  cancelled before it enters its \<open>try\<close> statement. \<open>cut_off\<close>: cleanup or sending is interrupted.
\<close>

inductive sys_step :: "rxon \<Rightarrow> string option \<Rightarrow> system \<Rightarrow> system \<Rightarrow> bool" for rx secret where
  accept: "sys_step rx secret s (s\<lparr>sy_worker := po_worker p, sy_pending := (pe_handle pe, t) # sy_pending s\<rparr>)"
    if "p = poll_answered pe c (PollTask t) (sy_worker s)" and "po_raised p = None"
| no_task_answer: "sys_step rx secret s (s\<lparr>sy_worker := po_worker (poll_answered pe c ans (sy_worker s))\<rparr>)"
    if "\<And>t. ans \<noteq> PollTask t"
| refuse: "sys_step rx secret s (s\<lparr>sy_pending := remove1 (h, t) (sy_pending s), sy_lost := t # sy_lost s\<rparr>)"
    if "(h, t) \<in> set (sy_pending s)" and "\<not> is_ok (task_gate rx secret t)"
| cancelled_early: "sys_step rx secret s (s\<lparr>sy_pending := remove1 (h, t) (sy_pending s), sy_lost := t # sy_lost s\<rparr>)"
    if "(h, t) \<in> set (sy_pending s)"
| start: "sys_step rx secret s (s\<lparr>sy_pending := remove1 (h, t) (sy_pending s),
      sy_running := (h, t, captured_type (sy_worker s) t) # sy_running s\<rparr>)"
    if "(h, t) \<in> set (sy_pending s)" and "task_gate rx secret t = Inr ()"
| hot: "sys_step rx secret s (s\<lparr>sy_worker := add_to_hot_skills item (sy_worker s)\<rparr>)"
| cold: "sys_step rx secret s (s\<lparr>sy_worker := remove_from_hot_skills item (sy_worker s)\<rparr>)"
| finish: "sys_step rx secret s (s\<lparr>sy_worker := w, sy_running := remove1 (h, t, ty) (sy_running s)\<rparr>)"
    if "(h, t, ty) \<in> set (sy_running s)" and "release_slot (tp_task_id t) ty (sy_worker s) = (w, None)"
| cut_off: "sys_step rx secret s (s\<lparr>sy_running := remove1 (h, t, ty) (sy_running s), sy_lost := t # sy_lost s\<rparr>)"
    if "(h, t, ty) \<in> set (sy_running s)"

inductive_cases sys_stepE: "sys_step rx secret s s'"

definition reachable :: "rxon \<Rightarrow> string option \<Rightarrow> worker \<Rightarrow> system \<Rightarrow> bool" where
  "reachable rx secret w s =
     (sys_step rx secret)\<^sup>*\<^sup>* \<lparr>sy_worker = w, sy_pending = [], sy_running = [], sy_lost = []\<rparr> s"

text \<open>The tasks the counters still count, those whose bookkeeping was lost included.\<close>

definition counted_tasks :: "system \<Rightarrow> task_payload list" where
  "counted_tasks s = map snd (sy_pending s) @ map (fst \<circ> snd) (sy_running s) @ sy_lost s"

definition count_tasks :: "(task_payload \<Rightarrow> bool) \<Rightarrow> task_payload list \<Rightarrow> int" where
  "count_tasks p ts = int (length (filter p ts))"

lemma count_tasks_simps [simp]:
  "count_tasks p [] = 0" "count_tasks p (t # ts) = (if p t then 1 else 0) + count_tasks p ts"
  "count_tasks p (xs @ ys) = count_tasks p xs + count_tasks p ys"
  by (simp_all add: count_tasks_def)

lemma count_remove1:
  assumes "x \<in> set xs"
  shows "count_tasks p (map f (remove1 x xs)) = count_tasks p (map f xs) - (if p (f x) then 1 else 0)"
  using assms by (induction xs) auto

section \<open>A ledger\<close>

text \<open>
  A counter that accepting a task raises and releasing its slot lowers, where \<open>counts w t\<close> says
  whether the worker counts task \<open>t\<close> in it.
\<close>

locale ledger =
  fixes load :: "worker \<Rightarrow> int" and counts :: "worker \<Rightarrow> task_payload \<Rightarrow> bool"
  assumes accept_load: "po_raised (accept_task c h t w) = None \<Longrightarrow>
      load (po_worker (accept_task c h t w)) = load w + (if counts w t then 1 else 0)"
    and release_load: "release_slot k (captured_type w t) w = (w', None) \<Longrightarrow>
      load w' = load w - (if counts w t then 1 else 0)"
    and counts_handlers: "w_handlers w' = w_handlers w \<Longrightarrow> counts w' t = counts w t"
    and load_frame: "w_current_load w' = w_current_load w \<Longrightarrow> w_load_by_type w' = w_load_by_type w \<Longrightarrow> load w' = load w"
begin

definition balanced :: "system \<Rightarrow> bool" where
  "balanced s = (load (sy_worker s) = count_tasks (counts (sy_worker s)) (counted_tasks s))"

end

lemma captured_handlers: "w_handlers w' = w_handlers w \<Longrightarrow> captured_type w' t = captured_type w t"
  by (simp add: captured_type_def)

lemma release_handlers: "release_slot k ty w = (w', e) \<Longrightarrow> w_handlers w' = w_handlers w"
  by (cases ty) (auto simp: release_slot_def drop_type_load_def Let_def split: option.splits)

lemma hot_handlers [simp]:
  "w_handlers (add_to_hot_skills x w) = w_handlers w" "w_handlers (remove_from_hot_skills x w) = w_handlers w"
  by (simp_all add: add_to_hot_skills_def remove_from_hot_skills_def)

lemma answered_task: "poll_answered pe c (PollTask t) w = accept_task c (pe_handle pe) t (clear_poll_backoff c w)"
  by (simp add: poll_answered_def)

lemma answered_other:
  assumes "\<And>t. ans \<noteq> PollTask t"
  shows "w_handlers (po_worker (poll_answered pe c ans w)) = w_handlers w"
    and "w_current_load (po_worker (poll_answered pe c ans w)) = w_current_load w"
    and "w_load_by_type (po_worker (poll_answered pe c ans w)) = w_load_by_type w"
    and "w_config (po_worker (poll_answered pe c ans w)) = w_config w"
  using assms by (auto simp: poll_answered_def split: poll_answer.splits)

text \<open>Handlers stay as they were, so a running task's captured type is the type the worker files it under.\<close>

definition types_agree :: "system \<Rightarrow> bool" where
  "types_agree s = list_all (\<lambda>(h, t, ty). ty = captured_type (sy_worker s) t) (sy_running s)"

lemma sys_step_handlers:
  "sys_step rx secret s s' \<Longrightarrow> w_handlers (sy_worker s') = w_handlers (sy_worker s)"
  by (induction rule: sys_step.induct) (auto simp: answered_task answered_other dest: release_handlers)

lemma sys_step_types:
  assumes "sys_step rx secret s s'" and "types_agree s"
  shows "types_agree s'"
proof -
  have "captured_type (sy_worker s') = captured_type (sy_worker s)"
    using captured_handlers [OF sys_step_handlers [OF assms(1)]] by blast
  with assms show ?thesis
    by (cases rule: sys_step.cases)
      (auto simp: types_agree_def list_all_iff dest!: set_remove1_subset [THEN subsetD])
qed

context ledger
begin

lemma step_balanced:
  assumes step: "sys_step rx secret s s'" and bal: "balanced s" and types: "types_agree s"
  shows "balanced s'"
proof -
  have cnt: "counts (sy_worker s') = counts (sy_worker s)"
    using counts_handlers [OF sys_step_handlers [OF step]] by blast
  have frame: "load (clear_poll_backoff c w) = load w" "load (add_to_hot_skills x w) = load w"
    "load (remove_from_hot_skills x w) = load w" for c x w
    by (rule load_frame; simp)+
  from step show ?thesis
  proof cases
    case (accept p pe c t)
    then have "load (sy_worker s') = load (sy_worker s) + (if counts (sy_worker s) t then 1 else 0)"
      using accept_load [of c "pe_handle pe" t "clear_poll_backoff c (sy_worker s)"] frame(1)
        counts_handlers [of "clear_poll_backoff c (sy_worker s)" "sy_worker s" t]
      by (simp add: answered_task)
    with bal cnt accept show ?thesis by (simp add: balanced_def counted_tasks_def)
  next
    case (no_task_answer ans pe c)
    then have "load (sy_worker s') = load (sy_worker s)"
      by (intro load_frame) (simp_all add: answered_other)
    with bal cnt no_task_answer show ?thesis by (simp add: balanced_def counted_tasks_def)
  next
    case (finish h t ty w)
    then have "ty = captured_type (sy_worker s) t" using types by (auto simp: types_agree_def list_all_iff)
    with finish have "load (sy_worker s') = load (sy_worker s) - (if counts (sy_worker s) t then 1 else 0)"
      using release_load [of "tp_task_id t" "sy_worker s" t w] by simp
    with bal cnt finish show ?thesis
      by (simp add: balanced_def counted_tasks_def count_remove1 [OF finish(2)])
  qed (use bal cnt frame in \<open>auto simp: balanced_def counted_tasks_def count_remove1\<close>)
qed

lemma reachable_balanced:
  assumes "reachable rx secret w s" and "load w = 0"
  shows "balanced s"
proof -
  have "balanced s \<and> types_agree s"
    using assms(1) unfolding reachable_def
  proof (induction rule: rtranclp_induct)
    case base
    then show ?case using assms(2) by (simp add: balanced_def counted_tasks_def types_agree_def)
  next
    case (step s1 s2)
    then show ?case using step_balanced sys_step_types by blast
  qed
  then show ?thesis ..
qed

end

lemma accept_type_load:
  assumes "po_raised (accept_task c h t w) = None"
  shows "dget_or (w_load_by_type (po_worker (accept_task c h t w))) ty 0 =
    dget_or (w_load_by_type w) ty 0 + (if captured_type w t = Some ty then 1 else 0)"
  using assms
  by (auto simp: accept_task_def Let_def bump_type_load_def type_for_limit_def captured_type_def dict_simps
      dget_or_def split: option.splits if_splits)

lemma release_None:
  assumes "release_slot k ty w = (w', None)"
  shows "w_current_load w' = w_current_load w - 1"
    and "dget_or (w_load_by_type w') x 0 = dget_or (w_load_by_type w) x 0 - (if ty = Some x then 1 else 0)"
  using assms
  by (auto simp: release_slot_def drop_type_load_def Let_def dict_simps dget_or_def split: option.splits)

interpretation slots: ledger w_current_load "\<lambda>w t. True"
proof unfold_locales
  fix k w t w'
  assume "release_slot k (captured_type w t) w = (w', None)"
  then show "w_current_load w' = w_current_load w - (if True then 1 else 0)" by (simp add: release_None(1))
qed simp_all

text \<open>One ledger per skill type.\<close>

interpretation type_slots: ledger "\<lambda>w. dget_or (w_load_by_type w) ty 0" "\<lambda>w t. captured_type w t = Some ty" for ty
proof unfold_locales
  fix c h t w
  assume "po_raised (accept_task c h t w) = None"
  then show "dget_or (w_load_by_type (po_worker (accept_task c h t w))) ty 0 =
      dget_or (w_load_by_type w) ty 0 + (if captured_type w t = Some ty then 1 else 0)"
    by (rule accept_type_load)
next
  fix k w t w'
  assume "release_slot k (captured_type w t) w = (w', None)"
  then show "dget_or (w_load_by_type w') ty 0 = dget_or (w_load_by_type w) ty 0 - (if captured_type w t = Some ty then 1 else 0)"
    by (rule release_None(2))
next
  fix w' w :: worker and t
  assume "w_handlers w' = w_handlers w"
  then have "captured_type w' t = captured_type w t" by (rule captured_handlers)
  then show "(captured_type w' t = Some ty) = (captured_type w t = Some ty)" by simp
next
  fix w' w :: worker
  assume "w_load_by_type w' = w_load_by_type w"
  then show "dget_or (w_load_by_type w') ty 0 = dget_or (w_load_by_type w) ty 0" by simp
qed

lemma accept_wf:
  assumes "worker_wf w"
  shows "po_raised (accept_task c h t w) = None \<and> worker_wf (po_worker (accept_task c h t w))"
proof -
  have has: "type_for_limit (tp_type t) w = Some ty \<Longrightarrow> \<exists>n. dget (w_load_by_type w) ty = Some n" for ty
    using worker_wf_handler(2) [OF assms] by (fastforce simp: type_for_limit_def dhas_iff split: option.splits if_splits)
  have tfl: "type_for_limit (tp_type t) (w\<lparr>w_current_load := n\<rparr>) = type_for_limit (tp_type t) w" for n
    by (simp add: type_for_limit_def)
  have keys: "dkeys (w_load_by_type (po_worker (accept_task c h t w))) = dkeys (w_load_by_type w)"
    by (cases "type_for_limit (tp_type t) w")
      (auto simp: accept_task_def Let_def tfl bump_type_load_def dict.keys_get dict.keys_put_old split: option.splits)
  have "po_raised (accept_task c h t w) = None"
    by (cases "type_for_limit (tp_type t) w") (auto simp: accept_task_def Let_def tfl bump_type_load_def dest: has)
  moreover have "worker_wf (po_worker (accept_task c h t w))"
    by (rule worker_wf_cong [THEN iffD2, OF _ keys assms]) simp
  ultimately show ?thesis ..
qed

lemma clear_wf: "worker_wf (clear_poll_backoff c w) = worker_wf w"
  by (rule worker_wf_cong) simp_all

section \<open>Properties\<close>

text \<open>
  C2: The books balance: in every reachable interleaving of polls, starts, refusals, callbacks,
  finishes and cancellations, the load is the number of tasks delivered and not finished plus
  those whose coroutine ended without the bookkeeping, and the counter of each type is the number
  of those of that type. In particular, when nothing was lost an idle worker's counters are zero.
\<close>

theorem load_counts_tasks:
  assumes "reachable rx secret w s" and "w_current_load w = 0" and "dget_or (w_load_by_type w) ty 0 = 0"
  shows "w_current_load (sy_worker s) =
      int (length (sy_pending s) + length (sy_running s) + length (sy_lost s)) \<and>
    dget_or (w_load_by_type (sy_worker s)) ty 0 =
      count_tasks (\<lambda>t. captured_type (sy_worker s) t = Some ty) (counted_tasks s)"
proof -
  have "slots.balanced s" by (rule slots.reachable_balanced [OF assms(1,2)])
  moreover have "type_slots.balanced ty s" by (rule type_slots.reachable_balanced [OF assms(1,3)])
  ultimately show ?thesis
    by (simp add: slots.balanced_def type_slots.balanced_def counted_tasks_def count_tasks_def)
qed

definition refusable :: task_payload where
  "refusable = sample_payload\<lparr>tp_policy := Some (PolicyDict [(''allowed_skills'', PList [])])\<rparr>"

lemma refused_system:
  "\<exists>s. reachable sample_rxon None sample_worker s \<and> sy_lost s = [refusable, refusable] \<and>
     sy_pending s = [] \<and> sy_running s = []"
proof -
  define lose :: "system \<Rightarrow> system" where "lose s = (let p = poll_answered (sample_env 1) 1 (PollTask refusable) (sy_worker s)
      in s\<lparr>sy_worker := po_worker p, sy_lost := refusable # sy_lost s\<rparr>)" for s
  have refused: "\<not> is_ok (task_gate sample_rxon None refusable)"
    by (simp add: task_gate_def refusable_def sample_payload_def allowed_skills_def dget_or_def)
  have two: "(sys_step sample_rxon None)\<^sup>*\<^sup>* s (lose s)"
    if "po_raised (poll_answered (sample_env 1) 1 (PollTask refusable) (sy_worker s)) = None" "sy_pending s = []" for s
  proof -
    let ?p = "poll_answered (sample_env 1) 1 (PollTask refusable) (sy_worker s)" and ?h = "pe_handle (sample_env 1)"
    let ?s1 = "s\<lparr>sy_worker := po_worker ?p, sy_pending := (?h, refusable) # sy_pending s\<rparr>"
    have "sys_step sample_rxon None s ?s1" by (rule sys_step.accept [OF refl that(1)])
    moreover have "sys_step sample_rxon None ?s1 (?s1\<lparr>sy_pending := remove1 (?h, refusable) (sy_pending ?s1), sy_lost := refusable # sy_lost ?s1\<rparr>)"
      by (rule sys_step.refuse [OF _ refused]) simp
    moreover have "?s1\<lparr>sy_pending := remove1 (?h, refusable) (sy_pending ?s1), sy_lost := refusable # sy_lost ?s1\<rparr> = lose s"
      using that(2) by (simp add: lose_def Let_def)
    ultimately show ?thesis by auto
  qed
  let ?s0 = "\<lparr>sy_worker = sample_worker, sy_pending = [], sy_running = [], sy_lost = []\<rparr>"
  have wf: "po_raised (poll_answered (sample_env 1) 1 (PollTask refusable) w) = None \<and>
      worker_wf (po_worker (poll_answered (sample_env 1) 1 (PollTask refusable) w))" if "worker_wf w" for w
    using accept_wf [of "clear_poll_backoff 1 w"] that by (simp add: answered_task clear_wf)
  have "po_raised (poll_answered (sample_env 1) 1 (PollTask refusable) sample_worker) = None"
    "po_raised (poll_answered (sample_env 1) 1 (PollTask refusable) (sy_worker (lose ?s0))) = None"
    using wf [OF sample_worker_wf] wf [of "sy_worker (lose ?s0)"] by (simp_all add: lose_def Let_def)
  then have "(sys_step sample_rxon None)\<^sup>*\<^sup>* ?s0 (lose (lose ?s0))"
    by (intro rtranclp_trans [OF two two]) (simp_all add: lose_def Let_def)
  then show ?thesis unfolding reachable_def
    by (rule exI [of _ "lose (lose ?s0)", OF conjI]) (simp add: lose_def Let_def)
qed

theorem load_counts_tasks_witness:
  "\<exists>s. reachable sample_rxon None sample_worker s \<and> w_current_load (sy_worker s) = 2 \<and> sy_running s = []"
proof -
  obtain s where s: "reachable sample_rxon None sample_worker s" "sy_lost s = [refusable, refusable]"
    "sy_pending s = []" "sy_running s = []" using refused_system by blast
  have "w_current_load sample_worker = 0" "dget_or (w_load_by_type sample_worker) ''echo'' 0 = 0"
    by (simp_all add: sample_worker_def dget_or_def)
  from load_counts_tasks [OF s(1) this] s show ?thesis by auto
qed

lemma sys_step_config:
  "sys_step rx secret s s' \<Longrightarrow> w_config (sy_worker s') = w_config (sy_worker s)"
proof (induction rule: sys_step.induct)
  case (finish h t ty s w)
  then show ?case
    by (cases ty) (auto simp: release_slot_def drop_type_load_def Let_def split: option.splits)
qed (simp_all add: answered_task answered_other)

lemma sys_step_lost: "sys_step rx secret s s' \<Longrightarrow> length (sy_lost s) \<le> length (sy_lost s')"
  by (induction rule: sys_step.induct) simp_all

lemma reachable_config: "reachable rx secret w s \<Longrightarrow> w_config (sy_worker s) = w_config w"
  unfolding reachable_def by (induction rule: rtranclp_induct) (auto dest: sys_step_config)

text \<open>
  C4: Lost bookkeeping is never made up for: once as many tasks as the concurrency limit allows
  have been refused by the gate (or cancelled before they ran), no continuation of the history
  ever sends a poll again, even with no task in flight.
\<close>

theorem lost_slots_stop_polling:
  assumes "reachable rx secret w s" and "w_current_load w = 0"
    and "cfg_max_concurrent_tasks (w_config w) \<le> int (length (sy_lost s))" and "(sys_step rx secret)\<^sup>*\<^sup>* s s'"
  shows "poll_request c now (sy_worker s') = None"
proof -
  have r: "reachable rx secret w s'"
    using assms(1,4) unfolding reachable_def by (rule rtranclp_trans)
  have "length (sy_lost s) \<le> length (sy_lost s')"
    using assms(4) by (induction rule: rtranclp_induct) (auto dest: sys_step_lost)
  moreover have "slots.balanced s'" by (rule slots.reachable_balanced [OF r assms(2)])
  ultimately have "cfg_max_concurrent_tasks (w_config (sy_worker s')) \<le> w_current_load (sy_worker s')"
    using assms(3) reachable_config [OF r] by (simp add: slots.balanced_def counted_tasks_def count_tasks_def)
  then show ?thesis
    using get_current_state_cases(1) [of "sy_worker s'"] by (simp add: poll_request_def Let_def)
qed

theorem lost_slots_stop_polling_witness:
  "\<exists>s. reachable sample_rxon None sample_worker s \<and> sy_pending s = [] \<and> sy_running s = [] \<and>
     poll_request 1 1000 (sy_worker s) = None"
proof -
  obtain s where s: "reachable sample_rxon None sample_worker s" "sy_lost s = [refusable, refusable]"
    "sy_pending s = []" "sy_running s = []" using refused_system by blast
  have "w_current_load sample_worker = 0"
    "cfg_max_concurrent_tasks (w_config sample_worker) \<le> int (length (sy_lost s))"
    using s(2) by (simp_all add: sample_worker_def sample_config_def)
  from lost_slots_stop_polling [OF s(1) this rtranclp.rtrancl_refl] s show ?thesis by blast
qed

end
