(* ===== verification/Slot_Pool.thy ===== *)
theory Slot_Pool
  imports Task_Accounting
begin

text \<open>
  Polling and the tasks together, as the implementation of a pool of slots: a poll reserves a slot
  before the request goes out, an answer without a task or the end of a task gives it back. The
  step relation adds the guards of polling to the transition system of \<open>Task_Accounting\<close>.
\<close>

section \<open>The polled system\<close>

record polled =
  pl_system :: system
  pl_asking :: "client option" \<comment> \<open>the orchestrator whose answer the polling task awaits\<close>

text \<open>
  \<open>ask\<close>: the guards of a poll pass and the request is sent. \<open>got_task\<close>, \<open>got_nothing\<close>: its answer.
  \<open>poll_crashes\<close>: counting the task raises. \<open>work\<close>: any other step; it delivers no task.
\<close>

inductive polled_step :: "rxon \<Rightarrow> string option \<Rightarrow> polled \<Rightarrow> polled \<Rightarrow> bool" for rx secret where
  ask: "polled_step rx secret s (s\<lparr>pl_asking := Some c\<rparr>)"
    if "pl_asking s = None" and "poll_request c now (sy_worker (pl_system s)) = Some offer"
| got_task: "polled_step rx secret s \<lparr>pl_system = (pl_system s)\<lparr>sy_worker := po_worker p,
      sy_pending := (pe_handle pe, t) # sy_pending (pl_system s)\<rparr>, pl_asking = None\<rparr>"
    if "pl_asking s = Some c" and "p = poll_answered pe c (PollTask t) (sy_worker (pl_system s))" and "po_raised p = None"
| poll_crashes: "polled_step rx secret s \<lparr>pl_system = (pl_system s)\<lparr>sy_worker := po_worker p\<rparr>, pl_asking = None\<rparr>"
    if "pl_asking s = Some c" and "p = poll_answered pe c (PollTask t) (sy_worker (pl_system s))" and "po_raised p \<noteq> None"
| got_nothing: "polled_step rx secret s
      \<lparr>pl_system = (pl_system s)\<lparr>sy_worker := po_worker (poll_answered pe c ans (sy_worker (pl_system s)))\<rparr>, pl_asking = None\<rparr>"
    if "pl_asking s = Some c" and "\<And>t. ans \<noteq> PollTask t"
| work: "polled_step rx secret s (s\<lparr>pl_system := y\<rparr>)"
    if "sys_step rx secret (pl_system s) y" and "length (sy_pending y) \<le> length (sy_pending (pl_system s))"

inductive_cases polled_stepE: "polled_step rx secret s s'"

definition at_start :: "worker \<Rightarrow> polled" where
  "at_start w = \<lparr>pl_system = \<lparr>sy_worker = w, sy_pending = [], sy_running = [], sy_lost = []\<rparr>, pl_asking = None\<rparr>"

definition polled_reachable :: "rxon \<Rightarrow> string option \<Rightarrow> worker \<Rightarrow> polled \<Rightarrow> bool" where
  "polled_reachable rx secret w s = (polled_step rx secret)\<^sup>*\<^sup>* (at_start w) s"

section \<open>The abstract pool\<close>

text \<open>A pool of \<open>n\<close> slots, of which \<open>u\<close> are taken.\<close>

inductive pool_step :: "int \<Rightarrow> int \<Rightarrow> int \<Rightarrow> bool" for n where
  acquire: "u < n \<Longrightarrow> pool_step n u (u + 1)"
| release: "0 < u \<Longrightarrow> pool_step n u (u - 1)"
| idle: "pool_step n u u"

inductive_simps pool_step_simps: "pool_step n u v"

text \<open>The slots taken: one per task counted, one for the request that is out.\<close>

definition taken :: "polled \<Rightarrow> int" where
  "taken s = w_current_load (sy_worker (pl_system s)) + (if pl_asking s = None then 0 else 1)"

lemma pool_bounds: "(pool_step n)\<^sup>*\<^sup>* u v \<Longrightarrow> 0 \<le> u \<and> u \<le> n \<Longrightarrow> 0 \<le> v \<and> v \<le> n"
  by (induction rule: rtranclp_induct) (auto simp: pool_step_simps)

section \<open>Well-formed workers stay so\<close>

lemma answered_other_wf:
  assumes "\<And>t. ans \<noteq> PollTask t"
  shows "worker_wf (po_worker (poll_answered pe c ans w)) = worker_wf w"
  using answered_other [OF assms, of pe c w] by (intro worker_wf_cong) simp_all

lemma sys_step_wf:
  assumes "sys_step rx secret s s'" and "types_agree s" and wf: "worker_wf (sy_worker s)"
  shows "worker_wf (sy_worker s')"
  using assms(1)
proof cases
  case (accept p pe c t)
  with accept_wf [of "clear_poll_backoff c (sy_worker s)"] wf show ?thesis by (simp add: answered_task clear_wf)
next
  case (no_task_answer ans pe c)
  with wf show ?thesis by (simp add: answered_other_wf)
next
  case (hot item)
  have "worker_wf (add_to_hot_skills item (sy_worker s)) = worker_wf (sy_worker s)"
    by (rule worker_wf_cong) (simp_all add: add_to_hot_skills_def)
  with hot wf show ?thesis by simp
next
  case (cold item)
  have "worker_wf (remove_from_hot_skills item (sy_worker s)) = worker_wf (sy_worker s)"
    by (rule worker_wf_cong) (simp_all add: remove_from_hot_skills_def)
  with cold wf show ?thesis by simp
next
  case (finish h t ty w)
  have "ty = captured_type (sy_worker s) t" using finish assms(2) by (auto simp: types_agree_def list_all_iff)
  then have "dkeys (w_load_by_type w) = dkeys (w_load_by_type (sy_worker s))"
    using release_slot_result [OF _ finish(3)] captured_counter [OF wf] by blast
  then have "worker_wf w = worker_wf (sy_worker s)"
    by (intro worker_wf_cong release_handlers [OF finish(3)])
  with finish wf show ?thesis by simp
qed (use wf in simp_all)

lemma reachable_wf:
  assumes "reachable rx secret w s" and "worker_wf w"
  shows "worker_wf (sy_worker s) \<and> types_agree s"
  using assms(1) unfolding reachable_def
proof (induction rule: rtranclp_induct)
  case base
  then show ?case using assms(2) by (simp add: types_agree_def)
next
  case (step s1 s2)
  then show ?case using sys_step_wf sys_step_types by blast
qed

text \<open>Every history of the polled system is one of the unguarded system; the crash does not occur.\<close>

lemma polled_in_system:
  assumes "polled_reachable rx secret w s" and "worker_wf w"
  shows "reachable rx secret w (pl_system s)"
  using assms(1) unfolding polled_reachable_def
proof (induction rule: rtranclp_induct)
  case base
  then show ?case by (simp add: reachable_def at_start_def)
next
  case (step s1 s2)
  have more: "reachable rx secret w y" if "sys_step rx secret (pl_system s1) y" for y
    using step.IH that unfolding reachable_def by (rule rtranclp.rtrancl_into_rtrancl)
  have wf: "worker_wf (sy_worker (pl_system s1))" using reachable_wf [OF step.IH assms(2)] ..
  from step.hyps(2) show ?case
  proof cases
    case (got_task c p pe t)
    with more [OF sys_step.accept [OF got_task(3,4)]] show ?thesis by simp
  next
    case (poll_crashes c p pe t)
    with accept_wf [of "clear_poll_backoff c (sy_worker (pl_system s1))"] wf show ?thesis
      by (simp add: answered_task clear_wf)
  next
    case (got_nothing c ans pe)
    with more [OF sys_step.no_task_answer [OF got_nothing(3)]] show ?thesis by simp
  qed (use step.IH more in simp_all)
qed

text \<open>Without a delivery the load stays, or falls by one from a positive value.\<close>

lemma work_load:
  assumes "sys_step rx secret y y'" and "length (sy_pending y') \<le> length (sy_pending y)" and "slots.balanced y"
  shows "w_current_load (sy_worker y') = w_current_load (sy_worker y) \<or>
    (0 < w_current_load (sy_worker y) \<and> w_current_load (sy_worker y') = w_current_load (sy_worker y) - 1)"
  using assms(1)
proof cases
  case (accept p pe c t)
  with assms(2) show ?thesis by simp
next
  case (finish h t ty w)
  from finish(2) have "0 < length (sy_running y)" by (rule length_pos_if_in_set)
  moreover have "w_current_load (sy_worker y) = int (length (sy_pending y) + length (sy_running y) + length (sy_lost y))"
    using assms(3) by (simp add: slots.balanced_def counted_tasks_def count_tasks_def)
  ultimately have "0 < w_current_load (sy_worker y)" by linarith
  with finish release_None(1) [OF finish(3)] show ?thesis by simp
qed (simp_all add: answered_other add_to_hot_skills_def remove_from_hot_skills_def)

lemma step_simulates:
  assumes "polled_reachable rx secret w s" and "worker_wf w" and "w_current_load w = 0"
    and "polled_step rx secret s s'"
  shows "pool_step (cfg_max_concurrent_tasks (w_config w)) (taken s) (taken s')"
proof -
  note r = polled_in_system [OF assms(1,2)]
  have bal: "slots.balanced (pl_system s)" by (rule slots.reachable_balanced [OF r assms(3)])
  then have pos: "0 \<le> w_current_load (sy_worker (pl_system s))" by (simp add: slots.balanced_def count_tasks_def)
  have wf: "worker_wf (sy_worker (pl_system s))" using reachable_wf [OF r assms(2)] ..
  from assms(4) show ?thesis
  proof cases
    case (ask c now offer)
    have "w_current_load (sy_worker (pl_system s)) < cfg_max_concurrent_tasks (w_config w)"
      using ask(3) poll_request_Some(1) reachable_config [OF r] by (cases offer) metis
    with ask show ?thesis by (simp add: taken_def pool_step_simps)
  next
    case (got_task c p pe t)
    then show ?thesis by (simp add: taken_def pool_step_simps answered_task)
  next
    case (poll_crashes c p pe t)
    with accept_wf [of "clear_poll_backoff c (sy_worker (pl_system s))"] wf show ?thesis
      by (simp add: answered_task clear_wf)
  next
    case (got_nothing c ans pe)
    with pos show ?thesis by (simp add: taken_def pool_step_simps answered_other(2))
  next
    case (work y)
    with work_load [OF work(2,3) bal] show ?thesis by (auto simp: taken_def pool_step_simps)
  qed
qed

section \<open>Properties\<close>

text \<open>
  C3: Polling and task handling implement a pool of \<open>MAX_CONCURRENT_TASKS\<close> slots: every step of every
  interleaving takes a free slot, gives one back or leaves the pool alone, so that at all times the
  load is between zero and the limit, and below it while a request for a task is out.
\<close>

theorem implements_slot_pool:
  assumes "polled_reachable rx secret w s" and "worker_wf w" and "w_current_load w = 0"
    and "0 \<le> cfg_max_concurrent_tasks (w_config w)"
  shows "(polled_step rx secret s s' \<longrightarrow> pool_step (cfg_max_concurrent_tasks (w_config w)) (taken s) (taken s')) \<and>
    0 \<le> w_current_load (sy_worker (pl_system s)) \<and> taken s \<le> cfg_max_concurrent_tasks (w_config w)"
proof -
  let ?n = "cfg_max_concurrent_tasks (w_config w)"
  have "(pool_step ?n)\<^sup>*\<^sup>* 0 (taken s)"
    using assms(1) unfolding polled_reachable_def
  proof (induction rule: rtranclp_induct)
    case base
    then show ?case using assms(3) by (simp add: taken_def at_start_def)
  next
    case (step s1 s2)
    have "pool_step ?n (taken s1) (taken s2)"
      by (rule step_simulates [OF _ assms(2,3) step.hyps(2)]) (simp add: polled_reachable_def step.hyps(1))
    with step.IH show ?case by (rule rtranclp.rtrancl_into_rtrancl)
  qed
  from pool_bounds [OF this] assms(4) have "taken s \<le> ?n" by simp
  moreover have "0 \<le> w_current_load (sy_worker (pl_system s))"
    using slots.reachable_balanced [OF polled_in_system [OF assms(1,2)] assms(3)]
    by (simp add: slots.balanced_def count_tasks_def)
  ultimately show ?thesis using step_simulates [OF assms(1-3)] by blast
qed

theorem implements_slot_pool_witness:
  "\<exists>s. polled_reachable sample_rxon None sample_worker s \<and> pl_asking s = Some 1 \<and> taken s \<le> 2"
proof -
  have "poll_request 1 100 sample_worker = Some ([''echo''], [])"
    by (simp add: sample_polls)
  then have "polled_step sample_rxon None (at_start sample_worker) ((at_start sample_worker)\<lparr>pl_asking := Some 1\<rparr>)"
    by (intro polled_step.ask) (simp_all add: at_start_def)
  then have r: "polled_reachable sample_rxon None sample_worker ((at_start sample_worker)\<lparr>pl_asking := Some 1\<rparr>)"
    unfolding polled_reachable_def by blast
  have "w_current_load sample_worker = 0" "0 \<le> cfg_max_concurrent_tasks (w_config sample_worker)"
    "cfg_max_concurrent_tasks (w_config sample_worker) = 2" by (simp_all add: sample_worker_def sample_config_def)
  with implements_slot_pool [OF r sample_worker_wf] r show ?thesis by (metis polled.select_convs(2) polled.simps(2) polled.update_convs(2) at_start_def)
qed

text \<open>
  C24: The load tables are never read at a missing key: in every reachable state of a worker that
  started well-formed, counting a further task cannot raise, and neither can the bookkeeping at
  the end of any running one.
\<close>

theorem bookkeeping_never_raises:
  assumes "reachable rx secret w s" and "worker_wf w"
  shows "worker_wf (sy_worker s) \<and> po_raised (accept_task c h t (sy_worker s)) = None \<and>
    list_all (\<lambda>(h, t, ty). snd (release_slot (tp_task_id t) ty (sy_worker s)) = None) (sy_running s)"
proof -
  from reachable_wf [OF assms] have wf: "worker_wf (sy_worker s)" and types: "types_agree s" by auto
  have "snd (release_slot (tp_task_id t) ty (sy_worker s)) = None" if "(h, t, ty) \<in> set (sy_running s)" for h t ty
  proof -
    have "ty = captured_type (sy_worker s) t" using that types by (auto simp: types_agree_def list_all_iff)
    with captured_counter [OF wf, of t] show ?thesis
      using release_slot_result [of ty "sy_worker s" "tp_task_id t"] by (metis prod.collapse)
  qed
  with accept_wf [OF wf] wf show ?thesis by (auto simp: list_all_iff)
qed

theorem bookkeeping_never_raises_witness:
  "\<exists>s. reachable sample_rxon None sample_worker s \<and> sy_lost s \<noteq> [] \<and>
     po_raised (accept_task 1 9 refusable (sy_worker s)) = None"
proof -
  obtain s where s: "reachable sample_rxon None sample_worker s" "sy_lost s = [refusable, refusable]"
    using refused_system by blast
  with bookkeeping_never_raises [OF s(1) sample_worker_wf] show ?thesis by (intro exI [of _ s]) simp
qed

end
