(* ===== verification/Heartbeat.thy ===== *)
theory Heartbeat
  imports Worker_State
begin

text \<open>
  Heartbeats: resource readings and the telemetry deadband, the payload, sending one with its
  cooldown and what the answer does, and the per-orchestrator heartbeat loop. A heartbeat
  suspends while the orchestrator answers, so it has two halves: \<open>heartbeat_begin\<close> runs up to the
  request, \<open>heartbeat_answer\<close> from the response on.
\<close>

section \<open>Resource readings\<close>

text \<open>
  What \<open>psutil\<close> (CPU percentage and used bytes) and \<open>GPUtil\<close> (the list of devices) report; \<open>None\<close>
  where the module is not loaded. Each reading may raise; the code suppresses that and keeps
  what was read before.
\<close>

record gpu_reading =
  gpu_id :: string
  gpu_load :: rat
  gpu_memory_used :: rat
  gpu_temperature :: rat

record system_readings =
  sr_psutil :: "(rat result \<times> rat result) option"
  sr_gputil :: "gpu_reading result list result option"

definition cpu_and_ram :: "(rat result \<times> rat result) option \<Rightarrow> rat \<times> rat" where
  "cpu_and_ram ps =
     (case ps of
        Some (Inr cpu, Inr used) \<Rightarrow> (cpu, used / 1024 ^ 3)
      | Some (Inr cpu, Inl _) \<Rightarrow> (cpu, 0)
      | _ \<Rightarrow> (0, 0))"

definition device_usage_of :: "gpu_reading \<Rightarrow> device_usage" where
  "device_usage_of g = \<lparr>du_unit_id = gpu_id g, du_load_percent = gpu_load g * 100,
     du_metrics = Some [(''memory_used_gb'', gpu_memory_used g / 1024), (''temperature_c'', gpu_temperature g)]\<rparr>"

fun read_gpus :: "gpu_reading result list \<Rightarrow> device_usage list" where
  "read_gpus [] = []"
| "read_gpus (Inl _ # gs) = []"
| "read_gpus (Inr g # gs) = device_usage_of g # read_gpus gs"

definition get_resources_usage :: "rat \<Rightarrow> system_readings \<Rightarrow> worker \<Rightarrow> resources_usage option result" where
  "get_resources_usage now sr w =
     (case w_usage_checker w of
        Some checker \<Rightarrow> checker now
      | None \<Rightarrow>
          (let (cpu, ram) = cpu_and_ram (sr_psutil sr);
               gpus = (case sr_gputil sr of Some (Inr gs) \<Rightarrow> read_gpus gs | _ \<Rightarrow> [])
           in Inr (Some \<lparr>ru_cpu_load_percent = cpu, ru_ram_used_gb = ram,
                     ru_devices = (if gpus = [] then None else Some gpus)\<rparr>)))"

definition set_usage_checker :: "(rat \<Rightarrow> resources_usage option result) \<Rightarrow> worker \<Rightarrow> worker" where
  "set_usage_checker checker w = w\<lparr>w_usage_checker := Some checker\<rparr>"

section \<open>The telemetry deadband\<close>

text \<open>A memory level changed: it left zero, or moved by more than the deadband, relatively.\<close>

definition level_changed :: "pyfloat \<Rightarrow> rat \<Rightarrow> rat \<Rightarrow> bool" where
  "level_changed deadband prev cur =
     (if prev = 0 \<and> 0 < cur then True
      else if 0 < prev then deadband * Fin (1 / 100) < Fin (\<bar>cur - prev\<bar> / prev)
      else False)"

definition vram_of :: "device_usage \<Rightarrow> rat" where
  "vram_of g = (case du_metrics g of Some m \<Rightarrow> dget_or m ''memory_used_gb'' 0 | None \<Rightarrow> 0)"

definition unit_of :: "string \<Rightarrow> device_usage list \<Rightarrow> device_usage option" where
  "unit_of u gs = List.find (\<lambda>g. du_unit_id g = u) gs"

fun gpus_changed :: "pyfloat \<Rightarrow> device_usage list \<Rightarrow> device_usage list \<Rightarrow> bool" where
  "gpus_changed deadband last_gpus [] = False"
| "gpus_changed deadband last_gpus (c_gpu # gs) =
     (case unit_of (du_unit_id c_gpu) last_gpus of
        None \<Rightarrow> True
      | Some l_gpu \<Rightarrow>
          if deadband < Fin \<bar>du_load_percent c_gpu - du_load_percent l_gpu\<bar> then True
          else if level_changed deadband (vram_of l_gpu) (vram_of c_gpu) then True
          else gpus_changed deadband last_gpus gs)"

definition gpu_list :: "resources_usage \<Rightarrow> device_usage list" where
  "gpu_list u = (case ru_devices u of Some gs \<Rightarrow> gs | None \<Rightarrow> [])"

text \<open>\<open>current\<close> is \<open>None\<close> where a usage checker returned nothing: reading its attributes raises.\<close>

definition telemetry_changed :: "pyfloat \<Rightarrow> resources_usage option \<Rightarrow> resources_usage option \<Rightarrow> bool result" where
  "telemetry_changed deadband last_sent current =
     (case last_sent of
        None \<Rightarrow> Inr True
      | Some prev \<Rightarrow>
          (case current of
             None \<Rightarrow> Inl (AttributeError ''cpu_load_percent'')
           | Some cur \<Rightarrow> Inr (
               if deadband < Fin \<bar>ru_cpu_load_percent cur - ru_cpu_load_percent prev\<bar> then True
               else if level_changed deadband (ru_ram_used_gb prev) (ru_ram_used_gb cur) then True
               else if length (gpu_list cur) \<noteq> length (gpu_list prev) then True
               else gpus_changed deadband (gpu_list prev) (gpu_list cur))))"

section \<open>The payload\<close>

definition calculate_contract_hash :: "rxon \<Rightarrow> worker_config \<Rightarrow> skill_info list \<Rightarrow> string" where
  "calculate_contract_hash rx cfg skills =
     rx_contract_hash rx skills (cfg_cost_per_skill cfg) (cfg_extra_capabilities cfg)"

text \<open>\<open>names or None\<close>.\<close>

definition list_or_none :: "'a list \<Rightarrow> 'a list option" where
  "list_or_none xs = (if xs = [] then None else Some xs)"

text \<open>
  What the surroundings of one heartbeat supply: the clock at the cooldown check, in the payload,
  and after the answer, the readings, the response to the request, the work interleaved with it.
\<close>

record hb_env =
  he_now :: rat
  he_built :: rat
  he_timestamp :: int
  he_readings :: system_readings
  he_respond :: "heartbeat \<Rightarrow> pyval result"
  he_during :: "worker \<Rightarrow> worker"
  he_later :: rat
  he_date_of :: "pyval \<Rightarrow> rat option"

text \<open>The usage to report, if any, and the worker with the report remembered.\<close>

definition report_usage :: "rat \<Rightarrow> resources_usage option \<Rightarrow> worker \<Rightarrow> (resources_usage option \<times> worker) result" where
  "report_usage now current w =
     and_then
       (if w_last_sent_usage w = None then Inr True
        else if w_telemetry_force_interval w \<le> Fin (now - w_last_sent_usage_time w) then Inr True
        else telemetry_changed (w_telemetry_deadband w) (w_last_sent_usage w) current)
       (\<lambda>report. Inr (if report then (current, w\<lparr>w_last_sent_usage := current, w_last_sent_usage_time := now\<rparr>)
                      else (None, w)))"

definition create_heartbeat_payload :: "rxon \<Rightarrow> hb_env \<Rightarrow> worker \<Rightarrow> (heartbeat \<times> worker) result" where
  "create_heartbeat_payload rx he w =
     (let state = get_current_state w;
          all_supported = t_supported state;
          current_hash = calculate_contract_hash rx (w_config w) all_supported;
          skills_to_send = (if Some current_hash \<noteq> w_last_synced_hash w then Some all_supported else None)
      in and_then (get_resources_usage (he_built he) (he_readings he) w) (\<lambda>current_usage.
         and_then (report_usage (he_built he) current_usage w) (\<lambda>(usage, w).
           (let hb = \<lparr>hb_worker_id = cfg_worker_id (w_config w), hb_status = status_word (t_status state),
                  hb_usage = usage, hb_current_tasks = dkeys (w_active_tasks w),
                  hb_supported_skills = skills_to_send,
                  hb_available_skills = list_or_none (map si_name (t_available state)),
                  hb_hot_skills = list_or_none (map si_name (t_hot state)),
                  hb_skills_hash = current_hash, hb_security = None, hb_timestamp = he_timestamp he\<rparr>
            in Inr (hb\<lparr>hb_security := sign_payload_if_needed rx (w_config w) (HeartbeatMsg hb) [] None\<rparr>, w)))))"

section \<open>Sending one heartbeat\<close>

text \<open>
  Up to the request. \<open>Debounced\<close>: within the cooldown; the first such call sets the flag and starts
  a delayed heartbeat. \<open>NotBuilt\<close>: building the payload raised.
\<close>

datatype hb_start = Debounced | NotBuilt pyexn | Sending heartbeat

definition heartbeat_begin :: "rxon \<Rightarrow> hb_env \<Rightarrow> client \<Rightarrow> worker \<Rightarrow> hb_start \<times> worker" where
  "heartbeat_begin rx he c w =
     (let time_since_last = he_now he - dget_or (w_last_heartbeat_times w) c 0;
          cooldown = w_heartbeat_cooldown w
      in if Fin time_since_last < cooldown
         then (Debounced,
               if dget_or (w_debouncing_flags w) c False then w
               else w\<lparr>w_debouncing_flags := dset c True (w_debouncing_flags w),
                   w_spawned := w_spawned w @ [SpawnDelayedHeartbeat c (cooldown - Fin time_since_last)]\<rparr>)
         else (case create_heartbeat_payload rx he w of
                 Inl e \<Rightarrow> (NotBuilt e, w)
               | Inr (hb, w) \<Rightarrow> (Sending hb, w)))"

text \<open>Iterating a JSON value, and the hash a dictionary lookup computes first.\<close>

fun py_iter :: "pyval \<Rightarrow> pyval list result" where
  "py_iter (PList vs) = Inr vs"
| "py_iter (PStr s) = Inr (map (\<lambda>c. PStr [c]) s)"
| "py_iter (PDict d) = Inr (map PStr (dkeys d))"
| "py_iter _ = Inl (TypeError ''object is not iterable'')"

fun hashable :: "pyval \<Rightarrow> bool" where
  "hashable (PList _) = False"
| "hashable (PDict _) = False"
| "hashable _ = True"

definition active_handle :: "pyval \<Rightarrow> worker \<Rightarrow> handle option" where
  "active_handle v w = (case v of PStr t \<Rightarrow> dget (w_active_tasks w) t | _ \<Rightarrow> None)"

fun cancel_listed :: "pyval list \<Rightarrow> worker \<Rightarrow> worker \<times> pyexn option" where
  "cancel_listed [] w = (w, None)"
| "cancel_listed (v # vs) w =
     (if \<not> hashable v then (w, Some (TypeError ''unhashable type''))
      else cancel_listed vs
        (case active_handle v w of
           Some h \<Rightarrow> w\<lparr>w_cancelled := w_cancelled w @ [h]\<rparr>
         | None \<Rightarrow> w))"

text \<open>\<open>int(float(val))\<close>: truncation; NaN is a ValueError, an infinity an OverflowError.\<close>

definition py_int_of_float :: "pyfloat \<Rightarrow> int result" where
  "py_int_of_float x =
     (case x of
        Fin a \<Rightarrow> Inr (if 0 \<le> a then \<lfloor>a\<rfloor> else \<lceil>a\<rceil>)
      | NaN \<Rightarrow> Inl (ValueError ''cannot convert float NaN to integer'')
      | _ \<Rightarrow> Inl (OtherError ''OverflowError''))"

fun value_or_type_error :: "pyexn \<Rightarrow> bool" where
  "value_or_type_error (ValueError _) = True"
| "value_or_type_error (TypeError _) = True"
| "value_or_type_error _ = False"

definition jitter_of :: "(string, pyval) dict \<Rightarrow> int result" where
  "jitter_of resp =
     (let val = dget_or resp ''next_heartbeat_jitter_ms'' (PInt 0)
      in if val = PNone then Inr 0
         else (case and_then (py_float val) py_int_of_float of
                 Inl e \<Rightarrow> if value_or_type_error e then Inr 0 else Inl e
               | Inr n \<Rightarrow> Inr n))"

text \<open>From the response on; the result is the jitter in milliseconds.\<close>

definition heartbeat_answer :: "rxon \<Rightarrow> rat \<Rightarrow> client \<Rightarrow> heartbeat \<Rightarrow> pyval \<Rightarrow> worker \<Rightarrow> worker \<times> int result" where
  "heartbeat_answer rx later c hb resp w =
     (let w = w\<lparr>w_last_heartbeat_times := dset c later (w_last_heartbeat_times w)\<rparr>;
          w = (if resp \<noteq> PNone then w\<lparr>w_last_synced_hash := Some (hb_skills_hash hb)\<rparr> else w)
      in case resp of
           PDict d \<Rightarrow>
             if d = [] then (w, Inr 0)
             else (let w = (if truthy (dget_or d (rx_hb_require_full_sync rx) PNone)
                            then w\<lparr>w_last_synced_hash := None\<rparr> else w)
                   in case (case dget d (rx_hb_cancel_tasks rx) of
                              None \<Rightarrow> (w, None)
                            | Some v \<Rightarrow> (case py_iter v of
                                 Inl e \<Rightarrow> (w, Some e)
                               | Inr ids \<Rightarrow> cancel_listed ids w)) of
                        (w, Some e) \<Rightarrow> (w, Inl e)
                      | (w, None) \<Rightarrow> (w, jitter_of d))
         | _ \<Rightarrow> (w, Inr 0))"

definition send_single_heartbeat ::
  "rxon \<Rightarrow> hb_env \<Rightarrow> client \<Rightarrow> worker \<Rightarrow> worker \<times> heartbeat option \<times> int result" where
  "send_single_heartbeat rx he c w =
     (case heartbeat_begin rx he c w of
        (Debounced, w) \<Rightarrow> (w, None, Inr 0)
      | (NotBuilt e, w) \<Rightarrow> (w, None, Inl e)
      | (Sending hb, w) \<Rightarrow>
          (let w = he_during he w
           in case he_respond he hb of
                Inl e \<Rightarrow> (w, Some hb, Inl e)
              | Inr resp \<Rightarrow> (case heartbeat_answer rx (he_later he) c hb resp w of
                   (w, r) \<Rightarrow> (w, Some hb, r))))"

text \<open>The body of the debouncing task; \<open>slept\<close> is False if it is cancelled while it sleeps.\<close>

definition clear_debounce :: "client \<Rightarrow> worker \<Rightarrow> worker" where
  "clear_debounce c w = w\<lparr>w_debouncing_flags := dset c False (w_debouncing_flags w)\<rparr>"

definition delayed_heartbeat ::
  "rxon \<Rightarrow> hb_env \<Rightarrow> bool \<Rightarrow> client \<Rightarrow> worker \<Rightarrow> worker \<times> heartbeat option \<times> unit result" where
  "delayed_heartbeat rx he slept c w =
     (if \<not> slept then (clear_debounce c w, None, Inl CancelledError)
      else (case send_single_heartbeat rx he c w of
              (w, hb, r) \<Rightarrow> (clear_debounce c w, hb, and_then r (\<lambda>_. Inr ()))))"

section \<open>The heartbeat loop\<close>

text \<open>
  One pass of the inner loop of \<open>_manage_single_orchestrator\<close>: what the send gave, and then the
  wait for the next pass, the loss of the session, or an exception nothing catches.
\<close>

datatype hb_next = WaitFor pyfloat | SessionLost | Escaped pyexn

definition session_lost :: "pyexn \<Rightarrow> bool" where
  "session_lost e = (contains (lower (exn_str e)) ''not found'' \<or> contains (lower (exn_str e)) ''unauthorized'')"

definition heartbeat_failed ::
  "(pyval \<Rightarrow> rat option) \<Rightarrow> rat \<Rightarrow> client \<Rightarrow> pyfloat \<Rightarrow> pyexn \<Rightarrow> worker \<Rightarrow> worker \<times> hb_next" where
  "heartbeat_failed date_of now c hb_backoff e w =
     (let cfg = w_config w;
          backoff = calculate_backoff (cfg_rate_limit_backoff_floor cfg) hb_backoff
                      (cfg_heartbeat_interval cfg) (cfg_poll_backoff_max cfg) default_factor
      in if is_rate_limit e
         then (let retry_after = parse_retry_after date_of now (retry_after_of e);
                   new_backoff = (if 0 < retry_after then retry_after else backoff True)
               in (w\<lparr>w_hb_backoffs := dset c new_backoff (w_hb_backoffs w)\<rparr>, WaitFor new_backoff))
         else if is_rxon_error e
         then (if session_lost e then (w\<lparr>w_last_synced_hash := None\<rparr>, SessionLost)
               else (w\<lparr>w_hb_backoffs := dset c (backoff False) (w_hb_backoffs w)\<rparr>, WaitFor (backoff False)))
         else if is_exception e then (w, WaitFor (cfg_heartbeat_interval cfg))
         else (w, Escaped e))"

definition heartbeat_iteration ::
  "rxon \<Rightarrow> hb_env \<Rightarrow> client \<Rightarrow> worker \<Rightarrow> worker \<times> int result \<times> hb_next" where
  "heartbeat_iteration rx he c w =
     (let hb_backoff = dget_or (w_hb_backoffs w) c 0
      in case send_single_heartbeat rx he c w of
           (w, _, Inr jitter_ms) \<Rightarrow>
             (w\<lparr>w_hb_backoffs := dset c 0 (w_hb_backoffs w)\<rparr>, Inr jitter_ms,
              WaitFor (cfg_heartbeat_interval (w_config w) + Fin (rat_of_int jitter_ms / 1000)))
         | (w, _, Inl e) \<Rightarrow>
             (case heartbeat_failed (he_date_of he) (he_later he) c hb_backoff e w of
                (w, next) \<Rightarrow> (w, Inl e, next)))"

text \<open>
  The loop over the surroundings of its passes, with a log of what each send gave and how long
  it waited; \<open>snd it\<close> is what happens to the worker during the wait.
\<close>

datatype hb_end = StillRunning | StoppedByShutdown | LostSession | EndedBy pyexn

fun heartbeat_loop ::
  "rxon \<Rightarrow> client \<Rightarrow> (hb_env \<times> (worker \<Rightarrow> worker)) list \<Rightarrow> worker
   \<Rightarrow> worker \<times> (int result \<times> pyfloat) list \<times> hb_end" where
  "heartbeat_loop rx c [] w = (w, [], StillRunning)"
| "heartbeat_loop rx c ((he, waiting) # its) w =
     (if w_shutdown w then (w, [], StoppedByShutdown)
      else (case heartbeat_iteration rx he c w of
              (w, r, WaitFor d) \<Rightarrow>
                (case heartbeat_loop rx c its (waiting w) of (w, passes, e) \<Rightarrow> (w, (r, d) # passes, e))
            | (w, r, SessionLost) \<Rightarrow> (w, [], LostSession)
            | (w, r, Escaped e) \<Rightarrow> (w, [], EndedBy e)))"

section \<open>Lemmas\<close>

lemma level_unchanged:
  assumes "\<not> level_changed (Fin d) a b" and "0 \<le> b"
  shows "if a = 0 then b = 0 else 0 < a \<longrightarrow> \<bar>b - a\<bar> * 100 \<le> d * a"
  using assms
  by (auto simp: level_changed_def not_less pos_le_divide_eq pos_divide_le_eq algebra_simps split: if_splits)

lemma unit_of_Some: "unit_of u gs = Some g \<Longrightarrow> g \<in> set gs \<and> du_unit_id g = u"
  by (simp add: unit_of_def find_Some_iff) (metis nth_mem)

lemma gpus_unchanged:
  assumes "\<not> gpus_changed db prev cur" and "g \<in> set cur"
  obtains p where "unit_of (du_unit_id g) prev = Some p"
    and "\<not> db < Fin \<bar>du_load_percent g - du_load_percent p\<bar>" and "\<not> level_changed db (vram_of p) (vram_of g)"
  using assms by (induction db prev cur rule: gpus_changed.induct) (auto split: option.splits if_splits)

text \<open>As many devices as before and each of them known: with distinct identifiers, the same ones.\<close>

lemma same_units:
  assumes "length cur = length prev" and "distinct (map du_unit_id cur)"
    and "\<And>g. g \<in> set cur \<Longrightarrow> du_unit_id g \<in> set (map du_unit_id prev)"
  shows "set (map du_unit_id cur) = set (map du_unit_id prev)"
proof (rule card_subset_eq)
  show "set (map du_unit_id cur) \<subseteq> set (map du_unit_id prev)" using assms(3) by auto
  then have le: "card (set (map du_unit_id cur)) \<le> card (set (map du_unit_id prev))" by (intro card_mono) auto
  have "card (set (map du_unit_id cur)) = length cur"
    using assms(2) distinct_card by fastforce
  moreover have "card (set (map du_unit_id prev)) \<le> length prev"
    using card_length [of "map du_unit_id prev"] by simp
  ultimately show "card (set (map du_unit_id cur)) = card (set (map du_unit_id prev))"
    using le assms(1) by linarith
qed simp

lemma payload_unfold:
  "create_heartbeat_payload rx he w =
     and_then (get_resources_usage (he_built he) (he_readings he) w) (\<lambda>current.
       and_then (report_usage (he_built he) current w) (\<lambda>p.
         Inr (let state = get_current_state w;
                h = calculate_contract_hash rx (w_config w) (t_supported state);
                hb = \<lparr>hb_worker_id = cfg_worker_id (w_config (snd p)), hb_status = status_word (t_status state),
                  hb_usage = fst p, hb_current_tasks = dkeys (w_active_tasks (snd p)),
                  hb_supported_skills = (if Some h \<noteq> w_last_synced_hash w then Some (t_supported state) else None),
                  hb_available_skills = list_or_none (map si_name (t_available state)),
                  hb_hot_skills = list_or_none (map si_name (t_hot state)),
                  hb_skills_hash = h, hb_security = None, hb_timestamp = he_timestamp he\<rparr>
              in (hb\<lparr>hb_security := sign_payload_if_needed rx (w_config (snd p)) (HeartbeatMsg hb) [] None\<rparr>, snd p))))"
  unfolding create_heartbeat_payload_def Let_def case_prod_beta by simp

lemma report_usage_frame:
  assumes "report_usage now current w = Inr (usage, w1)"
  shows "w_handlers w1 = w_handlers w" "w_config w1 = w_config w"
    "w_last_synced_hash w1 = w_last_synced_hash w" "w_debouncing_flags w1 = w_debouncing_flags w"
    "w_last_heartbeat_times w1 = w_last_heartbeat_times w" "w_hb_backoffs w1 = w_hb_backoffs w"
    "w_current_load w1 = w_current_load w" "w_load_by_type w1 = w_load_by_type w"
    "w_type_limits w1 = w_type_limits w" "w_clients w1 = w_clients w" "w_active_tasks w1 = w_active_tasks w"
    "w_spawned w1 = w_spawned w"
  using assms by (auto simp: report_usage_def and_then_Inr_iff split: if_splits)

lemma report_usage_withheld:
  assumes "report_usage now (Some cur) w = Inr (None, w1)"
  obtains prev where "w1 = w" and "w_last_sent_usage w = Some prev"
    and "\<not> w_telemetry_force_interval w \<le> Fin (now - w_last_sent_usage_time w)"
    and "telemetry_changed (w_telemetry_deadband w) (Some prev) (Some cur) = Inr False"
proof -
  from assms obtain r where r: "(if w_last_sent_usage w = None then Inr True
        else if w_telemetry_force_interval w \<le> Fin (now - w_last_sent_usage_time w) then Inr True
        else telemetry_changed (w_telemetry_deadband w) (w_last_sent_usage w) (Some cur)) = Inr r"
    and "(if r then (Some cur, w\<lparr>w_last_sent_usage := Some cur, w_last_sent_usage_time := now\<rparr>) else (None, w)) = (None, w1)"
    unfolding report_usage_def and_then_Inr_iff by blast
  then have "\<not> r" "w1 = w" by (cases r; simp)+
  with r that show thesis by (cases "w_last_sent_usage w") (auto split: if_splits)
qed

lemma payload_usage:
  assumes "create_heartbeat_payload rx he w = Inr (hb, w1)"
  obtains current where "get_resources_usage (he_built he) (he_readings he) w = Inr current"
    and "report_usage (he_built he) current w = Inr (hb_usage hb, w1)"
  using assms unfolding payload_unfold and_then_Inr_iff by (auto simp: Let_def)

lemma payload_frame:
  assumes "create_heartbeat_payload rx he w = Inr (hb, w1)"
  shows "w_handlers w1 = w_handlers w" "w_config w1 = w_config w"
    "w_last_synced_hash w1 = w_last_synced_hash w" "w_debouncing_flags w1 = w_debouncing_flags w"
    "w_last_heartbeat_times w1 = w_last_heartbeat_times w" "w_hb_backoffs w1 = w_hb_backoffs w"
    "w_active_tasks w1 = w_active_tasks w" "w_spawned w1 = w_spawned w"
proof -
  obtain current where rep: "report_usage (he_built he) current w = Inr (hb_usage hb, w1)"
    by (rule payload_usage [OF assms])
  show "w_handlers w1 = w_handlers w" "w_config w1 = w_config w"
    "w_last_synced_hash w1 = w_last_synced_hash w" "w_debouncing_flags w1 = w_debouncing_flags w"
    "w_last_heartbeat_times w1 = w_last_heartbeat_times w" "w_hb_backoffs w1 = w_hb_backoffs w"
    "w_active_tasks w1 = w_active_tasks w" "w_spawned w1 = w_spawned w"
    by (rule report_usage_frame [OF rep])+
qed

lemma payload_catalogue:
  assumes "create_heartbeat_payload rx he w = Inr (hb, w1)"
  shows "hb_skills_hash hb = calculate_contract_hash rx (w_config w) (map (h_info \<circ> snd) (w_handlers w))"
    and "hb_supported_skills hb = (if w_last_synced_hash w = Some (hb_skills_hash hb) then None
           else Some (map (h_info \<circ> snd) (w_handlers w)))"
proof -
  have "t_supported (get_current_state w) = map (h_info \<circ> snd) (w_handlers w)"
    by (simp add: get_current_state_def Let_def)
  with assms show "hb_skills_hash hb = calculate_contract_hash rx (w_config w) (map (h_info \<circ> snd) (w_handlers w))"
    and "hb_supported_skills hb = (if w_last_synced_hash w = Some (hb_skills_hash hb) then None
           else Some (map (h_info \<circ> snd) (w_handlers w)))"
    unfolding payload_unfold and_then_Inr_iff by (auto simp: Let_def dest: report_usage_frame(2))
qed

lemma cancel_listed_frame:
  assumes "cancel_listed ids w = (w', e)"
  shows "w_handlers w' = w_handlers w" "w_config w' = w_config w"
    "w_last_synced_hash w' = w_last_synced_hash w" "w_active_tasks w' = w_active_tasks w"
    "w_debouncing_flags w' = w_debouncing_flags w" "w_hb_backoffs w' = w_hb_backoffs w"
    "w_last_heartbeat_times w' = w_last_heartbeat_times w" "w_current_load w' = w_current_load w"
    "w_load_by_type w' = w_load_by_type w" "w_type_limits w' = w_type_limits w" "w_clients w' = w_clients w"
  using assms by (induction ids w rule: cancel_listed.induct) (auto split: if_splits option.splits)

lemma cancel_listed_strings:
  "cancel_listed (map PStr ids) w =
     (w\<lparr>w_cancelled := w_cancelled w @ List.map_filter (dget (w_active_tasks w)) ids\<rparr>, None)"
  by (induction ids arbitrary: w) (auto simp: active_handle_def map_filter_simps split: option.splits)

text \<open>An answer asks for a full sync; it must be an object.\<close>

definition wants_full_sync :: "rxon \<Rightarrow> pyval \<Rightarrow> bool" where
  "wants_full_sync rx resp =
     (case resp of PDict d \<Rightarrow> truthy (dget_or d (rx_hb_require_full_sync rx) PNone) | _ \<Rightarrow> False)"

lemma heartbeat_answer_frame:
  assumes "heartbeat_answer rx later c hb resp w = (w', r)"
  shows "w_handlers w' = w_handlers w" "w_config w' = w_config w" "w_active_tasks w' = w_active_tasks w"
    "w_debouncing_flags w' = w_debouncing_flags w" "w_hb_backoffs w' = w_hb_backoffs w"
    "w_last_heartbeat_times w' = dset c later (w_last_heartbeat_times w)"
    "w_current_load w' = w_current_load w" "w_load_by_type w' = w_load_by_type w"
    "w_type_limits w' = w_type_limits w" "w_clients w' = w_clients w"
    "w_last_synced_hash w' = (if wants_full_sync rx resp then None
       else if resp = PNone then w_last_synced_hash w else Some (hb_skills_hash hb))"
  using assms
  by (auto simp: heartbeat_answer_def Let_def wants_full_sync_def dget_or_def
      split: pyval.splits option.splits prod.splits sum.splits if_splits dest: cancel_listed_frame)

lemma begin_cases:
  assumes "heartbeat_begin rx he c w = (st, w')"
  obtains (debounced) "st = Debounced" "Fin (he_now he - dget_or (w_last_heartbeat_times w) c 0) < w_heartbeat_cooldown w"
      "w' = (if dget_or (w_debouncing_flags w) c False then w
         else w\<lparr>w_debouncing_flags := dset c True (w_debouncing_flags w),
             w_spawned := w_spawned w @ [SpawnDelayedHeartbeat c
               (w_heartbeat_cooldown w - Fin (he_now he - dget_or (w_last_heartbeat_times w) c 0))]\<rparr>)"
  | (not_built) e where "st = NotBuilt e" "w' = w"
  | (sending) hb where "st = Sending hb" "create_heartbeat_payload rx he w = Inr (hb, w')"
proof (cases "Fin (he_now he - dget_or (w_last_heartbeat_times w) c 0) < w_heartbeat_cooldown w")
  case True
  with assms have "st = Debounced" and "w' = (if dget_or (w_debouncing_flags w) c False then w
         else w\<lparr>w_debouncing_flags := dset c True (w_debouncing_flags w),
             w_spawned := w_spawned w @ [SpawnDelayedHeartbeat c
               (w_heartbeat_cooldown w - Fin (he_now he - dget_or (w_last_heartbeat_times w) c 0))]\<rparr>)"
    by (simp_all only: heartbeat_begin_def Let_def if_True prod.inject)
  with True show ?thesis by (intro debounced)
next
  case False
  with assms not_built sending show ?thesis
    unfolding heartbeat_begin_def Let_def by (cases "create_heartbeat_payload rx he w") auto
qed

lemma begin_frame:
  assumes "heartbeat_begin rx he c w = (st, w')"
  shows "w_config w' = w_config w" "w_hb_backoffs w' = w_hb_backoffs w"
    "w_last_heartbeat_times w' = w_last_heartbeat_times w" "w_active_tasks w' = w_active_tasks w"
  by (rule begin_cases [OF assms]; simp add: payload_frame)+

lemma send_cases:
  assumes "send_single_heartbeat rx he c w = (w1, sent, r)"
  obtains (debounced) "heartbeat_begin rx he c w = (Debounced, w1)" "sent = None" "r = Inr 0"
  | (not_built) e where "heartbeat_begin rx he c w = (NotBuilt e, w1)" "sent = None" "r = Inl e"
  | (failed) hb w0 e where "heartbeat_begin rx he c w = (Sending hb, w0)" "he_respond he hb = Inl e"
      "w1 = he_during he w0" "sent = Some hb" "r = Inl e"
  | (answered) hb w0 resp where "heartbeat_begin rx he c w = (Sending hb, w0)" "he_respond he hb = Inr resp"
      "heartbeat_answer rx (he_later he) c hb resp (he_during he w0) = (w1, r)" "sent = Some hb"
proof -
  obtain st w0 where st: "heartbeat_begin rx he c w = (st, w0)" by fastforce
  show ?thesis
  proof (cases st)
    case (Sending hb)
    with assms st failed answered show ?thesis
      by (cases "he_respond he hb") (auto simp: send_single_heartbeat_def split: prod.splits)
  qed (use assms st debounced not_built in \<open>auto simp: send_single_heartbeat_def\<close>)
qed

lemma send_answered:
  assumes "send_single_heartbeat rx he c w = (w1, Some hb, r)" and "he_respond he hb = Inr resp"
  obtains w0 where "create_heartbeat_payload rx he w = Inr (hb, w0)"
    and "heartbeat_answer rx (he_later he) c hb resp (he_during he w0) = (w1, r)"
  using assms(1)
proof (cases rule: send_cases)
  case (answered hb' w0 resp')
  with assms(2) that show ?thesis by (auto elim: begin_cases)
qed (use assms(2) in auto)

section \<open>Fixtures\<close>

definition sample_usage :: "rat \<Rightarrow> rat \<Rightarrow> resources_usage" where
  "sample_usage cpu load = \<lparr>ru_cpu_load_percent = cpu, ru_ram_used_gb = 8,
     ru_devices = Some [\<lparr>du_unit_id = ''0'', du_load_percent = load, du_metrics = Some [(''memory_used_gb'', 4)]\<rparr>]\<rparr>"

text \<open>A heartbeat at time \<open>t\<close>, answered at once with \<open>resp\<close>.\<close>

definition sample_hb :: "rat \<Rightarrow> pyval result \<Rightarrow> hb_env" where
  "sample_hb t resp = \<lparr>he_now = t, he_built = t, he_timestamp = \<lfloor>t\<rfloor>,
     he_readings = \<lparr>sr_psutil = None, sr_gputil = None\<rparr>, he_respond = (\<lambda>hb. resp), he_during = (\<lambda>w. w),
     he_later = t, he_date_of = (\<lambda>v. None)\<rparr>"

text \<open>The sample worker, having reported its usage at time 100 and running two tasks.\<close>

definition reporting_worker :: worker where
  "reporting_worker = set_usage_checker (\<lambda>now. Inr (Some (sample_usage 12 47)))
     (sample_worker\<lparr>w_last_sent_usage := Some (sample_usage 10 50), w_last_sent_usage_time := 100,
        w_active_tasks := [(''t1'', 7), (''t2'', 8)]\<rparr>)"

section \<open>Properties\<close>

definition sane_usage :: "resources_usage \<Rightarrow> bool" where
  "sane_usage u = (0 \<le> ru_ram_used_gb u \<and> distinct (map du_unit_id (gpu_list u)) \<and>
     list_all (\<lambda>g. 0 \<le> vram_of g) (gpu_list u))"

text \<open>
  C11: Leaving the telemetry out of a heartbeat never hides a change beyond the deadband of \<open>d\<close>
  percent: then the last report is younger than the force interval, CPU and device loads are
  within \<open>d\<close> points of it, memory levels within \<open>d\<close> percent, and the devices are the same ones.
\<close>

theorem suppressed_telemetry_accurate:
  assumes "create_heartbeat_payload rx he w = Inr (hb, w1)" and "hb_usage hb = None"
    and "get_resources_usage (he_built he) (he_readings he) w = Inr (Some cur)" and "sane_usage cur"
    and "w_telemetry_deadband w = Fin d"
  shows "\<exists>prev. w_last_sent_usage w1 = Some prev \<and>
    \<not> w_telemetry_force_interval w \<le> Fin (he_built he - w_last_sent_usage_time w1) \<and>
    \<bar>ru_cpu_load_percent cur - ru_cpu_load_percent prev\<bar> \<le> d \<and>
    (if ru_ram_used_gb prev = 0 then ru_ram_used_gb cur = 0
     else 0 < ru_ram_used_gb prev \<longrightarrow> \<bar>ru_ram_used_gb cur - ru_ram_used_gb prev\<bar> * 100 \<le> d * ru_ram_used_gb prev) \<and>
    set (map du_unit_id (gpu_list cur)) = set (map du_unit_id (gpu_list prev)) \<and>
    (\<forall>g \<in> set (gpu_list cur). \<exists>p \<in> set (gpu_list prev). du_unit_id p = du_unit_id g \<and>
       \<bar>du_load_percent g - du_load_percent p\<bar> \<le> d \<and>
       (if vram_of p = 0 then vram_of g = 0 else 0 < vram_of p \<longrightarrow> \<bar>vram_of g - vram_of p\<bar> * 100 \<le> d * vram_of p))"
proof -
  from payload_usage [OF assms(1)] assms(2,3) have "report_usage (he_built he) (Some cur) w = Inr (None, w1)"
    by (metis sum.inject(2))
  then obtain prev where w1: "w1 = w" and prev: "w_last_sent_usage w = Some prev"
    and young: "\<not> w_telemetry_force_interval w \<le> Fin (he_built he - w_last_sent_usage_time w)"
    and unchanged: "telemetry_changed (Fin d) (Some prev) (Some cur) = Inr False"
    using assms(5) by (metis report_usage_withheld)
  from unchanged have cpu: "\<bar>ru_cpu_load_percent cur - ru_cpu_load_percent prev\<bar> \<le> d"
    and ram: "\<not> level_changed (Fin d) (ru_ram_used_gb prev) (ru_ram_used_gb cur)"
    and len: "length (gpu_list cur) = length (gpu_list prev)"
    and gpus: "\<not> gpus_changed (Fin d) (gpu_list prev) (gpu_list cur)"
    by (auto simp: telemetry_changed_def split: if_splits)
  have near: "\<exists>p \<in> set (gpu_list prev). du_unit_id p = du_unit_id g \<and>
       \<bar>du_load_percent g - du_load_percent p\<bar> \<le> d \<and>
       (if vram_of p = 0 then vram_of g = 0 else 0 < vram_of p \<longrightarrow> \<bar>vram_of g - vram_of p\<bar> * 100 \<le> d * vram_of p)"
    if g: "g \<in> set (gpu_list cur)" for g
  proof -
    have v: "0 \<le> vram_of g" using g assms(4) by (simp add: sane_usage_def list_all_iff)
    obtain p where p: "unit_of (du_unit_id g) (gpu_list prev) = Some p"
      and close: "\<not> Fin d < Fin \<bar>du_load_percent g - du_load_percent p\<bar>"
      and mem: "\<not> level_changed (Fin d) (vram_of p) (vram_of g)"
      by (rule gpus_unchanged [OF gpus g])
    from close have load: "\<bar>du_load_percent g - du_load_percent p\<bar> \<le> d" by simp
    have "p \<in> set (gpu_list prev) \<and> du_unit_id p = du_unit_id g" by (rule unit_of_Some [OF p])
    with load level_unchanged [OF mem v] show ?thesis by (intro bexI [of _ p]) simp_all
  qed
  have "set (map du_unit_id (gpu_list cur)) = set (map du_unit_id (gpu_list prev))"
  proof (rule same_units [OF len])
    show "distinct (map du_unit_id (gpu_list cur))" using assms(4) by (simp add: sane_usage_def)
    show "du_unit_id g \<in> set (map du_unit_id (gpu_list prev))" if g: "g \<in> set (gpu_list cur)" for g
    proof -
      obtain p where "p \<in> set (gpu_list prev)" "du_unit_id p = du_unit_id g" using near [OF g] by blast
      then show ?thesis by (metis image_eqI set_map)
    qed
  qed
  moreover have "0 \<le> ru_ram_used_gb cur" using assms(4) by (simp add: sane_usage_def)
  ultimately show ?thesis
    using w1 prev young cpu level_unchanged [OF ram] near by (intro exI [of _ prev]) blast
qed

theorem suppressed_telemetry_accurate_witness:
  "\<exists>hb. create_heartbeat_payload sample_rxon (sample_hb 110 (Inr PNone)) reporting_worker = Inr (hb, reporting_worker) \<and>
     hb_usage hb = None \<and> \<bar>12 - 10\<bar> \<le> (5 :: rat)"
proof -
  let ?w = reporting_worker and ?he = "sample_hb 110 (Inr PNone)"
  have use: "get_resources_usage (he_built ?he) (he_readings ?he) ?w = Inr (Some (sample_usage 12 47))" by code_simp
  have db: "w_telemetry_deadband ?w = Fin 5" by code_simp
  have sane: "sane_usage (sample_usage 12 47)" by code_simp
  have "report_usage 110 (Some (sample_usage 12 47)) ?w = Inr (None, ?w)"
    by (simp add: report_usage_def telemetry_changed_def reporting_worker_def set_usage_checker_def
        sample_worker_def sample_config_def sample_usage_def level_changed_def gpu_list_def unit_of_def
        vram_of_def dget_or_def)
  with use obtain hb where hb: "create_heartbeat_payload sample_rxon ?he ?w = Inr (hb, ?w)" "hb_usage hb = None"
    by (simp add: payload_unfold sample_hb_def Let_def)
  from suppressed_telemetry_accurate [OF hb use sane db] have "\<bar>12 - 10\<bar> \<le> (5 :: rat)"
    by (simp add: reporting_worker_def set_usage_checker_def sample_usage_def)
  with hb show ?thesis by blast
qed

text \<open>
  What may run while a heartbeat waits for its answer without touching the catalogue: the handlers,
  the configuration and the remembered hash stay.
\<close>

definition keeps_catalogue :: "(worker \<Rightarrow> worker) \<Rightarrow> bool" where
  "keeps_catalogue d = (\<forall>w. w_handlers (d w) = w_handlers w \<and> w_config (d w) = w_config w \<and>
     w_last_synced_hash (d w) = w_last_synced_hash w)"

text \<open>
  C12: A heartbeat carries the catalogue exactly if the contract hash differs from the last one an
  orchestrator acknowledged, and always its hash. With the catalogue unchanged, the heartbeat
  after an acknowledged one carries it exactly if the answer asked for a full sync.
\<close>

theorem catalogue_sync:
  assumes "send_single_heartbeat rx he c w = (w1, Some hb, r)" and "he_respond he hb = Inr resp"
    and "keeps_catalogue (he_during he)" and "create_heartbeat_payload rx he' w1 = Inr (hb', w2)"
  shows "let skills = map (h_info \<circ> snd) (w_handlers w) in
    hb_skills_hash hb = calculate_contract_hash rx (w_config w) skills \<and>
    hb_supported_skills hb = (if w_last_synced_hash w = Some (hb_skills_hash hb) then None else Some skills) \<and>
    hb_skills_hash hb' = hb_skills_hash hb \<and>
    hb_supported_skills hb' = (if wants_full_sync rx resp then Some skills
       else if resp = PNone then hb_supported_skills hb else None)"
proof -
  obtain w0 where pay: "create_heartbeat_payload rx he w = Inr (hb, w0)"
    and ans: "heartbeat_answer rx (he_later he) c hb resp (he_during he w0) = (w1, r)"
    by (rule send_answered [OF assms(1,2)])
  have frame: "w_handlers w1 = w_handlers w" "w_config w1 = w_config w"
    "w_last_synced_hash w1 = (if wants_full_sync rx resp then None
       else if resp = PNone then w_last_synced_hash w else Some (hb_skills_hash hb))"
    using heartbeat_answer_frame [OF ans] payload_frame [OF pay] assms(3) by (simp_all add: keeps_catalogue_def)
  show ?thesis
    using payload_catalogue [OF pay] payload_catalogue [OF assms(4)] frame by (simp add: Let_def)
qed

text \<open>Two heartbeats of the sample worker: the first answer asks for a full sync.\<close>

definition full_sync_answer :: pyval where
  "full_sync_answer = PDict [(''require_full_sync'', PBool True)]"

definition after_full_sync :: worker where
  "after_full_sync = fst (send_single_heartbeat sample_rxon (sample_hb 100 (Inr full_sync_answer)) 1 sample_worker)"

theorem catalogue_sync_witness:
  "\<exists>hb' w2. create_heartbeat_payload sample_rxon (sample_hb 130 (Inr PNone)) after_full_sync = Inr (hb', w2) \<and>
     hb_supported_skills hb' = Some [sample_skill ''echo'']"
proof -
  let ?he = "sample_hb 100 (Inr full_sync_answer)" and ?he' = "sample_hb 130 (Inr PNone)"
  have "is_ok (create_heartbeat_payload sample_rxon ?he' after_full_sync)" by code_simp
  then obtain hb' w2 where n: "create_heartbeat_payload sample_rxon ?he' after_full_sync = Inr (hb', w2)"
    by (cases "create_heartbeat_payload sample_rxon ?he' after_full_sync") auto
  have "fst (snd (send_single_heartbeat sample_rxon ?he 1 sample_worker)) \<noteq> None" by code_simp
  then obtain hb r where s: "send_single_heartbeat sample_rxon ?he 1 sample_worker = (after_full_sync, Some hb, r)"
    unfolding after_full_sync_def by (metis option.exhaust prod.collapse)
  have "keeps_catalogue (he_during ?he)" "he_respond ?he hb = Inr full_sync_answer"
    by (simp_all add: keeps_catalogue_def sample_hb_def)
  from catalogue_sync [OF s this(2,1) n]
  have "hb_supported_skills hb' = Some [sample_skill ''echo'']"
    by (simp add: wants_full_sync_def full_sync_answer_def sample_rxon_def dget_or_def sample_worker_def Let_def)
  with n show ?thesis by blast
qed

text \<open>
  The cancellation list of an answer cancels exactly the listed tasks that are active, each once
  per mention and in the order listed; the table of active tasks and the load counters stay, since
  each cancelled task does its own bookkeeping.
\<close>

theorem cancellation_exact:
  assumes "dget d (rx_hb_cancel_tasks rx) = Some (PList (map PStr ids))"
  shows "let w1 = fst (heartbeat_answer rx t c hb (PDict d) w) in
    w_cancelled w1 = w_cancelled w @ List.map_filter (dget (w_active_tasks w)) ids \<and>
    w_active_tasks w1 = w_active_tasks w \<and> w_current_load w1 = w_current_load w \<and>
    w_load_by_type w1 = w_load_by_type w \<and>
    snd (heartbeat_answer rx t c hb (PDict d) w) = jitter_of d"
proof -
  from assms have "d \<noteq> []" by auto
  with assms show ?thesis
    by (simp add: heartbeat_answer_def cancel_listed_strings Let_def)
qed

theorem cancellation_exact_witness:
  "w_cancelled (fst (heartbeat_answer sample_rxon 100 1 hb
      (PDict [(''cancel_tasks'', PList [PStr ''t2'', PStr ''t9'', PStr ''t1''])]) reporting_worker)) = [8, 7]"
proof -
  have d: "dget [(''cancel_tasks'', PList [PStr ''t2'', PStr ''t9'', PStr ''t1''])] (rx_hb_cancel_tasks sample_rxon) =
      Some (PList (map PStr [''t2'', ''t9'', ''t1'']))" by (simp add: sample_rxon_def)
  show ?thesis
    using cancellation_exact [OF d, of 100 1 hb reporting_worker]
    by (simp add: reporting_worker_def set_usage_checker_def sample_worker_def map_filter_simps Let_def)
qed

text \<open>
  What may run beside the loop without touching its back-off: the configuration and the entry of
  this orchestrator in the table of delays stay.
\<close>

definition keeps_backoff :: "client \<Rightarrow> (worker \<Rightarrow> worker) \<Rightarrow> bool" where
  "keeps_backoff c d = (\<forall>w. w_config (d w) = w_config w \<and> dget (w_hb_backoffs (d w)) c = dget (w_hb_backoffs w) c)"

text \<open>A failure of the orchestrator or the network that is neither a rate limit nor a lost session.\<close>

definition plain_failure :: "int result \<Rightarrow> bool" where
  "plain_failure r = (case r of Inl e \<Rightarrow> is_rxon_error e \<and> \<not> is_rate_limit e \<and> \<not> session_lost e | Inr _ \<Rightarrow> False)"

lemma send_backoff_frame:
  assumes "send_single_heartbeat rx he c w = (w1, hb, r)" and "keeps_backoff c (he_during he)"
  shows "w_config w1 = w_config w \<and> dget (w_hb_backoffs w1) c = dget (w_hb_backoffs w) c"
  using assms(1)
proof (cases rule: send_cases)
  case (answered hb w0 resp)
  then show ?thesis
    using assms(2) heartbeat_answer_frame(2,5) [OF answered(3)] begin_frame(1,2) [OF answered(1)]
    by (simp add: keeps_backoff_def)
next
  case (failed hb w0 e)
  then show ?thesis using assms(2) begin_frame(1,2) [OF failed(1)] by (simp add: keeps_backoff_def)
qed (simp_all add: begin_frame)

lemma iteration_failed:
  assumes "heartbeat_iteration rx he c w = (w1, r, WaitFor d)" and "plain_failure r"
    and "keeps_backoff c (he_during he)"
  shows "w_config w1 = w_config w" and "dget (w_hb_backoffs w1) c = Some d"
    and "d = calculate_backoff (cfg_rate_limit_backoff_floor (w_config w)) (dget_or (w_hb_backoffs w) c 0)
           (cfg_heartbeat_interval (w_config w)) (cfg_poll_backoff_max (w_config w)) default_factor False"
proof -
  obtain w0 hb s where send: "send_single_heartbeat rx he c w = (w0, hb, s)" by (metis prod_cases3)
  from assms(1,2) obtain e where s: "s = Inl e" "r = Inl e"
    by (cases s) (auto simp: heartbeat_iteration_def send plain_failure_def Let_def split: prod.splits)
  from assms(2) s have e: "is_rxon_error e" "\<not> is_rate_limit e" "\<not> session_lost e"
    by (simp_all add: plain_failure_def)
  from send_backoff_frame [OF send assms(3)] have "w_config w0 = w_config w" ..
  with assms(1) s e show "w_config w1 = w_config w" "dget (w_hb_backoffs w1) c = Some d"
    and "d = calculate_backoff (cfg_rate_limit_backoff_floor (w_config w)) (dget_or (w_hb_backoffs w) c 0)
           (cfg_heartbeat_interval (w_config w)) (cfg_poll_backoff_max (w_config w)) default_factor False"
    by (auto simp: heartbeat_iteration_def send heartbeat_failed_def Let_def dict.get_put)
qed

lemma loop_failures:
  assumes "heartbeat_loop rx c its w = (w', passes, StillRunning)" and "list_all (plain_failure \<circ> fst) passes"
    and "list_all (\<lambda>(he, d). keeps_backoff c (he_during he) \<and> keeps_backoff c d) its"
    and "cfg_heartbeat_interval (w_config w) = Fin i" and "cfg_poll_backoff_max (w_config w) = Fin m"
    and "k < length passes"
  shows "snd (passes ! k) = ((\<lambda>b. calculate_backoff (Fin 0) b (Fin i) (Fin m) default_factor False) ^^ Suc k)
           (dget_or (w_hb_backoffs w) c 0)"
  using assms
proof (induction rx c its w arbitrary: w' passes k rule: heartbeat_loop.induct)
  case (2 rx c he waiting its w)
  let ?f = "\<lambda>b. calculate_backoff (Fin 0) b (Fin i) (Fin m) default_factor False"
  obtain w1 r nxt where it: "heartbeat_iteration rx he c w = (w1, r, nxt)" by (metis prod_cases3)
  from 2(2) obtain d rest where nxt: "nxt = WaitFor d" and run: "\<not> w_shutdown w"
    "heartbeat_loop rx c its (waiting w1) = (w', rest, StillRunning)" "passes = (r, d) # rest"
    by (auto simp: it split: if_splits hb_next.splits prod.splits)
  from 2(3) run have fail: "plain_failure r" "list_all (plain_failure \<circ> fst) rest" by (simp_all add: comp_def)
  from 2(4) have quiet: "keeps_backoff c (he_during he)" "keeps_backoff c waiting"
    "list_all (\<lambda>(he, d). keeps_backoff c (he_during he) \<and> keeps_backoff c d) its" by simp_all
  note step = iteration_failed [OF it [unfolded nxt] fail(1) quiet(1)]
  have keep: "w_config (waiting w1) = w_config w" "dget_or (w_hb_backoffs (waiting w1)) c 0 = d"
    using quiet(2) step by (simp_all add: keeps_backoff_def dget_or_def)
  have d: "d = calculate_backoff (Fin 0) (dget_or (w_hb_backoffs w) c 0) (Fin i) (Fin m) default_factor False"
    using step(3) 2(5,6) by (simp add: calculate_backoff_def)
  show ?case
  proof (cases k)
    case 0
    then show ?thesis using run d by simp
  next
    case (Suc j)
    have "snd (rest ! j) = ((\<lambda>b. calculate_backoff (Fin 0) b (Fin i) (Fin m) default_factor False) ^^ Suc j)
        (dget_or (w_hb_backoffs (waiting w1)) c 0)"
      by (rule 2(1) [OF run(1) it [symmetric] refl nxt run(2)]) (use 2(5-7) run fail quiet keep Suc in \<open>simp_all add: comp_def\<close>)
    moreover have "(?f ^^ Suc k) (dget_or (w_hb_backoffs w) c 0) = (?f ^^ Suc j) d"
      unfolding Suc d funpow_Suc_right [of "Suc j"] o_apply ..
    ultimately show ?thesis using Suc run keep by simp
  qed
qed simp

text \<open>
  C25: Consecutive plain failures of the heartbeat to an orchestrator are spaced by the heartbeat
  interval, twice, four times the interval, and so on up to \<open>POLL_BACKOFF_MAX\<close>, whatever else the
  worker does in between, if the orchestrator had no back-off before.
\<close>

theorem heartbeat_failures_backoff:
  assumes "heartbeat_loop rx c its w = (w', passes, StillRunning)" and "list_all (plain_failure \<circ> fst) passes"
    and "list_all (\<lambda>(he, d). keeps_backoff c (he_during he) \<and> keeps_backoff c d) its"
    and "cfg_heartbeat_interval (w_config w) = Fin i" and "cfg_poll_backoff_max (w_config w) = Fin m"
    and "0 \<le> i" and "dget_or (w_hb_backoffs w) c 0 = 0" and "k < length passes"
  shows "snd (passes ! k) = Fin (min (2 ^ k * i) m)"
  using loop_failures [OF assms(1-5,8)] assms(7) backoff_iterates [OF assms(6), of k "Fin 0" m]
  by (simp add: zero_pyfloat_eq)

definition failing_pass :: "rat \<Rightarrow> hb_env \<times> (worker \<Rightarrow> worker)" where
  "failing_pass t = (sample_hb t (Inl (RxonNetworkError ''connection refused'')), \<lambda>w. w)"

theorem heartbeat_failures_backoff_witness:
  "snd (fst (snd (heartbeat_loop sample_rxon 1 [failing_pass 100, failing_pass 120, failing_pass 150] sample_worker)) ! 2)
     = Fin 60"
proof -
  let ?its = "[failing_pass 100, failing_pass 120, failing_pass 150]"
  let ?run = "heartbeat_loop sample_rxon 1 ?its sample_worker"
  have "snd (snd ?run) = StillRunning" by code_simp
  then have run: "?run = (fst ?run, fst (snd ?run), StillRunning)" by (metis prod.collapse)
  have len: "length (fst (snd ?run)) = 3" by code_simp
  have fail: "list_all (plain_failure \<circ> fst) (fst (snd ?run))" by code_simp
  have cfg: "cfg_heartbeat_interval (w_config sample_worker) = Fin 15"
    "cfg_poll_backoff_max (w_config sample_worker) = Fin 60" "dget_or (w_hb_backoffs sample_worker) 1 0 = 0"
    by (simp_all add: sample_worker_def sample_config_def dget_or_def)
  have q: "list_all (\<lambda>(he, d). keeps_backoff 1 (he_during he) \<and> keeps_backoff 1 d) ?its"
    by (simp add: failing_pass_def sample_hb_def keeps_backoff_def)
  show ?thesis
    using heartbeat_failures_backoff [OF run fail q cfg(1,2) _ cfg(3), of 2] len by simp
qed

end
