(* ===== verification/Debounce.thy ===== *)
theory Debounce
  imports Heartbeat
begin

text \<open>
  All heartbeats together: the heartbeat loops, the coroutines \<open>_schedule_heartbeat_debounce\<close>
  starts, and the delayed ones, interleaved at the points where they wait (for the answer of an
  orchestrator, or in the debouncing sleep). The steps are the halves of \<open>send_single_heartbeat\<close>.
\<close>

section \<open>The system\<close>

record hb_system =
  hs_worker :: worker
  hs_sleeping :: "client list" \<comment> \<open>delayed heartbeats in their sleep\<close>
  hs_sending :: "(client \<times> heartbeat \<times> bool) list" \<comment> \<open>awaiting the answer; whether a delayed one\<close>

text \<open>The delayed heartbeats among the coroutines a step started.\<close>

fun delayed_clients :: "spawn list \<Rightarrow> client list" where
  "delayed_clients [] = []"
| "delayed_clients (SpawnDelayedHeartbeat c d # ss) = c # delayed_clients ss"
| "delayed_clients (s # ss) = delayed_clients ss"

definition newly_delayed :: "worker \<Rightarrow> worker \<Rightarrow> client list" where
  "newly_delayed w w' = delayed_clients (drop (length (w_spawned w)) (w_spawned w'))"

text \<open>The end of a heartbeat: a delayed one clears the flag in its \<open>finally\<close> clause.\<close>

definition ended :: "client \<Rightarrow> bool \<Rightarrow> worker \<Rightarrow> worker" where
  "ended c is_delayed w = (if is_delayed then clear_debounce c w else w)"

text \<open>
  \<open>call\<close>: a heartbeat loop or a triggered heartbeat starts. \<open>wake\<close>: a delayed one starts after its
  sleep. \<open>answer\<close>, \<open>fail\<close>: the response or an exception arrives. \<open>other\<close>: any code that leaves the
  flags alone.
\<close>

inductive hb_step :: "rxon \<Rightarrow> hb_system \<Rightarrow> hb_system \<Rightarrow> bool" for rx where
  call_sends: "hb_step rx s (s\<lparr>hs_worker := w, hs_sending := (c, hb, False) # hs_sending s\<rparr>)"
    if "heartbeat_begin rx he c (hs_worker s) = (Sending hb, w)"
| call_stops: "hb_step rx s (s\<lparr>hs_worker := w, hs_sleeping := newly_delayed (hs_worker s) w @ hs_sleeping s\<rparr>)"
    if "heartbeat_begin rx he c (hs_worker s) = (st, w)" and "\<And>hb. st \<noteq> Sending hb"
| wake_sends: "hb_step rx s (s\<lparr>hs_worker := w, hs_sleeping := remove1 c (hs_sleeping s),
      hs_sending := (c, hb, True) # hs_sending s\<rparr>)"
    if "c \<in> set (hs_sleeping s)" and "heartbeat_begin rx he c (hs_worker s) = (Sending hb, w)"
| wake_stops: "hb_step rx s (s\<lparr>hs_worker := ended c True w,
      hs_sleeping := newly_delayed (hs_worker s) w @ remove1 c (hs_sleeping s)\<rparr>)"
    if "c \<in> set (hs_sleeping s)" and "heartbeat_begin rx he c (hs_worker s) = (st, w)" and "\<And>hb. st \<noteq> Sending hb"
| sleep_cancelled: "hb_step rx s (s\<lparr>hs_worker := ended c True (hs_worker s), hs_sleeping := remove1 c (hs_sleeping s)\<rparr>)"
    if "c \<in> set (hs_sleeping s)"
| answer: "hb_step rx s (s\<lparr>hs_worker := ended c d w, hs_sending := remove1 (c, hb, d) (hs_sending s)\<rparr>)"
    if "(c, hb, d) \<in> set (hs_sending s)" and "heartbeat_answer rx later c hb resp (hs_worker s) = (w, r)"
| fail: "hb_step rx s (s\<lparr>hs_worker := ended c d (hs_worker s), hs_sending := remove1 (c, hb, d) (hs_sending s)\<rparr>)"
    if "(c, hb, d) \<in> set (hs_sending s)"
| other: "hb_step rx s (s\<lparr>hs_worker := w\<rparr>)"
    if "w_debouncing_flags w = w_debouncing_flags (hs_worker s)"

inductive_cases hb_stepE: "hb_step rx s s'"

definition hb_reachable :: "rxon \<Rightarrow> worker \<Rightarrow> hb_system \<Rightarrow> bool" where
  "hb_reachable rx w s = (hb_step rx)\<^sup>*\<^sup>* \<lparr>hs_worker = w, hs_sleeping = [], hs_sending = []\<rparr> s"

definition flag_set :: "client \<Rightarrow> worker \<Rightarrow> bool" where
  "flag_set c w = dget_or (w_debouncing_flags w) c False"

text \<open>The delayed heartbeats to an orchestrator that have not ended.\<close>

definition pending_delayed :: "client \<Rightarrow> hb_system \<Rightarrow> nat" where
  "pending_delayed c s = length (filter (\<lambda>d. d = c) (hs_sleeping s)) +
     length (filter (\<lambda>(d, hb, is_delayed). d = c \<and> is_delayed) (hs_sending s))"

section \<open>Lemmas\<close>

lemma flag_ended: "flag_set c (ended d b w) = (flag_set c w \<and> \<not> (b \<and> c = d))"
  by (simp add: flag_set_def ended_def clear_debounce_def dget_or_dset)

lemma flag_cong: "w_debouncing_flags w' = w_debouncing_flags w \<Longrightarrow> flag_set c w' = flag_set c w"
  by (simp add: flag_set_def)

lemma begin_sending_flags:
  "heartbeat_begin rx he c w = (Sending hb, w') \<Longrightarrow> flag_set c' w' = flag_set c' w"
  by (erule begin_cases) (simp_all add: flag_set_def payload_frame(4))

text \<open>A call that sends nothing starts one delayed heartbeat, just if the flag was down, and raises it.\<close>

lemma begin_stopped:
  assumes "heartbeat_begin rx he c w = (st, w')" and "\<And>hb. st \<noteq> Sending hb"
  shows "newly_delayed w w' = (if flag_set c w \<or> st \<noteq> Debounced then [] else [c]) \<and>
    (\<forall>c'. flag_set c' w' = (flag_set c' w \<or> (c' = c \<and> st = Debounced)))"
  using assms(1)
proof (cases rule: begin_cases)
  case debounced
  then show ?thesis by (auto simp: newly_delayed_def flag_set_def dget_or_dset)
qed (use assms(2) in \<open>auto simp: newly_delayed_def\<close>)

lemma length_filter_remove1:
  assumes "x \<in> set xs"
  shows "length (filter P xs) = length (filter P (remove1 x xs)) + (if P x then 1 else 0)"
proof (cases "P x")
  case True
  then have "x \<in> set (filter P xs)" using assms by simp
  then have "length (filter P xs) = Suc (length (remove1 x (filter P xs)))"
    using length_pos_if_in_set [of x "filter P xs"] by (simp add: length_remove1)
  with True show ?thesis by (simp add: filter_remove1)
next
  case False
  then have "remove1 x (filter P xs) = filter P xs" by (intro remove1_idem) simp
  with False show ?thesis by (simp add: filter_remove1)
qed

lemmas sleeping_removed = length_filter_remove1 [of _ "hs_sleeping s" "\<lambda>d. d = c" for s c]
lemmas sending_removed =
  length_filter_remove1 [of _ "hs_sending s" "\<lambda>(d, hb, is_delayed). d = c \<and> is_delayed" for s c]

definition flag_counts :: "hb_system \<Rightarrow> bool" where
  "flag_counts s = (\<forall>c. pending_delayed c s = (if flag_set c (hs_worker s) then 1 else 0))"

text \<open>A pending delayed heartbeat holds the flag.\<close>

lemma sleeping_flag: "flag_counts s \<Longrightarrow> c \<in> set (hs_sleeping s) \<Longrightarrow> flag_set c (hs_worker s)"
  using length_filter_remove1 [of c "hs_sleeping s" "\<lambda>d. d = c"]
  by (force simp: flag_counts_def pending_delayed_def split: if_splits)

lemma sending_flag: "flag_counts s \<Longrightarrow> (c, hb, True) \<in> set (hs_sending s) \<Longrightarrow> flag_set c (hs_worker s)"
  using sending_removed [of "(c, hb, True)" s c]
  by (force simp: flag_counts_def pending_delayed_def split: if_splits)

lemma step_flag_counts:
  assumes "hb_step rx s s'" and inv: "flag_counts s"
  shows "flag_counts s'"
  using assms(1)
proof cases
  case (call_sends he c w hb)
  with inv show ?thesis by (simp add: flag_counts_def pending_delayed_def begin_sending_flags)
next
  case (call_stops he c st w)
  with inv begin_stopped [OF call_stops(2,3)] show ?thesis
    by (auto simp: flag_counts_def pending_delayed_def split: if_splits)
next
  case (wake_sends c he hb w)
  with inv sleeping_removed [OF wake_sends(2)] show ?thesis
    by (auto simp: flag_counts_def pending_delayed_def begin_sending_flags split: if_splits)
next
  case (wake_stops c he st w)
  have "flag_set c (hs_worker s)" using inv wake_stops(2) by (rule sleeping_flag)
  with inv begin_stopped [OF wake_stops(3,4)] sleeping_removed [OF wake_stops(2)] wake_stops show ?thesis
    by (auto simp: flag_counts_def pending_delayed_def flag_ended split: if_splits)
next
  case (sleep_cancelled c)
  have "flag_set c (hs_worker s)" using inv sleep_cancelled(2) by (rule sleeping_flag)
  with inv sleeping_removed [OF sleep_cancelled(2)] sleep_cancelled show ?thesis
    by (auto simp: flag_counts_def pending_delayed_def flag_ended split: if_splits)
next
  case (answer c hb d later resp w r)
  have "flag_set x w = flag_set x (hs_worker s)" for x
    using heartbeat_answer_frame(4) [OF answer(3)] by (rule flag_cong)
  moreover have "d \<Longrightarrow> flag_set c (hs_worker s)" using inv answer(2) by (auto intro: sending_flag)
  ultimately show ?thesis using inv sending_removed [OF answer(2)] answer(1)
    by (auto simp: flag_counts_def pending_delayed_def flag_ended split: if_splits)
next
  case (fail c hb d)
  have "d \<Longrightarrow> flag_set c (hs_worker s)" using inv fail(2) by (auto intro: sending_flag)
  with inv sending_removed [OF fail(2)] fail(1) show ?thesis
    by (auto simp: flag_counts_def pending_delayed_def flag_ended split: if_splits)
next
  case (other w)
  with inv flag_cong [OF other(2)] show ?thesis by (simp add: flag_counts_def pending_delayed_def)
qed

lemma reachable_flag_counts:
  assumes "hb_reachable rx w s" and "w_debouncing_flags w = []"
  shows "flag_counts s"
  using assms(1) unfolding hb_reachable_def
proof (induction rule: rtranclp_induct)
  case base
  then show ?case using assms(2) by (simp add: flag_counts_def pending_delayed_def flag_set_def dget_or_def)
qed (rule step_flag_counts)

section \<open>Properties\<close>

text \<open>
  C10: In every interleaving of heartbeats, answers, failures and cancellations there is at most one
  delayed heartbeat to each orchestrator, and exactly one while its debouncing flag is up: bursts
  of triggers collapse into one, and a flag never stays up without a heartbeat behind it.
\<close>

theorem one_delayed_heartbeat:
  assumes "hb_reachable rx w s" and "w_debouncing_flags w = []"
  shows "pending_delayed c s = (if flag_set c (hs_worker s) then 1 else 0)"
  using reachable_flag_counts [OF assms] by (simp add: flag_counts_def)

text \<open>A burst: two triggers within the cooldown of a heartbeat sent at time 100.\<close>

definition just_sent :: worker where
  "just_sent = sample_worker\<lparr>w_last_heartbeat_times := [(1, 100)]\<rparr>"

definition after_trigger :: "rat \<Rightarrow> hb_system \<Rightarrow> hb_system" where
  "after_trigger t s = (let w = snd (heartbeat_begin sample_rxon (sample_hb t (Inr PNone)) 1 (hs_worker s)) in
     s\<lparr>hs_worker := w, hs_sleeping := newly_delayed (hs_worker s) w @ hs_sleeping s\<rparr>)"

theorem one_delayed_heartbeat_witness:
  "pending_delayed 1 (after_trigger (203/2) (after_trigger 101 \<lparr>hs_worker = just_sent, hs_sleeping = [], hs_sending = []\<rparr>)) = 1"
proof -
  let ?s0 = "\<lparr>hs_worker = just_sent, hs_sleeping = [], hs_sending = []\<rparr>"
  let ?s2 = "after_trigger (203/2) (after_trigger 101 ?s0)"
  have step: "hb_step sample_rxon s (after_trigger t s)"
    if "fst (heartbeat_begin sample_rxon (sample_hb t (Inr PNone)) 1 (hs_worker s)) = Debounced" for t s
  proof -
    have "heartbeat_begin sample_rxon (sample_hb t (Inr PNone)) 1 (hs_worker s) =
        (Debounced, snd (heartbeat_begin sample_rxon (sample_hb t (Inr PNone)) 1 (hs_worker s)))"
      using that by (metis prod.collapse)
    from hb_step.call_stops [OF this] show ?thesis by (simp add: after_trigger_def Let_def)
  qed
  have "hb_step sample_rxon ?s0 (after_trigger 101 ?s0)" by (rule step) code_simp
  moreover have "hb_step sample_rxon (after_trigger 101 ?s0) ?s2" by (rule step) code_simp
  ultimately have "hb_reachable sample_rxon just_sent ?s2"
    unfolding hb_reachable_def by (meson converse_rtranclp_into_rtranclp rtranclp.rtrancl_refl)
  moreover have "w_debouncing_flags just_sent = []" by (simp add: just_sent_def sample_worker_def)
  moreover have "flag_set 1 (hs_worker ?s2)" by code_simp
  ultimately show ?thesis using one_delayed_heartbeat [of sample_rxon just_sent ?s2 1] by simp
qed

section \<open>What the flag and the cooldown do not give\<close>

text \<open>
  The cooldown is measured from the last answer, so it does not keep two heartbeats apart that
  start before either is answered: both are sent.
\<close>

definition started :: "rat \<Rightarrow> client \<Rightarrow> worker \<Rightarrow> hb_start \<times> worker" where
  "started t c w = heartbeat_begin sample_rxon (sample_hb t (Inr PNone)) c w"

fun hot_sent :: "hb_start \<Rightarrow> string list option option" where
  "hot_sent (Sending hb) = Some (hb_hot_skills hb)"
| "hot_sent _ = None"

theorem concurrent_heartbeats_pass_cooldown:
  "let (st1, w1) = started 102 1 just_sent; (st2, w2) = started 102 1 w1 in
     hot_sent st1 \<noteq> None \<and> hot_sent st2 \<noteq> None"
  by code_simp

text \<open>
  An update can be lost: the delayed heartbeat sent at 102 is still unanswered (its payload is
  built), another heartbeat is sent at 102.1 and answered at 102.2, and the hot list changes. The
  trigger at 102.3 falls into the cooldown and finds the flag up, so it starts nothing; then the
  delayed heartbeat ends and the flag goes down. Neither payload has the change and no heartbeat is
  left that would report it.
\<close>

definition answered :: "rat \<Rightarrow> client \<Rightarrow> hb_start \<Rightarrow> worker \<Rightarrow> worker" where
  "answered t c st w = (case st of Sending hb \<Rightarrow> fst (heartbeat_answer sample_rxon t c hb PNone w) | _ \<Rightarrow> w)"

theorem debounced_update_lost:
  "let (st1, w1) = started 101 1 just_sent;
       (st2, w2) = started 102 1 w1;
       (st3, w3) = started (1021/10) 1 w2;
       w4 = answered (1022/10) 1 st3 w3;
       w5 = add_to_hot_skills ''echo'' w4;
       (st6, w6) = started (1023/10) 1 w5;
       w7 = ended 1 True (answered (1025/10) 1 st2 w6)
   in delayed_clients (w_spawned w1) = [1] \<and>
      hot_sent st2 = Some None \<and> hot_sent st3 = Some None \<and> t_hot (get_current_state w7) \<noteq> [] \<and>
      st6 = Debounced \<and> newly_delayed w5 w6 = [] \<and> \<not> flag_set 1 w7"
  by code_simp

text \<open>
  The catalogue and telemetry bookkeeping is one for all orchestrators: once the first one has
  acknowledged a changed catalogue, the heartbeat to the second carries neither the catalogue nor
  the usage just reported to the first.
\<close>

fun what_was_sent :: "hb_start \<Rightarrow> (bool \<times> bool) option" where
  "what_was_sent (Sending hb) = Some (hb_supported_skills hb \<noteq> None, hb_usage hb \<noteq> None)"
| "what_was_sent _ = None"

theorem second_orchestrator_misses_update:
  "let (st1, w1) = started 100 1 sample_worker;
       w2 = (case st1 of Sending hb \<Rightarrow> fst (heartbeat_answer sample_rxon 100 1 hb (PDict []) w1) | _ \<Rightarrow> w1);
       (st3, w3) = started 100 2 w2
   in what_was_sent st1 = Some (True, True) \<and> what_was_sent st3 = Some (False, False)"
  by code_simp

end
