(* ===== verification/Registration.thy ===== *)
theory Registration
  imports Heartbeat
begin

text \<open>
  Registration with an orchestrator: the payload, the retry loop, and the manager that registers,
  sends heartbeats and registers again when the orchestrator has lost the session.
\<close>

section \<open>The payload\<close>

text \<open>
  \<open>Cls(**{k: v for k, v in d.items() if k in fields})\<close> for each entry of a list. An entry that is not
  a dictionary has no \<open>items\<close>.
\<close>

definition known_only :: "string list \<Rightarrow> (string, pyval) dict \<Rightarrow> (string, pyval) dict" where
  "known_only known d = filter (\<lambda>(k, v). k \<in> set known) d"

fun build_each ::
  "string list \<Rightarrow> ((string, pyval) dict \<Rightarrow> (string, pyval) dict result) \<Rightarrow> pyval list
   \<Rightarrow> (string, pyval) dict list result" where
  "build_each known mk [] = Inr []"
| "build_each known mk (PDict d # vs) =
     and_then (mk (known_only known d)) (\<lambda>x.
       and_then (build_each known mk vs) (\<lambda>xs. Inr (x # xs)))"
| "build_each known mk (v # vs) = Inl (AttributeError ''items'')"

definition registration_devices :: "rxon \<Rightarrow> worker_config \<Rightarrow> (string, pyval) dict list option result" where
  "registration_devices rx cfg =
     (let v = dget_or (cfg_resources cfg) ''devices'' PNone
      in if truthy v
         then and_then (py_iter v) (\<lambda>vs.
                and_then (build_each (rx_device_fields rx) (rx_new_device rx) vs) (\<lambda>ds. Inr (Some ds)))
         else Inr None)"

text \<open>
  A copy of the configured properties with \<open>cpu_cores\<close> and \<open>ram_gb\<close> filled in. A list has a \<open>copy\<close>
  method, too, but assigning its items by name raises.
\<close>

definition add_missing :: "string \<Rightarrow> pyval \<Rightarrow> (string, pyval) dict \<Rightarrow> (string, pyval) dict" where
  "add_missing k v d = (if dhas d k then d else dset k v d)"

definition registration_properties :: "worker_config \<Rightarrow> (string, pyval) dict result" where
  "registration_properties cfg =
     (let res = cfg_resources cfg; v = dget_or res ''properties'' PNone
      in and_then
           (if \<not> truthy v then Inr []
            else (case v of
                    PDict d \<Rightarrow> Inr d
                  | PList _ \<Rightarrow> Inl (TypeError ''list indices must be integers'')
                  | _ \<Rightarrow> Inl (AttributeError ''copy'')))
           (\<lambda>props. Inr (add_missing ''ram_gb'' (dget_or res ''ram_gb'' (PFloat (Fin 1)))
                      (add_missing ''cpu_cores'' (dget_or res ''cpu_cores'' (PInt 1)) props))))"

definition registration_artifacts :: "rxon \<Rightarrow> worker_config \<Rightarrow> (string, pyval) dict list result" where
  "registration_artifacts rx cfg =
     and_then (py_iter (cfg_installed_artifacts cfg)) (build_each (rx_artifact_fields rx) (rx_new_artifact rx))"

definition registration_extra :: "worker_config \<Rightarrow> (string, pyval) dict" where
  "registration_extra cfg =
     dmerge [(''websockets'', PBool (cfg_enable_websockets cfg))] (cfg_extra_capabilities cfg)"

text \<open>
  The contract hash is remembered as the synchronised one while the payload is being built, before
  the artifacts are read and before anything is sent.
\<close>

definition create_registration_payload :: "rxon \<Rightarrow> int \<Rightarrow> worker \<Rightarrow> worker \<times> registration result" where
  "create_registration_payload rx timestamp w =
     (let state = get_current_state w; cfg = w_config w
      in case and_then (registration_devices rx cfg) (\<lambda>devices.
                and_then (registration_properties cfg) (\<lambda>props. Inr (devices, props))) of
           Inl e \<Rightarrow> (w, Inl e)
         | Inr (devices, props) \<Rightarrow>
             (let skills_hash = calculate_contract_hash rx cfg (t_supported state);
                  w = w\<lparr>w_last_synced_hash := Some skills_hash\<rparr>
              in (w, and_then (registration_artifacts rx cfg) (\<lambda>artifacts.
                   let reg = \<lparr>rg_worker_id = cfg_worker_id cfg, rg_worker_type = cfg_worker_type cfg,
                         rg_supported_skills = t_supported state,
                         rg_available_skills = list_or_none (map si_name (t_available state)),
                         rg_hot_skills = list_or_none (map si_name (t_hot state)),
                         rg_devices = devices, rg_properties = props,
                         rg_installed_software = cfg_installed_software cfg,
                         rg_installed_artifacts = artifacts,
                         rg_hostname = cfg_hostname cfg, rg_ip_address = cfg_ip_address cfg,
                         rg_cost_per_skill = cfg_cost_per_skill cfg,
                         rg_s3_config_hash = rx_config_hash rx (cfg_s3_endpoint_url cfg) (cfg_s3_access_key cfg)
                           (cfg_s3_default_bucket cfg),
                         rg_extra = registration_extra cfg, rg_skills_hash = skills_hash,
                         rg_security = None, rg_timestamp = timestamp\<rparr>
                   in case sign_payload_if_needed rx cfg (RegistrationMsg reg) [] None of
                        None \<Rightarrow> Inr reg
                      | Some sec \<Rightarrow> Inr (reg\<lparr>rg_security := Some sec\<rparr>)))))"

section \<open>The retry loop\<close>

text \<open>
  The surroundings of one attempt: the clock in the payload and at the error handler, the answer of
  the orchestrator, the work interleaved with the request and with the wait after a failure. What
  the orchestrator returns is only logged.
\<close>

record reg_attempt =
  at_timestamp :: int
  at_respond :: "registration \<Rightarrow> pyval result"
  at_during :: "worker \<Rightarrow> worker"
  at_now :: rat
  at_date_of :: "pyval \<Rightarrow> rat option"
  at_waiting :: "worker \<Rightarrow> worker"

definition try_register :: "rxon \<Rightarrow> reg_attempt \<Rightarrow> worker \<Rightarrow> worker \<times> pyval result" where
  "try_register rx a w =
     (case create_registration_payload rx (at_timestamp a) w of
        (w, Inl e) \<Rightarrow> (w, Inl e)
      | (w, Inr reg) \<Rightarrow> (at_during a w, at_respond a reg))"

definition registration_delay :: "worker_config \<Rightarrow> reg_attempt \<Rightarrow> pyfloat \<Rightarrow> pyexn \<Rightarrow> pyfloat" where
  "registration_delay cfg a delay e =
     (let retry_after = parse_retry_after (at_date_of a) (at_now a) (retry_after_of e)
      in if 0 < retry_after then retry_after
         else calculate_backoff (cfg_rate_limit_backoff_floor cfg) delay
                (cfg_registration_retry_initial_delay cfg) (cfg_registration_retry_max_delay cfg)
                default_factor (is_rate_limit e))"

datatype reg_end = RegPending | RegDone | RegShutdown | RegEscaped pyexn

text \<open>The loop over its attempts, with the delays it waited.\<close>

fun register_loop :: "rxon \<Rightarrow> pyfloat \<Rightarrow> reg_attempt list \<Rightarrow> worker \<Rightarrow> worker \<times> pyfloat list \<times> reg_end" where
  "register_loop rx delay [] w = (w, [], RegPending)"
| "register_loop rx delay (a # as) w =
     (if w_shutdown w then (w, [], RegShutdown)
      else (case try_register rx a w of
              (w, Inr _) \<Rightarrow> (w\<lparr>w_registered := True\<rparr>, [], RegDone)
            | (w, Inl e) \<Rightarrow>
                if \<not> is_exception e then (w, [], RegEscaped e)
                else (let delay = registration_delay (w_config w) a delay e
                      in case register_loop rx delay as (at_waiting a w) of
                           (w, ds, r) \<Rightarrow> (w, delay # ds, r))))"

definition register_client_with_retry :: "rxon \<Rightarrow> reg_attempt list \<Rightarrow> worker \<Rightarrow> worker \<times> pyfloat list \<times> reg_end" where
  "register_client_with_retry rx as w =
     register_loop rx (cfg_registration_retry_initial_delay (w_config w)) as w"

text \<open>\<open>_manage_single_orchestrator\<close> over its rounds of registration and heartbeats.\<close>

datatype manager_end = ManagerRunning | ManagerStopped | ManagerEndedBy pyexn

fun manage_single_orchestrator ::
  "rxon \<Rightarrow> client \<Rightarrow> (reg_attempt list \<times> (hb_env \<times> (worker \<Rightarrow> worker)) list) list \<Rightarrow> worker \<Rightarrow> worker \<times> manager_end" where
  "manage_single_orchestrator rx c [] w = (w, ManagerRunning)"
| "manage_single_orchestrator rx c ((as, its) # rounds) w =
     (if w_shutdown w then (w, ManagerStopped)
      else (case register_client_with_retry rx as w of
              (w, _, RegPending) \<Rightarrow> (w, ManagerRunning)
            | (w, _, RegEscaped e) \<Rightarrow> (w, ManagerEndedBy e)
            | (w, _, _) \<Rightarrow>
                if w_shutdown w then (w, ManagerStopped)
                else (case heartbeat_loop rx c its w of
                        (w, _, StillRunning) \<Rightarrow> (w, ManagerRunning)
                      | (w, _, StoppedByShutdown) \<Rightarrow> (w, ManagerStopped)
                      | (w, _, EndedBy e) \<Rightarrow> (w, ManagerEndedBy e)
                      | (w, _, LostSession) \<Rightarrow> manage_single_orchestrator rx c rounds w)))"

section \<open>Lemmas\<close>

text \<open>Whether a payload can be built depends on the configuration alone.\<close>

definition buildable :: "rxon \<Rightarrow> worker_config \<Rightarrow> bool" where
  "buildable rx cfg = (is_ok (registration_devices rx cfg) \<and> is_ok (registration_properties cfg) \<and>
     is_ok (registration_artifacts rx cfg))"

lemma is_ok_iff: "is_ok r \<longleftrightarrow> (\<exists>x. r = Inr x)"
  by (cases r) auto

lemma payload_built_iff: "is_ok (snd (create_registration_payload rx t w)) \<longleftrightarrow> buildable rx (w_config w)"
  by (cases "registration_devices rx (w_config w)"; cases "registration_properties (w_config w)";
      cases "registration_artifacts rx (w_config w)")
    (simp_all add: create_registration_payload_def buildable_def Let_def split: option.splits)

lemma registration_payload_frame:
  assumes "create_registration_payload rx t w = (w', r)"
  shows "w_config w' = w_config w" "w_shutdown w' = w_shutdown w" "w_handlers w' = w_handlers w"
    "w_usage_checker w' = w_usage_checker w" "w_last_sent_usage w' = w_last_sent_usage w"
  using assms by (auto simp: create_registration_payload_def Let_def split: sum.splits)

text \<open>What runs during an attempt or a wait and leaves the configuration and the shutdown event alone.\<close>

definition keeps_running :: "(worker \<Rightarrow> worker) \<Rightarrow> bool" where
  "keeps_running d = (\<forall>w. w_config (d w) = w_config w \<and> w_shutdown (d w) = w_shutdown w)"

definition calm :: "reg_attempt \<Rightarrow> bool" where
  "calm a = (keeps_running (at_during a) \<and> keeps_running (at_waiting a))"

lemma try_register_frame:
  assumes "calm a" and "try_register rx a w = (w1, r)"
  shows "w_config w1 = w_config w" "w_shutdown w1 = w_shutdown w"
  using assms registration_payload_frame(1,2)
  by (auto simp: try_register_def calm_def keeps_running_def split: prod.splits sum.splits)

lemma waited_frame:
  assumes "calm a" and "try_register rx a w = (w1, r)"
  shows "w_config (at_waiting a w1) = w_config w" "w_shutdown (at_waiting a w1) = w_shutdown w"
  using assms(1) try_register_frame [OF assms] by (simp_all add: calm_def keeps_running_def)

text \<open>An attempt the orchestrator rejects with an exception that the loop catches.\<close>

definition rejects :: "reg_attempt \<Rightarrow> bool" where
  "rejects a = (calm a \<and> (\<forall>reg. case at_respond a reg of Inl e \<Rightarrow> is_exception e | Inr _ \<Rightarrow> False))"

text \<open>A rejection without a \<open>Retry-After\<close>.\<close>

definition no_retry_after :: "reg_attempt \<Rightarrow> bool" where
  "no_retry_after a = (\<forall>reg. case at_respond a reg of Inl e \<Rightarrow> \<not> truthy (retry_after_of e) | Inr _ \<Rightarrow> True)"

definition accepts :: "reg_attempt \<Rightarrow> bool" where
  "accepts a = (calm a \<and> (\<forall>reg. is_ok (at_respond a reg)))"

lemma try_register_built:
  assumes "buildable rx (w_config w)"
  obtains reg w0 where "try_register rx a w = (at_during a w0, at_respond a reg)"
proof -
  obtain w0 r where c: "create_registration_payload rx (at_timestamp a) w = (w0, r)" by fastforce
  with assms payload_built_iff [of rx "at_timestamp a" w] obtain reg where "r = Inr reg" by (auto simp: is_ok_iff)
  with c that show thesis by (simp add: try_register_def)
qed

lemma rejected_step:
  assumes "rejects a" and "buildable rx (w_config w)" and "\<not> w_shutdown w"
  obtains w1 e where "try_register rx a w = (w1, Inl e)" and "is_exception e"
    and "no_retry_after a \<Longrightarrow> \<not> truthy (retry_after_of e)"
    and "\<And>delay as. register_loop rx delay (a # as) w =
       (let d = registration_delay (w_config w) a delay e; (w', ds, r) = register_loop rx d as (at_waiting a w1)
        in (w', d # ds, r))"
proof -
  obtain reg w0 where t: "try_register rx a w = (at_during a w0, at_respond a reg)"
    by (rule try_register_built [OF assms(2)])
  from assms(1) obtain e where e: "at_respond a reg = Inl e" "is_exception e"
    by (cases "at_respond a reg") (auto simp: rejects_def dest: spec [of _ reg])
  have "no_retry_after a \<Longrightarrow> \<not> truthy (retry_after_of e)"
    using e by (auto simp: no_retry_after_def dest!: spec [of _ reg])
  moreover have "w_config (at_during a w0) = w_config w"
    using try_register_frame(1) [OF _ t] assms(1) by (simp add: rejects_def)
  ultimately show thesis using that [of "at_during a w0" e] t e assms(3) by (simp add: Let_def)
qed

lemma delay_bounds:
  assumes "\<not> truthy (retry_after_of e)"
    and "cfg_registration_retry_initial_delay cfg = Fin i" and "cfg_registration_retry_max_delay cfg = Fin m"
    and "cfg_rate_limit_backoff_floor cfg = Fin fl"
  shows "\<exists>q. registration_delay cfg a (Fin p) e = Fin q \<and> min i m \<le> q \<and> q \<le> max m fl"
  using assms by (auto simp: registration_delay_def Let_def calculate_backoff_fin zero_pyfloat_def)

definition delay_between :: "rat \<Rightarrow> rat \<Rightarrow> pyfloat \<Rightarrow> bool" where
  "delay_between lo hi d = (case d of Fin q \<Rightarrow> lo \<le> q \<and> q \<le> hi | _ \<Rightarrow> False)"

lemma delay_between_Fin [simp]: "delay_between lo hi (Fin q) = (lo \<le> q \<and> q \<le> hi)"
  by (simp add: delay_between_def)

lemma register_loop_succeeds:
  assumes "list_all rejects fails" and "accepts good" and "buildable rx (w_config w)" and "\<not> w_shutdown w"
  shows "\<exists>w' ds. register_loop rx delay (fails @ good # rest) w = (w', ds, RegDone) \<and> w_registered w' \<and>
    length ds = length fails"
  using assms
proof (induction fails arbitrary: w delay)
  case Nil
  obtain reg w0 where "try_register rx good w = (at_during good w0, at_respond good reg)"
    by (rule try_register_built [OF Nil.prems(3)])
  moreover obtain x where "at_respond good reg = Inr x" using Nil.prems(2) by (auto simp: accepts_def is_ok_iff)
  ultimately show ?case using Nil.prems(4) by simp
next
  case (Cons a fails)
  from Cons.prems(1) have rej: "rejects a" and fails: "list_all rejects fails" by simp_all
  from rej have calm: "calm a" by (simp add: rejects_def)
  obtain w1 e where t: "try_register rx a w = (w1, Inl e)" and step: "\<And>delay as. register_loop rx delay (a # as) w =
       (let d = registration_delay (w_config w) a delay e; (w', ds, r) = register_loop rx d as (at_waiting a w1)
        in (w', d # ds, r))"
    by (rule rejected_step [OF rej Cons.prems(3,4)]) blast
  obtain w' ds where "register_loop rx (registration_delay (w_config w) a delay e) (fails @ good # rest) (at_waiting a w1) =
      (w', ds, RegDone)" "w_registered w'" "length ds = length fails"
    using Cons.IH [OF fails Cons.prems(2)] waited_frame [OF calm t] Cons.prems(3,4) by metis
  then show ?case using step [of delay "fails @ good # rest"] by (simp add: Let_def del: register_loop.simps)
qed

lemma register_loop_delays:
  assumes "list_all (\<lambda>a. rejects a \<and> no_retry_after a) fails" and "accepts good"
    and "buildable rx (w_config w)" and "\<not> w_shutdown w"
    and cfg: "cfg_registration_retry_initial_delay (w_config w) = Fin i" "cfg_registration_retry_max_delay (w_config w) = Fin m"
      "cfg_rate_limit_backoff_floor (w_config w) = Fin fl"
  shows "list_all (delay_between (min i m) (max m fl)) (fst (snd (register_loop rx (Fin p) (fails @ good # rest) w)))"
  using assms
proof (induction fails arbitrary: w p)
  case Nil
  obtain reg w0 where "try_register rx good w = (at_during good w0, at_respond good reg)"
    by (rule try_register_built [OF Nil.prems(3)])
  moreover obtain x where "at_respond good reg = Inr x" using Nil.prems(2) by (auto simp: accepts_def is_ok_iff)
  ultimately show ?case using Nil.prems(4) by simp
next
  case (Cons a fails)
  from Cons.prems(1) have rej: "rejects a" "no_retry_after a"
    and fails: "list_all (\<lambda>a. rejects a \<and> no_retry_after a) fails" by simp_all
  from rej have calm: "calm a" by (simp add: rejects_def)
  obtain w1 e where t: "try_register rx a w = (w1, Inl e)" and ra: "\<not> truthy (retry_after_of e)"
    and step: "\<And>delay as. register_loop rx delay (a # as) w =
       (let d = registration_delay (w_config w) a delay e; (w', ds, r) = register_loop rx d as (at_waiting a w1)
        in (w', d # ds, r))"
    by (rule rejected_step [OF rej(1) Cons.prems(3,4)]) (use rej(2) in blast)
  from delay_bounds [OF ra Cons.prems(5-7)] obtain q
    where q: "registration_delay (w_config w) a (Fin p) e = Fin q" "min i m \<le> q" "q \<le> max m fl" by blast
  have "list_all (delay_between (min i m) (max m fl))
      (fst (snd (register_loop rx (Fin q) (fails @ good # rest) (at_waiting a w1))))"
    by (rule Cons.IH) (use waited_frame [OF calm t] Cons.prems fails in simp_all)
  with q step [of "Fin p" "fails @ good # rest"] show ?case
    by (simp add: Let_def case_prod_beta del: register_loop.simps)
qed

text \<open>The protocol classes raise nothing but exceptions; then neither does building a payload.\<close>

definition tame_classes :: "rxon \<Rightarrow> bool" where
  "tame_classes rx = (\<forall>d. (case rx_new_device rx d of Inl e \<Rightarrow> is_exception e | Inr _ \<Rightarrow> True) \<and>
     (case rx_new_artifact rx d of Inl e \<Rightarrow> is_exception e | Inr _ \<Rightarrow> True))"

lemma build_each_error:
  assumes "\<And>d e. mk d = Inl e \<Longrightarrow> is_exception e" and "build_each known mk vs = Inl e"
  shows "is_exception e"
  using assms(2)
proof (induction vs arbitrary: e)
  case (Cons v vs)
  then show ?case by (cases v) (auto simp: and_then_Inl_iff is_exception_def dest: assms(1) [unfolded is_exception_def])
qed simp

lemma payload_error:
  assumes "tame_classes rx" and "create_registration_payload rx t w = (w0, Inl e)"
  shows "is_exception e"
proof -
  have new: "\<And>d e. rx_new_device rx d = Inl e \<Longrightarrow> is_exception e" "\<And>d e. rx_new_artifact rx d = Inl e \<Longrightarrow> is_exception e"
    using assms(1) unfolding tame_classes_def by (metis sum.simps(5))+
  have iter: "is_exception e" if "py_iter v = Inl e" for v e
    using that by (cases v) (auto simp: is_exception_def)
  have "is_exception e" if "registration_devices rx cfg = Inl e" for cfg e
    using that iter build_each_error [OF new(1)]
    by (auto simp: registration_devices_def Let_def and_then_Inl_iff split: if_splits)
  moreover have "is_exception e" if "registration_artifacts rx cfg = Inl e" for cfg e
    using that iter build_each_error [OF new(2)] by (auto simp: registration_artifacts_def and_then_Inl_iff)
  moreover have "is_exception e" if "registration_properties cfg = Inl e" for cfg e
    using that by (auto simp: registration_properties_def Let_def and_then_Inl_iff is_exception_def
        split: if_splits pyval.splits)
  ultimately show ?thesis
    using assms(2) by (auto simp: create_registration_payload_def Let_def and_then_Inl_iff split: sum.splits option.splits)
qed

lemma unbuildable_attempt:
  assumes "\<not> buildable rx (w_config w)" and "tame_classes rx"
  obtains w0 e where "is_exception e" and "\<And>r. try_register rx (a\<lparr>at_respond := r\<rparr>) w = (w0, Inl e)"
    and "try_register rx a w = (w0, Inl e)"
proof -
  obtain w0 r where c: "create_registration_payload rx (at_timestamp a) w = (w0, r)" by fastforce
  with payload_built_iff [of rx "at_timestamp a" w] assms(1) obtain e where "r = Inl e" by (cases r) auto
  with c have "create_registration_payload rx (at_timestamp a) w = (w0, Inl e)" by simp
  with payload_error [OF assms(2) this] that [of e w0] show thesis by (simp add: try_register_def)
qed

lemma unbuildable_loop:
  assumes "\<not> buildable rx (w_config w)" and "list_all calm as" and "tame_classes rx" and "\<not> w_shutdown w"
  shows "snd (snd (register_loop rx delay as w)) = RegPending \<and>
    length (fst (snd (register_loop rx delay as w))) = length as \<and>
    register_loop rx delay (map (\<lambda>a. a\<lparr>at_respond := respond\<rparr>) as) w = register_loop rx delay as w"
  using assms
proof (induction as arbitrary: delay w)
  case (Cons a as)
  obtain w0 e where e: "is_exception e" "\<And>r. try_register rx (a\<lparr>at_respond := r\<rparr>) w = (w0, Inl e)"
    and t: "try_register rx a w = (w0, Inl e)"
    by (rule unbuildable_attempt [OF Cons.prems(1,3), of a]) blast
  have calm: "calm a" using Cons.prems(2) by simp
  have delay: "registration_delay cfg (a\<lparr>at_respond := r\<rparr>) d x = registration_delay cfg a d x" for cfg r d x
    by (simp add: registration_delay_def)
  show ?case
    using Cons.IH [of "at_waiting a w0"] waited_frame [OF calm t] e t delay Cons.prems
    by (simp add: Let_def case_prod_beta)
qed simp

lemma dget_add_missing: "dget (add_missing k v d) j = (if j = k then Some (dget_or d k v) else dget d j)"
  by (auto simp: add_missing_def dhas_iff dict.get_put dget_or_def split: option.splits)

text \<open>The properties the configuration gives, if any.\<close>

definition configured_properties :: "worker_config \<Rightarrow> (string, pyval) dict" where
  "configured_properties cfg = (case dget_or (cfg_resources cfg) ''properties'' PNone of PDict d \<Rightarrow> d | _ \<Rightarrow> [])"

lemma properties_filled:
  assumes "registration_properties cfg = Inr p"
  shows "dget p k = (case dget (configured_properties cfg) k of
      Some v \<Rightarrow> Some v
    | None \<Rightarrow> if k = ''cpu_cores'' then Some (dget_or (cfg_resources cfg) ''cpu_cores'' (PInt 1))
              else if k = ''ram_gb'' then Some (dget_or (cfg_resources cfg) ''ram_gb'' (PFloat (Fin 1)))
              else None)"
proof -
  let ?v = "dget_or (cfg_resources cfg) ''properties'' PNone"
  obtain base where base: "p = add_missing ''ram_gb'' (dget_or (cfg_resources cfg) ''ram_gb'' (PFloat (Fin 1)))
      (add_missing ''cpu_cores'' (dget_or (cfg_resources cfg) ''cpu_cores'' (PInt 1)) base)"
    and "(if \<not> truthy ?v then Inr []
      else (case ?v of PDict d \<Rightarrow> Inr d
          | PList _ \<Rightarrow> Inl (TypeError ''list indices must be integers'') | _ \<Rightarrow> Inl (AttributeError ''copy''))) = Inr base"
    using assms unfolding registration_properties_def Let_def and_then_Inr_iff by blast
  then have "base = configured_properties cfg"
    by (cases ?v) (auto simp: configured_properties_def split: if_splits)
  with base show ?thesis by (auto simp: dget_add_missing dget_or_def split: option.splits)
qed

text \<open>An object of the protocol is built from the known fields of a dictionary, one per entry.\<close>

definition built_from ::
  "string list \<Rightarrow> ((string, pyval) dict \<Rightarrow> (string, pyval) dict result) \<Rightarrow> pyval \<Rightarrow> (string, pyval) dict \<Rightarrow> bool" where
  "built_from known mk v x = (case v of PDict d \<Rightarrow> mk (filter (\<lambda>kv. fst kv \<in> set known) d) = Inr x | _ \<Rightarrow> False)"

lemma known_only_fst: "known_only known d = filter (\<lambda>kv. fst kv \<in> set known) d"
  by (simp add: known_only_def case_prod_beta')

lemma build_each_iff: "build_each known mk vs = Inr xs \<longleftrightarrow> list_all2 (built_from known mk) vs xs"
proof (induction vs arbitrary: xs)
  case (Cons v vs)
  show ?case
    by (cases v) (auto simp: list_all2_Cons1 and_then_Inr_iff Cons.IH built_from_def known_only_fst)
qed auto

lemma devices_built:
  assumes "registration_devices rx cfg = Inr ds"
  shows "if truthy (dget_or (cfg_resources cfg) ''devices'' PNone)
    then \<exists>vs xs. py_iter (dget_or (cfg_resources cfg) ''devices'' PNone) = Inr vs \<and> ds = Some xs \<and>
      list_all2 (built_from (rx_device_fields rx) (rx_new_device rx)) vs xs
    else ds = None"
  using assms by (auto simp: registration_devices_def Let_def and_then_Inr_iff build_each_iff)

lemma artifacts_built:
  "registration_artifacts rx cfg = Inr xs \<longleftrightarrow> (\<exists>vs. py_iter (cfg_installed_artifacts cfg) = Inr vs \<and>
     list_all2 (built_from (rx_artifact_fields rx) (rx_new_artifact rx)) vs xs)"
  by (auto simp: registration_artifacts_def and_then_Inr_iff build_each_iff)

lemma extra_merged:
  "dict_wf (cfg_extra_capabilities cfg) \<Longrightarrow> dget (registration_extra cfg) k =
     (case dget (cfg_extra_capabilities cfg) k of Some v \<Rightarrow> Some v
      | None \<Rightarrow> if k = ''websockets'' then Some (PBool (cfg_enable_websockets cfg)) else None)"
  by (simp add: registration_extra_def dget_dmerge dget_rev split: option.split)

lemma registration_built:
  assumes "create_registration_payload rx t w = (w', Inr reg)"
  obtains ds props arts where "registration_devices rx (w_config w) = Inr ds" and "rg_devices reg = ds"
    and "registration_properties (w_config w) = Inr props" and "rg_properties reg = props"
    and "registration_artifacts rx (w_config w) = Inr arts" and "rg_installed_artifacts reg = arts"
proof -
  from assms obtain ds props where dp: "registration_devices rx (w_config w) = Inr ds"
    "registration_properties (w_config w) = Inr props"
    by (cases "registration_devices rx (w_config w)"; cases "registration_properties (w_config w)")
      (auto simp: create_registration_payload_def Let_def)
  moreover from assms dp obtain arts where "registration_artifacts rx (w_config w) = Inr arts"
    by (cases "registration_artifacts rx (w_config w)") (auto simp: create_registration_payload_def Let_def)
  ultimately show thesis
    using assms that [of ds props arts] by (auto simp: create_registration_payload_def Let_def split: option.splits)
qed

text \<open>The fields copied from the configuration and the state.\<close>

lemma registration_copied:
  assumes "create_registration_payload rx t w = (w', Inr reg)"
  shows "rg_worker_id reg = cfg_worker_id (w_config w)" "rg_worker_type reg = cfg_worker_type (w_config w)"
    "rg_installed_software reg = cfg_installed_software (w_config w)"
    "rg_hostname reg = cfg_hostname (w_config w)" "rg_ip_address reg = cfg_ip_address (w_config w)"
    "rg_cost_per_skill reg = cfg_cost_per_skill (w_config w)" "rg_timestamp reg = t"
    "rg_s3_config_hash reg = rx_config_hash rx (cfg_s3_endpoint_url (w_config w)) (cfg_s3_access_key (w_config w))
      (cfg_s3_default_bucket (w_config w))"
    "rg_extra reg = registration_extra (w_config w)"
  using assms by (auto simp: create_registration_payload_def and_then_Inr_iff Let_def split: option.splits sum.splits)

lemma registration_skills:
  assumes "create_registration_payload rx t w = (w', Inr reg)"
  shows "rg_supported_skills reg = map (h_info \<circ> snd) (w_handlers w)"
    "rg_available_skills reg = list_or_none (map si_name (t_available (get_current_state w)))"
    "rg_hot_skills reg = list_or_none (map si_name (t_hot (get_current_state w)))"
    "rg_skills_hash reg = calculate_contract_hash rx (w_config w) (rg_supported_skills reg)"
    "w_last_synced_hash w' = Some (rg_skills_hash reg)"
    "rg_security reg = sign_payload_if_needed rx (w_config w) (RegistrationMsg (reg\<lparr>rg_security := None\<rparr>)) [] None"
proof -
  have sup: "t_supported (get_current_state w) = map (h_info \<circ> snd) (w_handlers w)"
    by (simp add: get_current_state_def Let_def)
  show "rg_supported_skills reg = map (h_info \<circ> snd) (w_handlers w)"
    "rg_available_skills reg = list_or_none (map si_name (t_available (get_current_state w)))"
    "rg_hot_skills reg = list_or_none (map si_name (t_hot (get_current_state w)))"
    "rg_skills_hash reg = calculate_contract_hash rx (w_config w) (rg_supported_skills reg)"
    "w_last_synced_hash w' = Some (rg_skills_hash reg)"
    "rg_security reg = sign_payload_if_needed rx (w_config w) (RegistrationMsg (reg\<lparr>rg_security := None\<rparr>)) [] None"
    using assms sup
    by (auto simp: create_registration_payload_def and_then_Inr_iff Let_def split: option.splits sum.splits)
qed

section \<open>Fixtures\<close>

definition sample_attempt :: "pyval result \<Rightarrow> reg_attempt" where
  "sample_attempt r = \<lparr>at_timestamp = 100, at_respond = (\<lambda>reg. r), at_during = (\<lambda>w. w), at_now = 100,
     at_date_of = (\<lambda>v. None), at_waiting = (\<lambda>w. w)\<rparr>"

definition refused_attempt :: reg_attempt where
  "refused_attempt = sample_attempt (Inl (RxonNetworkError ''connection refused''))"

definition accepted_attempt :: reg_attempt where
  "accepted_attempt = sample_attempt (Inr (PDict [(''status'', PStr ''ok'')]))"

lemma sample_attempts:
  "rejects refused_attempt" "no_retry_after refused_attempt" "calm refused_attempt"
  "accepts accepted_attempt" "calm accepted_attempt"
  by (simp_all add: refused_attempt_def accepted_attempt_def sample_attempt_def rejects_def no_retry_after_def
      accepts_def calm_def keeps_running_def is_exception_def)

lemma sample_buildable: "buildable sample_rxon (w_config sample_worker)"
  by code_simp

section \<open>Properties\<close>

text \<open>
  C15: Registration reaches an orchestrator that comes up: after any number of rejected attempts the
  first accepted one registers the worker, with one wait per rejection; as long as no rejection
  carries a \<open>Retry-After\<close>, every wait lies between the smaller of initial and maximum delay and the
  larger of maximum delay and rate-limit floor.
\<close>

theorem registration_succeeds:
  assumes "list_all rejects fails" and "accepts good" and "buildable rx (w_config w)" and "\<not> w_shutdown w"
    and "cfg_registration_retry_initial_delay (w_config w) = Fin i"
    and "cfg_registration_retry_max_delay (w_config w) = Fin m"
    and "cfg_rate_limit_backoff_floor (w_config w) = Fin fl"
  shows "\<exists>w' ds. register_client_with_retry rx (fails @ good # rest) w = (w', ds, RegDone) \<and>
    w_registered w' \<and> length ds = length fails \<and>
    (list_all no_retry_after fails \<longrightarrow> list_all (delay_between (min i m) (max m fl)) ds)"
proof -
  obtain w' ds where run: "register_client_with_retry rx (fails @ good # rest) w = (w', ds, RegDone)"
    "w_registered w'" "length ds = length fails"
    using register_loop_succeeds [OF assms(1-4)] unfolding register_client_with_retry_def by blast
  moreover have "list_all (delay_between (min i m) (max m fl)) ds" if "list_all no_retry_after fails"
  proof -
    have "list_all (\<lambda>a. rejects a \<and> no_retry_after a) fails" using assms(1) that by (simp add: list_all_iff)
    from register_loop_delays [OF this assms(2-7), of i rest] run(1) assms(5)
    show ?thesis by (simp add: register_client_with_retry_def)
  qed
  ultimately show ?thesis by blast
qed

theorem registration_succeeds_witness:
  "\<exists>w' ds. register_client_with_retry sample_rxon [refused_attempt, refused_attempt, accepted_attempt] sample_worker =
     (w', ds, RegDone) \<and> w_registered w' \<and> length ds = 2 \<and> list_all (delay_between 1 60) ds"
proof -
  have cfg: "cfg_registration_retry_initial_delay (w_config sample_worker) = Fin 1"
    "cfg_registration_retry_max_delay (w_config sample_worker) = Fin 60"
    "cfg_rate_limit_backoff_floor (w_config sample_worker) = Fin 30" "\<not> w_shutdown sample_worker"
    by (simp_all add: sample_worker_def sample_config_def)
  have "list_all rejects [refused_attempt, refused_attempt]" by (simp add: sample_attempts)
  from registration_succeeds [OF this sample_attempts(4) sample_buildable cfg(4,1,2,3), of "[]"]
  show ?thesis by (simp add: sample_attempts numeral_2_eq_2)
qed

text \<open>
  C17: A configuration from which no payload can be built never registers: with a device entry that
  is not an object, or one the protocol class refuses, every attempt fails before it reaches the
  orchestrator, whose answers make no difference, and the loop goes on to the next attempt after a
  wait, however many there are, instead of reporting the configuration.
\<close>

theorem unbuildable_never_registers:
  assumes "\<not> buildable rx (w_config w)" and "list_all calm as" and "tame_classes rx" and "\<not> w_shutdown w"
  shows "\<exists>w' ds. register_client_with_retry rx as w = (w', ds, RegPending) \<and> length ds = length as \<and>
    register_client_with_retry rx (map (\<lambda>a. a\<lparr>at_respond := respond\<rparr>) as) w = (w', ds, RegPending)"
  using unbuildable_loop [OF assms, of "cfg_registration_retry_initial_delay (w_config w)" respond]
  by (cases "register_client_with_retry rx as w") (auto simp: register_client_with_retry_def)

definition broken_devices :: worker where
  "broken_devices = sample_worker\<lparr>w_config := sample_config\<lparr>cfg_resources := [(''devices'', PList [PStr ''gpu''])]\<rparr>\<rparr>"

theorem unbuildable_never_registers_witness:
  "\<exists>w' ds. register_client_with_retry sample_rxon [accepted_attempt, accepted_attempt] broken_devices = (w', ds, RegPending) \<and>
     length ds = 2"
proof -
  have "\<not> buildable sample_rxon (w_config broken_devices)" by code_simp
  moreover have "list_all calm [accepted_attempt, accepted_attempt]" by (simp add: sample_attempts)
  moreover have "tame_classes sample_rxon" by (simp add: tame_classes_def sample_rxon_def is_exception_def)
  moreover have "\<not> w_shutdown broken_devices" by (simp add: broken_devices_def sample_worker_def)
  ultimately obtain w' ds where
    "register_client_with_retry sample_rxon [accepted_attempt, accepted_attempt] broken_devices = (w', ds, RegPending)"
    "length ds = length [accepted_attempt, accepted_attempt]"
    using unbuildable_never_registers by blast
  then show ?thesis by (auto simp del: register_loop.simps)
qed

text \<open>
  C16: The payload announces the worker as it is. Identity, software, host, address, costs, the hash of
  the S3 configuration and the timestamp are the configured ones; the skills are the whole
  catalogue with its contract hash, which is also remembered as synchronised, and the names of the
  available and hot ones, if any; devices, if configured, and artifacts are one per configured
  entry, built from its known fields; the properties are the configured ones with \<open>cpu_cores\<close> and
  \<open>ram_gb\<close> added where missing, from the resources or the defaults; extra capabilities override the
  websocket flag; and the signature is one over the unsigned payload, just if a token is set.
\<close>

theorem registration_payload_faithful:
  assumes "create_registration_payload rx t w = (w', Inr reg)" and "dict_wf (cfg_extra_capabilities (w_config w))"
  shows "let cfg = w_config w; state = get_current_state w; devices = dget_or (cfg_resources cfg) ''devices'' PNone in
    rg_worker_id reg = cfg_worker_id cfg \<and> rg_worker_type reg = cfg_worker_type cfg \<and>
    rg_installed_software reg = cfg_installed_software cfg \<and> rg_hostname reg = cfg_hostname cfg \<and>
    rg_ip_address reg = cfg_ip_address cfg \<and> rg_cost_per_skill reg = cfg_cost_per_skill cfg \<and>
    rg_s3_config_hash reg = rx_config_hash rx (cfg_s3_endpoint_url cfg) (cfg_s3_access_key cfg) (cfg_s3_default_bucket cfg) \<and>
    rg_timestamp reg = t \<and>
    rg_supported_skills reg = map (h_info \<circ> snd) (w_handlers w) \<and>
    rg_available_skills reg = (if t_available state = [] then None else Some (map si_name (t_available state))) \<and>
    rg_hot_skills reg = (if t_hot state = [] then None else Some (map si_name (t_hot state))) \<and>
    rg_skills_hash reg = calculate_contract_hash rx cfg (rg_supported_skills reg) \<and>
    w_last_synced_hash w' = Some (rg_skills_hash reg) \<and>
    (if truthy devices
     then \<exists>vs ds. py_iter devices = Inr vs \<and> rg_devices reg = Some ds \<and>
       list_all2 (built_from (rx_device_fields rx) (rx_new_device rx)) vs ds
     else rg_devices reg = None) \<and>
    (\<exists>vs. py_iter (cfg_installed_artifacts cfg) = Inr vs \<and>
       list_all2 (built_from (rx_artifact_fields rx) (rx_new_artifact rx)) vs (rg_installed_artifacts reg)) \<and>
    dget (rg_properties reg) j = (case dget (configured_properties cfg) j of
        Some v \<Rightarrow> Some v
      | None \<Rightarrow> if j = ''cpu_cores'' then Some (dget_or (cfg_resources cfg) ''cpu_cores'' (PInt 1))
                else if j = ''ram_gb'' then Some (dget_or (cfg_resources cfg) ''ram_gb'' (PFloat (Fin 1)))
                else None) \<and>
    dget (rg_extra reg) k = (case dget (cfg_extra_capabilities cfg) k of
        Some v \<Rightarrow> Some v
      | None \<Rightarrow> if k = ''websockets'' then Some (PBool (cfg_enable_websockets cfg)) else None) \<and>
    rg_security reg = sign_payload_if_needed rx cfg (RegistrationMsg (reg\<lparr>rg_security := None\<rparr>)) [] None"
proof -
  obtain ds props arts where reg: "registration_devices rx (w_config w) = Inr ds" "rg_devices reg = ds"
    "registration_properties (w_config w) = Inr props" "rg_properties reg = props"
    "registration_artifacts rx (w_config w) = Inr arts" "rg_installed_artifacts reg = arts"
    by (rule registration_built [OF assms(1)])
  have devices: "if truthy (dget_or (cfg_resources (w_config w)) ''devices'' PNone)
    then \<exists>vs xs. py_iter (dget_or (cfg_resources (w_config w)) ''devices'' PNone) = Inr vs \<and> rg_devices reg = Some xs \<and>
      list_all2 (built_from (rx_device_fields rx) (rx_new_device rx)) vs xs
    else rg_devices reg = None"
    unfolding reg(2) by (rule devices_built [OF reg(1)])
  note built = properties_filled [OF reg(3), of j] reg(5) [unfolded artifacts_built]
  show ?thesis
    unfolding Let_def registration_copied [OF assms(1)] registration_skills(1-5) [OF assms(1)]
    by (intro conjI registration_skills(6) [OF assms(1)] devices)
      (use built reg(4,6) extra_merged [OF assms(2), of k] in \<open>simp_all add: list_or_none_def\<close>)
qed

theorem registration_payload_faithful_witness:
  "\<exists>w' reg. create_registration_payload sample_rxon 100 sample_worker = (w', Inr reg) \<and>
     dget (rg_properties reg) ''cpu_cores'' = Some (PInt 1) \<and> dget (rg_extra reg) ''websockets'' = Some (PBool False)"
proof -
  have "is_ok (snd (create_registration_payload sample_rxon 100 sample_worker))" by code_simp
  then obtain w' reg where reg: "create_registration_payload sample_rxon 100 sample_worker = (w', Inr reg)"
    by (cases "create_registration_payload sample_rxon 100 sample_worker") (auto simp: is_ok_iff)
  have "dict_wf (cfg_extra_capabilities (w_config sample_worker))"
    by (simp add: sample_worker_def sample_config_def dict_wf_def)
  from registration_payload_faithful [OF reg this, of "''cpu_cores''" "''websockets''"] reg show ?thesis
    by (simp add: Let_def sample_worker_def sample_config_def dget_or_def configured_properties_def)
qed

section \<open>The shared hash\<close>

text \<open>
  The remembered hash is one for all orchestrators and set before a registration is answered: a
  failed attempt to register with the second orchestrator makes the next heartbeat to the first
  leave out a catalogue it has never seen.
\<close>

theorem failed_registration_hides_catalogue:
  "let w = sample_worker\<lparr>w_last_synced_hash := Some ''old hash''\<rparr>;
       (w1, r) = try_register sample_rxon refused_attempt w in
     \<not> is_ok r \<and>
     (case create_heartbeat_payload sample_rxon (sample_hb 100 (Inr PNone)) w of
        Inr (hb, _) \<Rightarrow> hb_supported_skills hb \<noteq> None | Inl _ \<Rightarrow> False) \<and>
     (case create_heartbeat_payload sample_rxon (sample_hb 100 (Inr PNone)) w1 of
        Inr (hb, _) \<Rightarrow> hb_supported_skills hb = None | Inl _ \<Rightarrow> False)"
  by code_simp

end
