(* ===== verification/Result_Queue.thy ===== *)
theory Result_Queue
  imports Worker_State
begin

text \<open>
  \<open>_result_queue_worker\<close>: taking results off the queue in order and sending each with a bounded
  number of attempts. The queue is an \<open>asyncio.Queue\<close>: the items put and not yet taken, and the
  count of unfinished ones on which \<open>join\<close> waits.
\<close>

section \<open>One result\<close>

text \<open>
  The surroundings of one delivery: the answer to attempt \<open>k\<close> (whether the orchestrator accepted the
  result), whether the sleep after it is cancelled, and the clock and date reader for a
  \<open>Retry-After\<close>.
\<close>

record send_env =
  se_answer :: "nat \<Rightarrow> bool result"
  se_cancelled :: "nat \<Rightarrow> bool"
  se_now :: rat
  se_date_of :: "pyval \<Rightarrow> rat option"

text \<open>
  \<open>GaveUp\<close>: the last attempt failed and that is logged. \<open>RanOut\<close>: the loop ends after its last attempt
  without a word. \<open>Interrupted\<close>: an exception that is not an \<open>Exception\<close>.
\<close>

datatype delivery = Accepted | Ignored | GaveUp pyexn | RanOut | Interrupted pyexn

text \<open>The delay after a failed attempt: \<open>max(retry_after, delay)\<close> under a rate limit.\<close>

definition retry_sleep :: "send_env \<Rightarrow> pyexn \<Rightarrow> pyfloat \<Rightarrow> pyfloat" where
  "retry_sleep se e delay =
     (if is_rate_limit e then py_max (parse_retry_after (se_date_of se) (se_now se) (retry_after_of e)) delay
      else delay)"

text \<open>
  \<open>for attempt in range(retries)\<close> from attempt \<open>k\<close> on, with \<open>left\<close> attempts left: the outcome and the
  sleeps begun.
\<close>

fun deliver_from :: "send_env \<Rightarrow> nat \<Rightarrow> nat \<Rightarrow> pyfloat \<Rightarrow> delivery \<times> pyfloat list" where
  "deliver_from se k 0 delay = (RanOut, [])"
| "deliver_from se k (Suc left) delay =
     (case se_answer se k of
        Inr accepted \<Rightarrow> (if accepted then Accepted else Ignored, [])
      | Inl e \<Rightarrow>
          if \<not> is_exception e then (Interrupted e, [])
          else if \<not> is_rate_limit e \<and> left = 0 then (GaveUp e, [])
          else (let sleep_time = retry_sleep se e delay
                in if se_cancelled se k then (Interrupted CancelledError, [sleep_time])
                   else (case deliver_from se (Suc k) left (delay * Fin 2) of
                           (d, sleeps) \<Rightarrow> (d, sleep_time # sleeps))))"

definition deliver_result :: "worker_config \<Rightarrow> send_env \<Rightarrow> delivery \<times> pyfloat list" where
  "deliver_result cfg se = deliver_from se 0 (nat (cfg_result_max_retries cfg)) (cfg_result_retry_initial_delay cfg)"

section \<open>The queue\<close>

type_synonym item = "client \<times> task_result"

record queue =
  q_items :: "item list"
  q_unfinished :: nat

definition queue_of :: "worker \<Rightarrow> queue" where
  "queue_of w = \<lparr>q_items = w_result_queue w, q_unfinished = length (w_result_queue w)\<rparr>"

definition put_items :: "item list \<Rightarrow> queue \<Rightarrow> queue" where
  "put_items xs q = q\<lparr>q_items := q_items q @ xs, q_unfinished := q_unfinished q + length xs\<rparr>"

definition task_done :: "queue \<Rightarrow> queue" where
  "task_done q = q\<lparr>q_unfinished := q_unfinished q - 1\<rparr>"

definition joined :: "queue \<Rightarrow> bool" where
  "joined q = (q_unfinished q = 0)"

text \<open>
  The worker loop over its passes. A pass on an empty queue waits in \<open>get\<close> for the results finishing
  tasks put there, or is cancelled there; otherwise it delivers the first item while others
  arrive. \<open>task_done\<close> is called however the delivery ends.
\<close>

record pass =
  pa_send :: send_env
  pa_arriving :: "item list"
  pa_cancelled :: bool

datatype queue_end = Serving | Stopped | Broken pyexn

fun result_queue_worker :: "worker_config \<Rightarrow> pass list \<Rightarrow> queue \<Rightarrow> queue \<times> (item \<times> delivery) list \<times> queue_end" where
  "result_queue_worker cfg [] q = (q, [], Serving)"
| "result_queue_worker cfg (p # ps) q =
     (case q_items q of
        [] \<Rightarrow> if pa_cancelled p then (q, [], Stopped)
              else result_queue_worker cfg ps (put_items (pa_arriving p) q)
      | it # items \<Rightarrow>
          (let q = task_done (put_items (pa_arriving p) (q\<lparr>q_items := items\<rparr>)); d = fst (deliver_result cfg (pa_send p))
           in case d of
                Interrupted e \<Rightarrow> (q, [(it, d)], Broken e)
              | _ \<Rightarrow> (case result_queue_worker cfg ps q of
                        (q, done, e) \<Rightarrow> (q, (it, d) # done, e))))"

text \<open>
  Cancelling the worker's task throws \<open>CancelledError\<close> into whatever it awaits: \<open>get\<close> on an empty
  queue, otherwise the delivery in progress, where attempt \<open>k\<close> and any later one ends with it. A
  delivery that awaits nothing goes on to the next item, so a pass per item and one more are enough
  (\<open>cancelled_worker_ends\<close>).
\<close>

definition cancelled_pass :: "send_env \<Rightarrow> nat \<Rightarrow> pass" where
  "cancelled_pass se k =
     \<lparr>pa_send = se\<lparr>se_answer := (\<lambda>i. if i < k then se_answer se i else Inl CancelledError)\<rparr>,
      pa_arriving = [], pa_cancelled = True\<rparr>"

definition cancel_queue_worker :: "worker_config \<Rightarrow> send_env \<Rightarrow> nat \<Rightarrow> queue \<Rightarrow> queue \<times> (item \<times> delivery) list \<times> queue_end" where
  "cancel_queue_worker cfg se k q = result_queue_worker cfg (replicate (Suc (length (q_items q))) (cancelled_pass se k)) q"

text \<open>What awaiting the worker's task gives.\<close>

definition awaited :: "queue_end \<Rightarrow> unit result" where
  "awaited e = (case e of Broken x \<Rightarrow> Inl x | _ \<Rightarrow> Inr ())"

section \<open>Lemmas\<close>

text \<open>Nothing interrupts the delivery: only exceptions come back, and no sleep is cancelled.\<close>

definition undisturbed :: "send_env \<Rightarrow> bool" where
  "undisturbed se = (\<forall>k. \<not> se_cancelled se k \<and> (case se_answer se k of Inl e \<Rightarrow> is_exception e | Inr _ \<Rightarrow> True))"

lemma undisturbed_simps:
  "undisturbed se \<Longrightarrow> \<not> se_cancelled se k" "undisturbed se \<Longrightarrow> se_answer se k = Inl e \<Longrightarrow> is_exception e"
  by (auto simp: undisturbed_def dest: spec [of _ k])

text \<open>What the delivery comes to, as a specification: the first attempt that is answered decides.\<close>

definition verdict :: "bool \<Rightarrow> delivery" where
  "verdict accepted = (if accepted then Accepted else Ignored)"

lemma retry_step:
  assumes "undisturbed se" and "se_answer se k = Inl e" and "is_rate_limit e \<or> left \<noteq> 0"
  shows "deliver_from se k (Suc left) delay =
    (fst (deliver_from se (Suc k) left (delay * Fin 2)),
     retry_sleep se e delay # snd (deliver_from se (Suc k) left (delay * Fin 2)))"
  using assms undisturbed_simps [OF assms(1), of k] by (simp add: Let_def case_prod_beta)

lemma deliver_first_answer:
  assumes "undisturbed se" and "j < left" and "\<And>i. i < j \<Longrightarrow> \<not> is_ok (se_answer se (k + i))"
    and "se_answer se (k + j) = Inr a"
  shows "fst (deliver_from se k left delay) = verdict a \<and> length (snd (deliver_from se k left delay)) = j"
  using assms(2-4)
proof (induction left arbitrary: j k delay)
  case (Suc left)
  show ?case
  proof (cases j)
    case 0
    with Suc.prems show ?thesis by (simp add: verdict_def)
  next
    case (Suc i)
    with Suc.prems(2) [of 0] obtain e where e: "se_answer se k = Inl e" by (cases "se_answer se k") auto
    have "left \<noteq> 0" using Suc Suc.prems(1) by simp
    moreover have "fst (deliver_from se (Suc k) left (delay * Fin 2)) = verdict a \<and>
        length (snd (deliver_from se (Suc k) left (delay * Fin 2))) = i"
      by (rule Suc.IH) (use Suc Suc.prems(1,3) Suc.prems(2) [of "Suc _"] in auto)
    ultimately show ?thesis using retry_step [OF assms(1) e, of left delay] Suc by simp
  qed
qed simp

lemma deliver_no_answer:
  assumes "undisturbed se" and "\<And>i. i < left \<Longrightarrow> \<not> is_ok (se_answer se (k + i))" and "0 < left"
  shows "\<exists>e. se_answer se (k + left - 1) = Inl e \<and>
    fst (deliver_from se k left delay) = (if is_rate_limit e then RanOut else GaveUp e) \<and>
    length (snd (deliver_from se k left delay)) = (if is_rate_limit e then left else left - 1)"
  using assms(2,3)
proof (induction left arbitrary: k delay)
  case (Suc left)
  from Suc.prems(1) [of 0] obtain e where e: "se_answer se k = Inl e" by (cases "se_answer se k") auto
  show ?case
  proof (cases "left = 0")
    case True
    then show ?thesis using e undisturbed_simps [OF assms(1), of k] by simp
  next
    case False
    have "\<exists>e. se_answer se (Suc k + left - 1) = Inl e \<and>
        fst (deliver_from se (Suc k) left (delay * Fin 2)) = (if is_rate_limit e then RanOut else GaveUp e) \<and>
        length (snd (deliver_from se (Suc k) left (delay * Fin 2))) = (if is_rate_limit e then left else left - 1)"
      by (rule Suc.IH) (use Suc.prems(1) [of "Suc _"] False in auto)
    then show ?thesis using retry_step [OF assms(1) e, of left delay] False by auto
  qed
qed simp

text \<open>Without rate limits the sleeps double from the initial delay on.\<close>

lemma deliver_sleeps:
  assumes "undisturbed se" and "\<And>i e. se_answer se i = Inl e \<Longrightarrow> \<not> is_rate_limit e"
    and "j < length (snd (deliver_from se k left (Fin d)))"
  shows "snd (deliver_from se k left (Fin d)) ! j = Fin (2 ^ j * d)"
  using assms(3)
proof (induction left arbitrary: k d j)
  case (Suc left)
  show ?case
  proof (cases "se_answer se k")
    case (Inl e)
    note e = assms(2) [OF Inl] undisturbed_simps [OF assms(1), of k]
    have "left \<noteq> 0" using Suc.prems Inl e by (intro notI) simp
    then have step: "deliver_from se k (Suc left) (Fin d) =
      (fst (deliver_from se (Suc k) left (Fin (d * 2))), Fin d # snd (deliver_from se (Suc k) left (Fin (d * 2))))"
      using retry_step [OF assms(1) Inl, of left "Fin d"] e(1) by (simp add: retry_sleep_def)
    show ?thesis
    proof (cases j)
      case 0
      then show ?thesis using step by simp
    next
      case (Suc i)
      then have "i < length (snd (deliver_from se (Suc k) left (Fin (d * 2))))" using Suc.prems step by simp
      from Suc.IH [OF this] show ?thesis using step Suc by simp
    qed
  qed (use Suc.prems in simp)
qed simp

text \<open>The counter of unfinished items is the length of the queue between two passes.\<close>

definition counter_exact :: "queue \<Rightarrow> bool" where
  "counter_exact q = (q_unfinished q = length (q_items q))"

lemma counter_put: "counter_exact q \<Longrightarrow> counter_exact (put_items xs q)"
  by (simp add: counter_exact_def put_items_def)

lemma counter_taken:
  "counter_exact q \<Longrightarrow> q_items q = it # items \<Longrightarrow> counter_exact (task_done (put_items xs (q\<lparr>q_items := items\<rparr>)))"
  by (simp add: counter_exact_def put_items_def task_done_def)

lemma not_interrupted:
  assumes "undisturbed se"
  shows "fst (deliver_from se k left delay) \<noteq> Interrupted e"
  using assms
proof (induction left arbitrary: k delay)
  case (Suc left)
  then show ?case
    by (cases "se_answer se k") (auto simp: Let_def case_prod_beta dest: undisturbed_simps)
qed simp

definition quiet_pass :: "pass \<Rightarrow> bool" where
  "quiet_pass p = (undisturbed (pa_send p) \<and> \<not> pa_cancelled p)"

text \<open>A quiet pass on a non-empty queue delivers the first item.\<close>

lemma quiet_step:
  assumes "quiet_pass p" and "q_items q = it # items"
  shows "result_queue_worker cfg (p # ps) q =
    (let q' = task_done (put_items (pa_arriving p) (q\<lparr>q_items := items\<rparr>)); r = result_queue_worker cfg ps q'
     in (fst r, (it, fst (deliver_result cfg (pa_send p))) # fst (snd r), snd (snd r)))"
proof -
  have never: "fst (deliver_result cfg (pa_send p)) \<noteq> Interrupted e" for e
    using assms(1) not_interrupted by (simp add: quiet_pass_def deliver_result_def)
  show ?thesis
  proof (cases "fst (deliver_result cfg (pa_send p))")
    case (Interrupted e)
    with never show ?thesis by blast
  qed (use assms(2) in \<open>simp_all add: Let_def case_prod_beta\<close>)
qed

lemma quiet_passes:
  assumes "list_all quiet_pass ps" and "counter_exact q"
  shows "let r = result_queue_worker cfg ps q in
    map fst (fst (snd r)) @ q_items (fst r) = q_items q @ concat (map pa_arriving ps) \<and>
    counter_exact (fst r) \<and> snd (snd r) = Serving"
  using assms
proof (induction ps arbitrary: q)
  case (Cons p ps)
  from Cons.prems have quiet: "quiet_pass p" "list_all quiet_pass ps" by simp_all
  show ?case
  proof (cases "q_items q")
    case Nil
    have "\<not> pa_cancelled p" using quiet(1) by (simp add: quiet_pass_def)
    with Cons.IH [OF quiet(2) counter_put [OF Cons.prems(2)]] Nil show ?thesis
      by (simp add: Let_def put_items_def)
  next
    case (Cons it items)
    with Cons.IH [OF quiet(2) counter_taken [OF Cons.prems(2) Cons], of "pa_arriving p"]
      quiet_step [OF quiet(1) Cons, of cfg ps]
    show ?thesis by (simp add: Let_def task_done_def put_items_def)
  qed
qed simp

lemma quiet_drains:
  assumes "list_all quiet_pass ps" and "list_all (\<lambda>p. pa_arriving p = []) ps" and "length (q_items q) \<le> length ps"
  shows "q_items (fst (result_queue_worker cfg ps q)) = []"
  using assms
proof (induction ps arbitrary: q)
  case (Cons p ps)
  show ?case
  proof (cases "q_items q")
    case Nil
    with Cons show ?thesis by (simp add: quiet_pass_def put_items_def)
  next
    case (Cons it items)
    have "q_items (fst (result_queue_worker cfg ps (task_done (put_items (pa_arriving p) (q\<lparr>q_items := items\<rparr>))))) = []"
      by (rule Cons.IH) (use Cons.prems Cons in \<open>simp_all add: task_done_def put_items_def\<close>)
    with quiet_step [of p q it items cfg ps] Cons Cons.prems(1) show ?thesis by (simp add: Let_def)
  qed
qed simp

text \<open>The cancelled worker has come to an end, whatever the queue held.\<close>

lemma cancelled_worker_runs:
  "length (q_items q) < n \<Longrightarrow> snd (snd (result_queue_worker cfg (replicate n (cancelled_pass se k)) q)) \<noteq> Serving"
proof (induction n arbitrary: q)
  case (Suc n)
  show ?case
  proof (cases "q_items q")
    case Nil
    then show ?thesis by (simp add: cancelled_pass_def)
  next
    case (Cons it items)
    with Suc.IH [of "task_done (put_items [] (q\<lparr>q_items := items\<rparr>))"] Suc.prems show ?thesis
      by (simp add: Let_def case_prod_beta task_done_def put_items_def cancelled_pass_def split: delivery.split)
  qed
qed simp

lemma cancelled_worker_ends: "snd (snd (cancel_queue_worker cfg se k q)) \<noteq> Serving"
  unfolding cancel_queue_worker_def by (rule cancelled_worker_runs) simp

text \<open>
  A delivery awaits the answer to attempt \<open>k\<close>: there is such an attempt, and all before it failed and
  were slept off.
\<close>

definition awaits_attempt :: "worker_config \<Rightarrow> send_env \<Rightarrow> nat \<Rightarrow> bool" where
  "awaits_attempt cfg se k = (k < nat (cfg_result_max_retries cfg) \<and>
     list_all (\<lambda>i. \<not> se_cancelled se i \<and> (case se_answer se i of Inl e \<Rightarrow> is_exception e | Inr _ \<Rightarrow> False)) [0..<k])"

lemma cancelled_delivery:
  assumes "j \<le> k" and "k < n"
    and "list_all (\<lambda>i. \<not> se_cancelled se i \<and> (case se_answer se i of Inl e \<Rightarrow> is_exception e | Inr _ \<Rightarrow> False)) [0..<k]"
  shows "fst (deliver_from (pa_send (cancelled_pass se k)) j (n - j) delay) = Interrupted CancelledError"
  using assms(1)
proof (induction "k - j" arbitrary: j delay)
  case 0
  then have "j = k" "n - j = Suc (n - j - 1)" using assms(2) by auto
  have "fst (deliver_from (pa_send (cancelled_pass se k)) k (Suc m) delay) = Interrupted CancelledError" for m
    by (simp add: cancelled_pass_def is_exception_def)
  with \<open>j = k\<close> \<open>n - j = Suc (n - j - 1)\<close> show ?case by metis
next
  case (Suc d)
  then have j: "j < k" "n - j = Suc (n - Suc j)" "n - Suc j \<noteq> 0" using assms(2) by auto
  have "\<not> se_cancelled se j" "case se_answer se j of Inl e \<Rightarrow> is_exception e | Inr _ \<Rightarrow> False"
    using assms(3) j(1) unfolding list_all_iff by simp_all
  then obtain e where e: "se_answer se j = Inl e" "is_exception e" "\<not> se_cancelled se j"
    by (cases "se_answer se j") auto
  have "fst (deliver_from (pa_send (cancelled_pass se k)) (Suc j) (n - Suc j) (delay * Fin 2)) = Interrupted CancelledError"
    by (rule Suc.hyps(1)) (use Suc.hyps(2) j(1) in auto)
  then show ?case using e j by (simp add: cancelled_pass_def Let_def case_prod_beta)
qed

text \<open>Where the cancellation finds the worker decides how it ends.\<close>

lemma cancelled_in_get:
  "q_items q = [] \<Longrightarrow> cancel_queue_worker cfg se k q = (q, [], Stopped)"
  by (simp add: cancel_queue_worker_def cancelled_pass_def)

lemma cancelled_in_delivery:
  assumes "q_items q = it # items" and "awaits_attempt cfg se k"
  shows "cancel_queue_worker cfg se k q =
    (task_done (q\<lparr>q_items := items\<rparr>), [(it, Interrupted CancelledError)], Broken CancelledError)"
proof -
  have "fst (deliver_result cfg (pa_send (cancelled_pass se k))) = Interrupted CancelledError"
    using cancelled_delivery [of 0 k "nat (cfg_result_max_retries cfg)"] assms(2)
    by (simp add: deliver_result_def awaits_attempt_def)
  then show ?thesis
    by (simp add: cancel_queue_worker_def assms(1) Let_def) (simp add: cancelled_pass_def put_items_def)
qed

lemma awaited_simps [simp]:
  "awaited (Broken e) = Inl e" "awaited Stopped = Inr ()" "awaited Serving = Inr ()"
  by (simp_all add: awaited_def)

section \<open>A specification of delivery\<close>

text \<open>
  What delivery promises, without the loop: among the first \<open>n\<close> attempts the first one that is
  answered decides; if none is, the error of the last one is reported, a rate limit silently.
\<close>

definition delivery_spec :: "nat \<Rightarrow> (nat \<Rightarrow> bool result) \<Rightarrow> delivery" where
  "delivery_spec n answers =
     (case List.find (\<lambda>j. is_ok (answers j)) [0..<n] of
        Some j \<Rightarrow> (case answers j of Inr a \<Rightarrow> verdict a | Inl _ \<Rightarrow> RanOut)
      | None \<Rightarrow> if n = 0 then RanOut
                else (case answers (n - 1) of Inl e \<Rightarrow> if is_rate_limit e then RanOut else GaveUp e | Inr _ \<Rightarrow> RanOut))"

text \<open>How often it sleeps: after every attempt that is not the last word.\<close>

definition sleeps_spec :: "nat \<Rightarrow> (nat \<Rightarrow> bool result) \<Rightarrow> nat" where
  "sleeps_spec n answers =
     (case List.find (\<lambda>j. is_ok (answers j)) [0..<n] of
        Some j \<Rightarrow> j
      | None \<Rightarrow> if n = 0 then 0
                else (case answers (n - 1) of Inl e \<Rightarrow> if is_rate_limit e then n else n - 1 | Inr _ \<Rightarrow> 0))"

section \<open>Fixtures\<close>

definition sample_result :: "string \<Rightarrow> task_result" where
  "sample_result t = \<lparr>tr_job_id = ''job'', tr_task_id = t, tr_worker_id = ''w1'', tr_origin_worker_id = None,
     tr_status = PStr ''success'', tr_data = None, tr_error = None, tr_data_metadata = None, tr_security = None,
     tr_metadata = PNone, tr_timestamp = 100, tr_costs = None\<rparr>"

text \<open>Two failures, then an answer.\<close>

definition flaky :: send_env where
  "flaky = \<lparr>se_answer = (\<lambda>k. if k < 2 then Inl (RxonNetworkError ''timeout'') else Inr True),
     se_cancelled = (\<lambda>k. False), se_now = 100, se_date_of = (\<lambda>v. None)\<rparr>"

lemma flaky_undisturbed: "undisturbed flaky"
  by (simp add: undisturbed_def flaky_def is_exception_def)

definition flaky_pass :: pass where
  "flaky_pass = \<lparr>pa_send = flaky, pa_arriving = [], pa_cancelled = False\<rparr>"

definition two_results :: worker where
  "two_results = sample_worker\<lparr>w_result_queue := [(1, sample_result ''a''), (2, sample_result ''b'')]\<rparr>"

section \<open>Properties\<close>

text \<open>
  C13: The retry loop implements its specification: of at most \<open>RESULT_MAX_RETRIES\<close> attempts the first
  one that is answered decides whether the result counts as accepted or ignored, and when none is
  the error of the last is the outcome. Without rate limits the sleeps in between are the initial
  delay, twice, four times, and so on.
\<close>

theorem delivery_implements_spec:
  assumes "undisturbed se"
  shows "let n = nat (cfg_result_max_retries cfg); (outcome, sleeps) = deliver_result cfg se in
    outcome = delivery_spec n (se_answer se) \<and> length sleeps = sleeps_spec n (se_answer se) \<and>
    (cfg_result_retry_initial_delay cfg = Fin d \<and> (\<forall>i e. se_answer se i = Inl e \<longrightarrow> \<not> is_rate_limit e) \<longrightarrow>
       (\<forall>j < length sleeps. sleeps ! j = Fin (2 ^ j * d)))"
proof -
  let ?n = "nat (cfg_result_max_retries cfg)" and ?d = "cfg_result_retry_initial_delay cfg"
  have out: "fst (deliver_from se 0 ?n ?d) = delivery_spec ?n (se_answer se) \<and>
      length (snd (deliver_from se 0 ?n ?d)) = sleeps_spec ?n (se_answer se)"
  proof (cases "List.find (\<lambda>j. is_ok (se_answer se j)) [0..<?n]")
    case (Some j)
    then have j: "j < ?n" "is_ok (se_answer se j)" "\<And>i. i < j \<Longrightarrow> \<not> is_ok (se_answer se i)"
      by (auto simp: find_Some_iff)
    then obtain a where a: "se_answer se j = Inr a" by (cases "se_answer se j") auto
    from deliver_first_answer [OF assms j(1), of 0 a ?d] j(3) a Some show ?thesis
      by (simp add: delivery_spec_def sleeps_spec_def)
  next
    case None
    then have none: "\<And>i. i < ?n \<Longrightarrow> \<not> is_ok (se_answer se i)" by (simp add: find_None_iff)
    show ?thesis
    proof (cases "?n = 0")
      case True
      then show ?thesis by (simp add: delivery_spec_def sleeps_spec_def)
    next
      case False
      then have "0 < ?n" by simp
      from deliver_no_answer [OF assms _ this, of 0 ?d] none obtain e where "se_answer se (?n - 1) = Inl e"
        "fst (deliver_from se 0 ?n ?d) = (if is_rate_limit e then RanOut else GaveUp e)"
        "length (snd (deliver_from se 0 ?n ?d)) = (if is_rate_limit e then ?n else ?n - 1)" by auto
      with None False show ?thesis by (simp add: delivery_spec_def sleeps_spec_def)
    qed
  qed
  moreover have "snd (deliver_from se 0 ?n (Fin d)) ! j = Fin (2 ^ j * d)"
    if "\<forall>i e. se_answer se i = Inl e \<longrightarrow> \<not> is_rate_limit e" "j < length (snd (deliver_from se 0 ?n (Fin d)))" for j
    using deliver_sleeps [OF assms _ that(2)] that(1) by blast
  ultimately show ?thesis by (simp add: deliver_result_def Let_def case_prod_beta)
qed

theorem delivery_implements_spec_witness:
  "fst (deliver_result sample_config flaky) = Accepted \<and> length (snd (deliver_result sample_config flaky)) = 2"
proof -
  have "sleeps_spec 5 (se_answer flaky) = 2" "delivery_spec 5 (se_answer flaky) = Accepted" by code_simp+
  with delivery_implements_spec [OF flaky_undisturbed, of sample_config] show ?thesis
    by (simp add: sample_config_def Let_def case_prod_beta)
qed

text \<open>
  C14: No result is lost or overtaken while nothing cancels the queue worker: the results handled so
  far followed by those still queued are the original queue followed by the arrivals, in order,
  the counter \<open>join\<close> waits on is the length of the queue, and when no more results arrive as many
  passes as there are results end with \<open>join\<close> returning, whatever the orchestrators answer.
\<close>

theorem queue_drained_in_order:
  assumes "list_all quiet_pass ps"
  shows "let (q, done, e) = result_queue_worker cfg ps (queue_of w) in
    map fst done @ q_items q = w_result_queue w @ concat (map pa_arriving ps) \<and>
    q_unfinished q = length (q_items q) \<and> e = Serving \<and>
    (list_all (\<lambda>p. pa_arriving p = []) ps \<and> length (w_result_queue w) \<le> length ps \<longrightarrow>
       joined q \<and> map fst done = w_result_queue w)"
proof -
  let ?r = "result_queue_worker cfg ps (queue_of w)"
  have "counter_exact (queue_of w)" by (simp add: counter_exact_def queue_of_def)
  from quiet_passes [OF assms this, of cfg] have inv: "map fst (fst (snd ?r)) @ q_items (fst ?r) =
      w_result_queue w @ concat (map pa_arriving ps)" "q_unfinished (fst ?r) = length (q_items (fst ?r))"
    "snd (snd ?r) = Serving"
    by (simp_all add: Let_def counter_exact_def queue_of_def)
  moreover have "joined (fst ?r) \<and> map fst (fst (snd ?r)) = w_result_queue w"
    if no: "list_all (\<lambda>p. pa_arriving p = []) ps" and len: "length (w_result_queue w) \<le> length ps"
  proof -
    have "q_items (fst ?r) = []" using quiet_drains [OF assms no, of "queue_of w" cfg] len by (simp add: queue_of_def)
    moreover have "concat (map pa_arriving ps) = []" using no by (simp add: list_all_iff)
    ultimately show ?thesis using inv by (simp add: joined_def)
  qed
  ultimately show ?thesis by (simp add: case_prod_beta)
qed

theorem queue_drained_in_order_witness:
  "let (q, done, e) = result_queue_worker sample_config [flaky_pass, flaky_pass] (queue_of two_results) in
     joined q \<and> map (tr_task_id \<circ> snd \<circ> fst) done = [''a'', ''b'']"
proof -
  have "list_all quiet_pass [flaky_pass, flaky_pass]"
    by (simp add: quiet_pass_def flaky_pass_def flaky_undisturbed)
  from queue_drained_in_order [OF this, of sample_config two_results]
  have "let (q, done, e) = result_queue_worker sample_config [flaky_pass, flaky_pass] (queue_of two_results) in
      joined q \<and> map fst done = [(1, sample_result ''a''), (2, sample_result ''b'')]"
    by (simp add: two_results_def flaky_pass_def case_prod_beta del: result_queue_worker.simps)
  then show ?thesis
    by (simp add: case_prod_beta sample_result_def flip: map_map del: result_queue_worker.simps)
qed

section \<open>Results dropped without a word\<close>

text \<open>
  A rate limit on the last attempt is waited for and then forgotten: the result is dropped and,
  unlike after any other error, nothing is logged about giving up. With no retries configured, no
  result is ever sent.
\<close>

theorem rate_limited_result_dropped:
  "deliver_result (sample_config\<lparr>cfg_result_max_retries := 2\<rparr>)
     (flaky\<lparr>se_answer := (\<lambda>k. Inl (RxonRateLimitError ''429'' PNone))\<rparr>) = (RanOut, [Fin 1, Fin 2])"
  by code_simp

theorem no_retries_no_result:
  "cfg_result_max_retries cfg \<le> 0 \<Longrightarrow> deliver_result cfg se = (RanOut, [])"
  by (simp add: deliver_result_def)

end
