(* ===== verification/Lifecycle.thy ===== *)
theory Lifecycle
  imports Registration Result_Queue Blob_Store Observability
begin

text \<open>
  The life of a worker process: startup (\<open>main\<close>), the shutdown sequence, token rotation, commands
  over the websocket, events to all orchestrators, calls of other skills, and the two ways to run.
\<close>

section \<open>Messages to the orchestrators\<close>

text \<open>\<open>emit_event\<close>: to every connected client; what a client raises is discarded.\<close>

definition emit_event :: "event_payload \<Rightarrow> worker \<Rightarrow> (client \<times> event_payload) list" where
  "emit_event ev w = map (\<lambda>(o', c). (c, ev)) (w_clients w)"

text \<open>
  \<open>OrchestratorClient.call_skill\<close>. \<open>post url body headers\<close> is the request: the status, the text and
  the decoded JSON of the response.
\<close>

datatype transport = HttpTransport string "(string, string) dict" | OtherTransport

definition call_skill ::
  "(string \<Rightarrow> pyval \<Rightarrow> (string, string) dict \<Rightarrow> (nat \<times> string result \<times> pyval result) result)
   \<Rightarrow> transport \<Rightarrow> string \<Rightarrow> (string, pyval) dict \<Rightarrow> pyval result" where
  "call_skill post t skill_name params =
     (case t of
        OtherTransport \<Rightarrow> Inr (PDict [(''status'', PStr ''success''), (''data'', PDict
          [(''mocked'', PBool True), (''skill'', PStr skill_name), (''params'', PDict params)])])
      | HttpTransport base_url headers \<Rightarrow>
          and_then (post (base_url @ ''/skills/call'')
                      (PDict [(''skill_name'', PStr skill_name), (''params'', PDict params)]) headers)
            (\<lambda>(status, body, json).
               if 400 \<le> status
               then and_then body (\<lambda>s. Inl (RuntimeError (''Orchestrator returned HTTP '' @ digits_of status @ '': '' @ s)))
               else json))"

section \<open>Startup\<close>

datatype session = NoSession | OwnSession bool | ExternalSession bool \<comment> \<open>whether it is open\<close>

datatype background = Manager | QueueWorker | TokenRotation | Polling

record app =
  ap_worker :: worker
  ap_session :: session
  ap_ssl :: bool
  ap_connected :: "client list"
  ap_background :: "background list" \<comment> \<open>tasks \<open>main\<close> created, in order\<close>

text \<open>
  The surroundings of \<open>main\<close>: the skills directory (\<open>None\<close>: it does not exist) and its imports, the
  SSL context, the transports created and whether each connects.
\<close>

record start_env =
  st_files :: "string list option"
  st_import :: "string \<Rightarrow> skill_module option result"
  st_ssl :: "unit result"
  st_transport :: "orch \<Rightarrow> client"
  st_connect :: "client \<Rightarrow> unit result"

definition is_set :: "string option \<Rightarrow> bool" where
  "is_set s = (s \<noteq> None \<and> s \<noteq> Some [])"

definition wants_tls :: "worker_config \<Rightarrow> bool" where
  "wants_tls cfg = (is_set (cfg_tls_ca_path cfg) \<or> is_set (cfg_tls_cert_path cfg) \<and> is_set (cfg_tls_key_path cfg))"

text \<open>Without a session handed in: the SSL context, an own session, and the clients.\<close>

definition open_session :: "start_env \<Rightarrow> app \<Rightarrow> app \<times> pyexn option" where
  "open_session se a =
     (if ap_session a \<noteq> NoSession then (a, None)
      else (case (if wants_tls (w_config (ap_worker a)) then map_sum id (\<lambda>_. True) (st_ssl se) else Inr False) of
              Inl e \<Rightarrow> (a, Some e)
            | Inr ssl \<Rightarrow>
                (let w = ap_worker a;
                     w = (if w_clients w = []
                          then w\<lparr>w_clients := init_clients (st_transport se) (cfg_orchestrators (w_config w))\<rparr> else w)
                 in (a\<lparr>ap_ssl := ssl, ap_session := OwnSession True, ap_worker := w\<rparr>, None))))"

text \<open>
  \<open>gather\<close> of the connections: all are attempted; the first failure (in list order here) is raised.
\<close>

definition first_error :: "unit result list \<Rightarrow> pyexn option" where
  "first_error rs = (case filter (\<lambda>r. \<not> is_ok r) rs of Inl e # _ \<Rightarrow> Some e | _ \<Rightarrow> None)"

definition connect_clients :: "start_env \<Rightarrow> app \<Rightarrow> app \<times> pyexn option" where
  "connect_clients se a =
     (let cs = map snd (w_clients (ap_worker a))
      in (a\<lparr>ap_connected := filter (\<lambda>c. is_ok (st_connect se c)) cs\<rparr>, first_error (map (st_connect se) cs)))"

definition start_background :: "app \<Rightarrow> app" where
  "start_background a =
     a\<lparr>ap_worker := (ap_worker a)\<lparr>w_queue_worker_running := True\<rparr>,
       ap_background := [Manager, QueueWorker] @ (if ap_ssl a then [TokenRotation] else []) @ [Polling]\<rparr>"

definition main_start :: "rxon \<Rightarrow> start_env \<Rightarrow> app \<Rightarrow> app \<times> pyexn option" where
  "main_start rx se a =
     (case validate (rx_valid_identifier rx) (w_config (ap_worker a)) of
        Inl e \<Rightarrow> (a, Some e)
      | Inr _ \<Rightarrow>
          (let a = (case st_files se of
                      None \<Rightarrow> a
                    | Some fs \<Rightarrow> a\<lparr>ap_worker := load_skills rx (st_import se) fs (ap_worker a)\<rparr>)
           in case open_session se a of
                (a, Some e) \<Rightarrow> (a, Some e)
              | (a, None) \<Rightarrow>
                  (case connect_clients se a of
                     (a, Some e) \<Rightarrow> (a, Some e)
                   | (a, None) \<Rightarrow> (start_background a, None))))"

text \<open>
  \<open>_manage_orchestrator_communications\<close>: one manager per orchestrator, and the websocket listener if
  enabled. \<open>_register_with_all_orchestrators\<close> then waits until the worker is registered with
  one of them or shuts down.
\<close>

datatype comm_task = OrchestratorManager client | WebsocketManager

definition comm_tasks :: "worker \<Rightarrow> comm_task list" where
  "comm_tasks w = map (\<lambda>(o', c). OrchestratorManager c) (w_clients w) @
     (if cfg_enable_websockets (w_config w) then [WebsocketManager] else [])"

definition registration_wait_over :: "worker \<Rightarrow> bool" where
  "registration_wait_over w = (w_registered w \<or> w_shutdown w)"

section \<open>Shutdown\<close>

datatype action =
    CancelComm comm_task
  | CancelPolling
  | AwaitTransfers nat \<comment> \<open>naps until the S3 manager was idle or the timeout over\<close>
  | SendOffline client heartbeat
  | JoinQueue bool \<comment> \<open>drained within ten seconds\<close>
  | CancelQueueWorker
  | CancelManager
  | CancelRotation
  | AwaitTasks "handle list"
  | CloseClient client
  | ShutObservability
  | CloseSession

text \<open>
  What the surroundings supply: the clock and readings of the last heartbeat, the counter of active
  transfers over time, what the queue worker goes through until \<open>join\<close> returns or its ten seconds are
  over, the delivery it may then be in and the attempt at which it is cancelled, and what closing
  the observability providers does.
\<close>

record stop_env =
  sp_now :: rat
  sp_timestamp :: int
  sp_readings :: system_readings
  sp_transfers :: "nat \<Rightarrow> int"
  sp_passes :: "pass list"
  sp_delivery :: send_env
  sp_attempt :: nat
  sp_provider :: "string \<Rightarrow> pyexn option"

definition offline_heartbeat :: "rxon \<Rightarrow> stop_env \<Rightarrow> worker \<Rightarrow> heartbeat result" where
  "offline_heartbeat rx se w =
     and_then (get_resources_usage (sp_now se) (sp_readings se) w) (\<lambda>usage.
       (let hb = \<lparr>hb_worker_id = cfg_worker_id (w_config w), hb_status = ''offline'', hb_usage = usage,
              hb_current_tasks = dkeys (w_active_tasks w), hb_supported_skills = Some [],
              hb_available_skills = None,
              hb_hot_skills = list_or_none (map si_name (t_hot (get_current_state w))),
              hb_skills_hash = (case w_last_synced_hash w of Some h \<Rightarrow> h | None \<Rightarrow> []),
              hb_security = None, hb_timestamp = sp_timestamp se\<rparr>
        in case sign_payload_if_needed rx (w_config w) (HeartbeatMsg hb) [] None of
             None \<Rightarrow> Inr hb
           | Some sec \<Rightarrow> Inr (hb\<lparr>hb_security := Some sec\<rparr>)))"

text \<open>
  The queue worker from the call of \<open>join\<close> to the end of its task: the queue when \<open>join\<close> is over, the
  queue it leaves behind, and what awaiting the cancelled task gives. Cancelling a task that has
  ended has no effect.
\<close>

definition drain_and_cancel :: "stop_env \<Rightarrow> worker \<Rightarrow> queue \<times> queue \<times> unit result" where
  "drain_and_cancel se w =
     (case result_queue_worker (w_config w) (sp_passes se) (queue_of w) of
        (q, _, Serving) \<Rightarrow>
          (case cancel_queue_worker (w_config w) (sp_delivery se) (sp_attempt se) q of (q', _, e) \<Rightarrow> (q, q', awaited e))
      | (q, _, e) \<Rightarrow> (q, q, awaited e))"

text \<open>\<open>suppress(Exception)\<close>.\<close>

definition suppress :: "unit result \<Rightarrow> unit result" where
  "suppress r = (case r of Inl e \<Rightarrow> if is_exception e then Inr () else Inl e | Inr _ \<Rightarrow> Inr ())"

definition close_session :: "app \<Rightarrow> action list \<times> app" where
  "close_session a =
     (if ap_session a = OwnSession True then ([CloseSession], a\<lparr>ap_session := OwnSession False\<rparr>) else ([], a))"

record cleanup_out =
  co_actions :: "action list"
  co_app :: app
  co_observability :: observability
  co_raised :: "pyexn option"

definition before_queue :: "rxon \<Rightarrow> stop_env \<Rightarrow> worker \<Rightarrow> action list \<times> unit result" where
  "before_queue rx se w =
     (let start = map CancelComm (comm_tasks w) @ [CancelPolling, AwaitTransfers (wait_all_done 30 (sp_transfers se))]
      in case offline_heartbeat rx se w of
           Inl e \<Rightarrow> (start, suppress (Inl e))
         | Inr hb \<Rightarrow> (start @ map (\<lambda>(o', c). SendOffline c hb) (w_clients w), Inr ()))"

definition after_queue :: "stop_env \<Rightarrow> app \<Rightarrow> observability \<Rightarrow> cleanup_out" where
  "after_queue se a ob =
     (let w = ap_worker a;
          acts = [CancelManager] @ (if TokenRotation \<in> set (ap_background a) then [CancelRotation] else []) @
            (if w_active_tasks w = [] then [] else [AwaitTasks (map snd (w_active_tasks w))]) @
            map (\<lambda>(o', c). CloseClient c) (w_clients w) @ [ShutObservability]
      in case observability_shutdown (sp_provider se) ob of
           (Inl e, ob) \<Rightarrow> \<lparr>co_actions = acts, co_app = a, co_observability = ob, co_raised = Some e\<rparr>
         | (Inr _, ob) \<Rightarrow>
             (case close_session a of
                (closing, a) \<Rightarrow> \<lparr>co_actions = acts @ closing, co_app = a, co_observability = ob, co_raised = None\<rparr>))"

definition perform_shutdown_cleanup :: "rxon \<Rightarrow> stop_env \<Rightarrow> app \<Rightarrow> observability \<Rightarrow> cleanup_out" where
  "perform_shutdown_cleanup rx se a ob =
     (case before_queue rx se (ap_worker a) of
        (acts, Inl e) \<Rightarrow> \<lparr>co_actions = acts, co_app = a, co_observability = ob, co_raised = Some e\<rparr>
      | (acts, Inr _) \<Rightarrow>
          (case drain_and_cancel se (ap_worker a) of
             (q, q', ending) \<Rightarrow>
               (let acts = acts @ [JoinQueue (joined q), CancelQueueWorker];
                    a = a\<lparr>ap_worker := (ap_worker a)\<lparr>w_queue_worker_running := False, w_result_queue := q_items q'\<rparr>\<rparr>
                in case suppress ending of
                     Inl e \<Rightarrow> \<lparr>co_actions = acts, co_app = a, co_observability = ob, co_raised = Some e\<rparr>
                   | Inr _ \<Rightarrow> (let r = after_queue se a ob in r\<lparr>co_actions := acts @ co_actions r\<rparr>))))"

section \<open>Token rotation\<close>

record token_response =
  tk_access_token :: string
  tk_expires_in :: rat

text \<open>
  One round: every client is asked in turn; a token replaces the configured one. An exception is
  logged, a cancellation ends the task.
\<close>

fun rotate_tokens ::
  "(client \<Rightarrow> token_response option result) \<Rightarrow> client list \<Rightarrow> rat \<Rightarrow> worker \<Rightarrow> worker \<times> rat result" where
  "rotate_tokens refresh [] min_expires w = (w, Inr min_expires)"
| "rotate_tokens refresh (c # cs) min_expires w =
     (case refresh c of
        Inl e \<Rightarrow> if is_exception e then rotate_tokens refresh cs min_expires w else (w, Inl e)
      | Inr None \<Rightarrow> rotate_tokens refresh cs min_expires w
      | Inr (Some tk) \<Rightarrow> rotate_tokens refresh cs (py_min min_expires (tk_expires_in tk))
          (w\<lparr>w_config := (w_config w)\<lparr>cfg_worker_token := tk_access_token tk\<rparr>\<rparr>))"

definition refresh_delay :: "rat \<Rightarrow> rat" where
  "refresh_delay min_expires = py_max 60 (min_expires * (8 / 10))"


section \<open>Commands\<close>

record command =
  cm_command :: string
  cm_task_id :: string

definition on_command :: "string \<Rightarrow> nat \<Rightarrow> worker \<Rightarrow> worker" where
  "on_command name f w = w\<lparr>w_command_handlers := dset name f (w_command_handlers w)\<rparr>"

text \<open>\<open>call f cmd\<close> runs the registered handler with identity \<open>f\<close>.\<close>

definition handle_command ::
  "rxon \<Rightarrow> (nat \<Rightarrow> command \<Rightarrow> worker \<Rightarrow> worker \<times> unit result) \<Rightarrow> command \<Rightarrow> worker \<Rightarrow> worker \<times> unit result" where
  "handle_command rx call cmd w =
     (if cm_command cmd = rx_command_cancel rx
      then (case dget (w_active_tasks w) (cm_task_id cmd) of
              Some h \<Rightarrow> (w\<lparr>w_cancelled := w_cancelled w @ [h]\<rparr>, Inr ())
            | None \<Rightarrow> (w, Inr ()))
      else (case dget (w_command_handlers w) (cm_command cmd) of
              Some f \<Rightarrow> (case call f cmd w of (w, r) \<Rightarrow> (w, suppress r))
            | None \<Rightarrow> (w, Inr ())))"

fun handle_commands ::
  "rxon \<Rightarrow> (nat \<Rightarrow> command \<Rightarrow> worker \<Rightarrow> worker \<times> unit result) \<Rightarrow> command list \<Rightarrow> worker \<Rightarrow> worker \<times> unit result" where
  "handle_commands rx call [] w = (w, Inr ())"
| "handle_commands rx call (cmd # cmds) w =
     (case handle_command rx call cmd w of
        (w, Inl e) \<Rightarrow> (w, Inl e)
      | (w, Inr _) \<Rightarrow> handle_commands rx call cmds w)"

text \<open>
  The listener over its connections: the commands received on each and how the stream ended. After
  an exception, or a regular end, it listens again.
\<close>

fun listen_to_single_transport ::
  "rxon \<Rightarrow> (nat \<Rightarrow> command \<Rightarrow> worker \<Rightarrow> worker \<times> unit result) \<Rightarrow> (command list \<times> unit result) list \<Rightarrow> worker
   \<Rightarrow> worker \<times> unit result" where
  "listen_to_single_transport rx call [] w = (w, Inr ())"
| "listen_to_single_transport rx call ((cmds, stream_end) # conns) w =
     (if w_shutdown w then (w, Inr ())
      else (case handle_commands rx call cmds w of
              (w, r) \<Rightarrow> (case suppress (and_then r (\<lambda>_. stream_end)) of
                   Inl e \<Rightarrow> (w, Inl e)
                 | Inr _ \<Rightarrow> listen_to_single_transport rx call conns w)))"

text \<open>The listeners \<open>_start_websocket_manager\<close> starts, and cancels at shutdown.\<close>

definition websocket_listeners :: "worker \<Rightarrow> client list" where
  "websocket_listeners w = map (\<lambda>(o', c). c) (w_clients w)"

section \<open>Running\<close>

datatype exit = Returned | KeyboardInterrupt | Raised pyexn

text \<open>\<open>run\<close>, and \<open>run_with_health_check\<close> with the failures of its task group.\<close>

definition run_worker_main :: "exit \<Rightarrow> worker \<Rightarrow> worker \<times> pyexn option" where
  "run_worker_main outcome w =
     (case outcome of
        Returned \<Rightarrow> (w, None)
      | KeyboardInterrupt \<Rightarrow> (w\<lparr>w_shutdown := True\<rparr>, None)
      | Raised e \<Rightarrow> (w, Some e))"

datatype group_exit = GroupReturned | GroupInterrupted | GroupCancelled | GroupFailed "exit list"

definition harmless :: "exit \<Rightarrow> bool" where
  "harmless x = (x = KeyboardInterrupt \<or> x = Raised CancelledError)"

definition run_with_health_check :: "group_exit \<Rightarrow> worker \<Rightarrow> worker \<times> exit list" where
  "run_with_health_check outcome w =
     (case outcome of
        GroupReturned \<Rightarrow> (w, [])
      | GroupInterrupted \<Rightarrow> (w\<lparr>w_shutdown := True\<rparr>, [])
      | GroupCancelled \<Rightarrow> (w\<lparr>w_shutdown := True\<rparr>, [])
      | GroupFailed es \<Rightarrow> if list_all harmless es then (w\<lparr>w_shutdown := True\<rparr>, []) else (w, es))"

definition health_handler :: "string \<Rightarrow> nat \<times> string" where
  "health_handler path = (if path = ''/health'' then (200, ''OK'') else (404, ''404: Not Found''))"

section \<open>Lemmas\<close>

lemma suppress_simps [simp]: "suppress (Inr u) = Inr ()" "suppress (Inl CancelledError) = Inl CancelledError"
  by (simp_all add: suppress_def is_exception_def)

lemma suppress_exception [simp]: "is_exception e \<Longrightarrow> suppress (Inl e) = Inr ()"
  by (simp add: suppress_def)




lemma offline_raises_exception:
  assumes "offline_heartbeat rx se w = Inl e"
  shows "get_resources_usage (sp_now se) (sp_readings se) w = Inl e"
  using assms by (auto simp: offline_heartbeat_def and_then_Inl_iff Let_def split: option.splits)

text \<open>The usage checker and the providers raise nothing but exceptions.\<close>

definition tame :: "stop_env \<Rightarrow> worker \<Rightarrow> bool" where
  "tame se w = ((case get_resources_usage (sp_now se) (sp_readings se) w of Inl e \<Rightarrow> is_exception e | Inr _ \<Rightarrow> True) \<and>
     (\<forall>n. case sp_provider se n of Some e \<Rightarrow> is_exception e | None \<Rightarrow> True))"

lemma before_queue_tame:
  assumes "tame se w"
  shows "snd (before_queue rx se w) = Inr ()"
proof (cases "offline_heartbeat rx se w")
  case (Inl e)
  then have "is_exception e" using offline_raises_exception [OF Inl] assms by (simp add: tame_def)
  with Inl show ?thesis by (simp add: before_queue_def)
qed (simp add: before_queue_def)

lemma observability_tame:
  assumes "tame se w"
  shows "fst (observability_shutdown (sp_provider se) ob) = Inr ()"
  using assms by (auto simp: tame_def observability_shutdown_def close_provider_def Let_def
      dest: spec [of _ "''tracer''"] spec [of _ "''meter''"] split: option.splits)

lemma after_queue_tame:
  assumes "tame se w"
  shows "co_raised (after_queue se a ob) = None \<and>
    set (map (\<lambda>(o', c). CloseClient c) (w_clients (ap_worker a))) \<subseteq> set (co_actions (after_queue se a ob)) \<and>
    ShutObservability \<in> set (co_actions (after_queue se a ob)) \<and>
    co_app (after_queue se a ob) = snd (close_session a)"
  using observability_tame [OF assms, of ob]
  by (auto simp: after_queue_def Let_def split: prod.splits sum.splits)

text \<open>
  What the queue worker does decides whether the cleanup goes on: with nothing but quiet passes it is
  found in \<open>get\<close> when everything was handled, in a delivery otherwise.
\<close>

lemma drain_and_cancel_quiet:
  assumes "list_all quiet_pass (sp_passes se)"
    and "awaits_attempt (w_config w) (sp_delivery se) (sp_attempt se)"
    and "result_queue_worker (w_config w) (sp_passes se) (queue_of w) = (q, handled, e)"
  shows "if map fst handled = w_result_queue w @ concat (map pa_arriving (sp_passes se))
    then joined q \<and> drain_and_cancel se w = (q, q, Inr ())
    else \<not> joined q \<and> (\<exists>q'. drain_and_cancel se w = (q, q', Inl CancelledError))"
proof -
  have "counter_exact (queue_of w)" by (simp add: counter_exact_def queue_of_def)
  from quiet_passes [OF assms(1) this, of "w_config w"] assms(3)
  have inv: "map fst handled @ q_items q = w_result_queue w @ concat (map pa_arriving (sp_passes se))"
    "joined q \<longleftrightarrow> q_items q = []" and e: "e = Serving"
    by (simp_all add: Let_def queue_of_def counter_exact_def joined_def)
  then have all: "map fst handled = w_result_queue w @ concat (map pa_arriving (sp_passes se)) \<longleftrightarrow> q_items q = []"
    by (metis append_Nil2 append_self_conv)
  show ?thesis
  proof (cases "q_items q")
    case Nil
    then show ?thesis using all inv(2) assms(3) e by (simp add: drain_and_cancel_def cancelled_in_get)
  next
    case (Cons it items)
    then show ?thesis
      using all inv(2) assms(3) e cancelled_in_delivery [OF Cons assms(2)] by (simp add: drain_and_cancel_def)
  qed
qed

lemma first_error_None: "first_error rs = None \<longleftrightarrow> list_all is_ok rs"
proof (induction rs)
  case (Cons r rs)
  then show ?case by (cases r) (auto simp: first_error_def)
qed (simp add: first_error_def)

section \<open>Fixtures\<close>

definition sample_app :: app where
  "sample_app = \<lparr>ap_worker = sample_worker, ap_session = OwnSession True, ap_ssl = False, ap_connected = [1, 2],
     ap_background = [Manager, QueueWorker, Polling]\<rparr>"

definition sample_stop :: "pass list \<Rightarrow> stop_env" where
  "sample_stop ps = \<lparr>sp_now = 100, sp_timestamp = 100, sp_readings = \<lparr>sr_psutil = None, sr_gputil = None\<rparr>,
     sp_transfers = (\<lambda>n. 0), sp_passes = ps, sp_delivery = flaky, sp_attempt = 2, sp_provider = (\<lambda>n. None)\<rparr>"

definition sample_obs :: observability where
  "sample_obs = observability_init sample_otel True ''svc'' None None None"

definition app_with_results :: app where
  "app_with_results = sample_app\<lparr>ap_worker := two_results\<rparr>"

lemma sample_tame: "tame (sample_stop ps) two_results"
  by (simp add: tame_def sample_stop_def get_resources_usage_def two_results_def sample_worker_def cpu_and_ram_def)

section \<open>Properties\<close>

text \<open>
  C5: The cleanup runs to its end exactly if the queue worker has handled every queued result by the
  time \<open>join\<close> returns or gives up: then every client is closed, the observability providers are shut
  down, an own HTTP session is closed and one handed in is left open. If any result is left, the
  cancellation finds the worker in a delivery, comes back out of it, passes \<open>suppress(Exception)\<close>, and
  none of that happens.
\<close>

theorem shutdown_completes_iff_drained:
  assumes "tame se (ap_worker a)" and "list_all quiet_pass (sp_passes se)"
    and "awaits_attempt (w_config (ap_worker a)) (sp_delivery se) (sp_attempt se)"
    and "result_queue_worker (w_config (ap_worker a)) (sp_passes se) (queue_of (ap_worker a)) = (q, handled, e)"
  shows "let r = perform_shutdown_cleanup rx se a ob; clients = map snd (w_clients (ap_worker a)) in
    (if map fst handled = w_result_queue (ap_worker a) @ concat (map pa_arriving (sp_passes se))
     then co_raised r = None \<and> list_all (\<lambda>c. CloseClient c \<in> set (co_actions r)) clients \<and>
       ShutObservability \<in> set (co_actions r) \<and>
       ap_session (co_app r) = (if ap_session a = OwnSession True then OwnSession False else ap_session a)
     else co_raised r = Some CancelledError \<and> list_all (\<lambda>c. CloseClient c \<notin> set (co_actions r)) clients \<and>
       ShutObservability \<notin> set (co_actions r) \<and> co_observability r = ob \<and> ap_session (co_app r) = ap_session a)"
proof -
  let ?all = "map fst handled = w_result_queue (ap_worker a) @ concat (map pa_arriving (sp_passes se))"
  obtain acts where acts: "before_queue rx se (ap_worker a) = (acts, Inr ())"
    using before_queue_tame [OF assms(1), of rx] by (metis prod.collapse)
  have early: "CloseClient c \<notin> set acts" "ShutObservability \<notin> set acts" for c
    using acts by (auto simp: before_queue_def Let_def split: sum.splits)
  note drain = drain_and_cancel_quiet [OF assms(2-4)]
  show ?thesis
  proof (cases ?all)
    case True
    let ?a = "a\<lparr>ap_worker := (ap_worker a)\<lparr>w_queue_worker_running := False, w_result_queue := q_items q\<rparr>\<rparr>"
    from True drain after_queue_tame [OF assms(1), of ?a ob] show ?thesis
      by (auto simp: perform_shutdown_cleanup_def acts Let_def list_all_iff close_session_def split: if_splits)
  next
    case False
    with drain obtain q' where "drain_and_cancel se (ap_worker a) = (q, q', Inl CancelledError)" by auto
    with False early show ?thesis
      by (simp add: perform_shutdown_cleanup_def acts Let_def list_all_iff)
  qed
qed

theorem shutdown_completes_iff_drained_witness:
  "let stuck = perform_shutdown_cleanup sample_rxon (sample_stop [flaky_pass]) app_with_results sample_obs;
       clean = perform_shutdown_cleanup sample_rxon (sample_stop [flaky_pass, flaky_pass]) app_with_results sample_obs
   in co_raised stuck = Some CancelledError \<and> ap_session (co_app stuck) = OwnSession True \<and>
      co_raised clean = None \<and> ap_session (co_app clean) = OwnSession False"
proof -
  have tame: "tame (sample_stop ps) (ap_worker app_with_results)" for ps by (simp add: app_with_results_def sample_tame)
  have quiet: "list_all quiet_pass (sp_passes (sample_stop [flaky_pass]))"
    "list_all quiet_pass (sp_passes (sample_stop [flaky_pass, flaky_pass]))"
    by (simp_all add: sample_stop_def quiet_pass_def flaky_pass_def flaky_undisturbed)
  have awaits: "awaits_attempt (w_config (ap_worker app_with_results)) (sp_delivery (sample_stop ps)) (sp_attempt (sample_stop ps))" for ps
    by (simp add: awaits_attempt_def sample_stop_def app_with_results_def two_results_def sample_worker_def
        sample_config_def flaky_def is_exception_def numeral_2_eq_2 upt_rec)
  let ?run = "\<lambda>ps. result_queue_worker (w_config (ap_worker app_with_results)) (sp_passes (sample_stop ps))
      (queue_of (ap_worker app_with_results))"
  have "?run ps = (fst (?run ps), fst (snd (?run ps)), snd (snd (?run ps)))" for ps by simp
  note complete = shutdown_completes_iff_drained [OF tame _ awaits this, of _ sample_rxon sample_obs]
  have "map fst (fst (snd (?run [flaky_pass]))) \<noteq>
      w_result_queue (ap_worker app_with_results) @ concat (map pa_arriving (sp_passes (sample_stop [flaky_pass])))"
    by code_simp
  moreover have "map fst (fst (snd (?run [flaky_pass, flaky_pass]))) =
      w_result_queue (ap_worker app_with_results) @ concat (map pa_arriving (sp_passes (sample_stop [flaky_pass, flaky_pass])))"
    by code_simp
  moreover have "ap_session app_with_results = OwnSession True" by (simp add: app_with_results_def sample_app_def)
  ultimately show ?thesis using complete [OF quiet(1)] complete [OF quiet(2)] by (simp only: Let_def if_True if_False) simp
qed

text \<open>
  C30: Startup is all or nothing with regard to the background tasks: if \<open>main\<close> gets through it, the
  configuration is valid, there is a session, every client is connected and exactly the manager,
  the queue worker, the polling task and, with TLS, the token rotation run; if anything raises, none
  of them has been started.
\<close>

theorem startup_all_or_nothing:
  assumes "main_start rx se a = (a', r)"
  shows "case r of
      None \<Rightarrow> validate (rx_valid_identifier rx) (w_config (ap_worker a)) = Inr () \<and> ap_session a' \<noteq> NoSession \<and>
        ap_connected a' = map snd (w_clients (ap_worker a')) \<and> w_queue_worker_running (ap_worker a') \<and>
        set (ap_background a') = {Manager, QueueWorker, Polling} \<union> (if ap_ssl a' then {TokenRotation} else {})
    | Some e \<Rightarrow> ap_background a' = ap_background a"
proof (cases "validate (rx_valid_identifier rx) (w_config (ap_worker a))")
  case (Inl e)
  with assms show ?thesis by (auto simp: main_start_def)
next
  case (Inr u)
  define a1 where "a1 = (case st_files se of None \<Rightarrow> a
    | Some fs \<Rightarrow> a\<lparr>ap_worker := load_skills rx (st_import se) fs (ap_worker a)\<rparr>)"
  have a1: "ap_background a1 = ap_background a" by (simp add: a1_def split: option.split)
  obtain a2 r2 where open2: "open_session se a1 = (a2, r2)" by fastforce
  have a2: "ap_background a2 = ap_background a1" "r2 = None \<Longrightarrow> ap_session a2 \<noteq> NoSession"
    using open2 by (auto simp: open_session_def Let_def split: if_splits sum.splits)
  obtain a3 r3 where con: "connect_clients se a2 = (a3, r3)" by fastforce
  have a3: "ap_background a3 = ap_background a2" "ap_session a3 = ap_session a2" "ap_worker a3 = ap_worker a2"
    "r3 = None \<Longrightarrow> ap_connected a3 = map snd (w_clients (ap_worker a3))"
    using con first_error_None [of "map (st_connect se) (map snd (w_clients (ap_worker a2)))"]
    by (auto simp: connect_clients_def Let_def list_all_iff intro!: filter_True)
  have "main_start rx se a = (case r2 of Some e \<Rightarrow> (a2, Some e)
      | None \<Rightarrow> (case r3 of Some e \<Rightarrow> (a3, Some e) | None \<Rightarrow> (start_background a3, None)))"
    using Inr open2 con by (simp add: main_start_def a1_def Let_def split: option.split)
  with assms Inr a1 a2 a3 show ?thesis
    by (auto simp: start_background_def split: option.splits)
qed

definition sample_start :: "(client \<Rightarrow> unit result) \<Rightarrow> start_env" where
  "sample_start conn = \<lparr>st_files = None, st_import = (\<lambda>f. Inr None), st_ssl = Inr (), st_transport = (\<lambda>o'. 0),
     st_connect = conn\<rparr>"

definition fresh_app :: app where
  "fresh_app = \<lparr>ap_worker = sample_worker\<lparr>w_config := sample_config\<lparr>cfg_orchestrators := [[(''url'', PStr ''a'')]],
       cfg_worker_token := ''secret''\<rparr>\<rparr>, ap_session = NoSession, ap_ssl = False, ap_connected = [], ap_background = []\<rparr>"

theorem startup_all_or_nothing_witness:
  "\<exists>a'. main_start sample_rxon (sample_start (\<lambda>c. Inr ())) fresh_app = (a', None) \<and>
     set (ap_background a') \<supseteq> {Manager, QueueWorker, Polling}"
proof -
  let ?r = "main_start sample_rxon (sample_start (\<lambda>c. Inr ())) fresh_app"
  have none: "snd ?r = None" by code_simp
  have "?r = (fst ?r, snd ?r)" by simp
  from startup_all_or_nothing [OF this] none
  have "set (ap_background (fst ?r)) \<supseteq> {Manager, QueueWorker, Polling}" by auto
  with none show ?thesis by (metis prod.collapse)
qed







section \<open>What the lifecycle does not give\<close>

text \<open>
  A client that cannot connect makes \<open>main\<close> raise before its \<open>try\<close> statement, with the HTTP session it
  has just opened still open and no cleanup to close it.
\<close>

theorem connect_failure_leaks_session:
  "let (a, e) = main_start sample_rxon (sample_start (\<lambda>c. if c = 2 then Inl (OSError ''refused'') else Inr ())) fresh_app in
     e = Some (OSError ''refused'') \<and> ap_session a = OwnSession True \<and> ap_connected a = [1] \<and> ap_background a = []"
  by code_simp

text \<open>A token that lives less than a minute has expired when it is refreshed.\<close>

theorem short_token_expires: "0 \<le> m \<Longrightarrow> m < 60 \<Longrightarrow> m < refresh_delay m"
  by (simp add: refresh_delay_def py_max_linorder)

text \<open>
  All orchestrators share one token: whatever the first returns, requests and signatures for every
  orchestrator use the token the last one gave.
\<close>

theorem last_token_wins:
  "w_config (fst (rotate_tokens (\<lambda>c. Inr (Some \<lparr>tk_access_token = (if c = 1 then ''token-1'' else ''token-2''), tk_expires_in = 600\<rparr>))
     [1, 2] 3600 sample_worker)) = (w_config sample_worker)\<lparr>cfg_worker_token := ''token-2''\<rparr>"
  by simp

text \<open>
  The offline heartbeat is not the last one: a task that finishes while the cleanup waits for it
  starts a heartbeat to every orchestrator, shutdown or not, which reports the worker idle.
\<close>

theorem heartbeat_after_offline:
  "let w = sample_worker\<lparr>w_shutdown := True\<rparr>; w1 = schedule_heartbeat_debounce w in
     (case offline_heartbeat sample_rxon (sample_stop []) w of
        Inr hb \<Rightarrow> hb_status hb = ''offline'' | Inl _ \<Rightarrow> False) \<and>
     w_spawned w1 = w_spawned w @ [SpawnHeartbeat 1, SpawnHeartbeat 2] \<and>
     (case fst (heartbeat_begin sample_rxon (sample_hb 100 (Inr PNone)) 1 w1) of
        Sending hb \<Rightarrow> hb_status hb = ''idle'' | _ \<Rightarrow> False)"
proof -
  let ?w = "sample_worker\<lparr>w_shutdown := True\<rparr>"
  have "w_spawned (schedule_heartbeat_debounce ?w) = w_spawned ?w @ [SpawnHeartbeat 1, SpawnHeartbeat 2]"
    by (simp add: schedule_heartbeat_debounce_def sample_worker_def)
  moreover have "case offline_heartbeat sample_rxon (sample_stop []) ?w of
      Inr hb \<Rightarrow> hb_status hb = ''offline'' | Inl _ \<Rightarrow> False" by code_simp
  moreover have "case fst (heartbeat_begin sample_rxon (sample_hb 100 (Inr PNone)) 1 (schedule_heartbeat_debounce ?w)) of
      Sending hb \<Rightarrow> hb_status hb = ''idle'' | _ \<Rightarrow> False" by code_simp
  ultimately show ?thesis unfolding Let_def by blast
qed

text \<open>A cancel command cancels the named task if it is active, and nothing else.\<close>

theorem cancel_commands_exact:
  assumes "list_all (\<lambda>cmd. cm_command cmd = rx_command_cancel rx) cmds"
  shows "handle_commands rx call cmds w =
    (w\<lparr>w_cancelled := w_cancelled w @ List.map_filter (dget (w_active_tasks w) \<circ> cm_task_id) cmds\<rparr>, Inr ())"
  using assms
  by (induction cmds arbitrary: w) (auto simp: handle_command_def map_filter_simps split: option.splits)

end
