(* ===== verification/Cli.thy ===== *)
theory Cli
  imports Lifecycle
begin

text \<open>
  The command line (\<open>__main__.py\<close>): parsing it, importing the worker it names and running it, and the
  watcher that restarts it on code changes. Modules and their attributes are a parameter.
\<close>

section \<open>Importing and running the worker\<close>

text \<open>
  An attribute of a module is a worker, by identity, or anything else. A module maps names to
  attributes, \<open>None\<close> where it has none.
\<close>

datatype attribute = WorkerObject nat | OtherObject

type_synonym module_importer = "string \<Rightarrow> (string \<Rightarrow> attribute option) result"

text \<open>\<open>module_path, obj_name = import_name.split(":")\<close> needs exactly one colon.\<close>

definition import_string :: "module_importer \<Rightarrow> string \<Rightarrow> attribute result" where
  "import_string import_module import_name =
     (case split_on CHR '':'' import_name of
        [module_path, obj_name] \<Rightarrow>
          and_then (import_module module_path) (\<lambda>attrs.
            (case attrs obj_name of
               Some x \<Rightarrow> Inr x
             | None \<Rightarrow> Inl (ImportError (module_path @ '' has no attribute '' @ obj_name))))
      | _ \<Rightarrow> Inl (ImportError (''Invalid format '' @ import_name)))"

record cli_args =
  ar_app :: string
  ar_health_check :: bool
  ar_reload :: bool

datatype ran = RunsPlain nat | RunsWithHealthCheck nat | Exits int | Raises pyexn

fun is_import_error :: "pyexn \<Rightarrow> bool" where
  "is_import_error (ImportError _) = True"
| "is_import_error _ = False"

definition run_worker :: "module_importer \<Rightarrow> cli_args \<Rightarrow> ran" where
  "run_worker import_module args =
     (case import_string import_module (ar_app args) of
        Inl e \<Rightarrow> if is_import_error e then Exits 1 else Raises e
      | Inr OtherObject \<Rightarrow> Exits 1
      | Inr (WorkerObject w) \<Rightarrow> if ar_health_check args then RunsWithHealthCheck w else RunsPlain w)"

section \<open>The arguments\<close>

text \<open>
  The options of the \<open>run\<close> command in any order, \<open>--app\<close> being required. \<open>--health-check\<close> is a
  \<open>store_true\<close> option with the default True. The further spellings \<open>argparse\<close> takes (prefixes of
  option names, \<open>--app=x\<close>, help) are not modelled; an error exits with status 2.
\<close>

fun parse_options :: "string list \<Rightarrow> string option \<Rightarrow> bool \<Rightarrow> bool \<Rightarrow> cli_args option" where
  "parse_options [] app hc rl =
     (case app of Some x \<Rightarrow> Some \<lparr>ar_app = x, ar_health_check = hc, ar_reload = rl\<rparr> | None \<Rightarrow> None)"
| "parse_options (opt # rest) app hc rl =
     (if opt = ''--health-check'' then parse_options rest app True rl
      else if opt = ''--reload'' then parse_options rest app hc True
      else if opt = ''--app''
      then (case rest of
              v # rest' \<Rightarrow> if starts_with v ''-'' then None else parse_options rest' (Some v) hc rl
            | [] \<Rightarrow> None)
      else None)"

datatype parsed = NoCommand | RunCommand cli_args | UsageError

definition parse_args :: "string list \<Rightarrow> parsed" where
  "parse_args argv =
     (case argv of
        [] \<Rightarrow> NoCommand
      | cmd # rest \<Rightarrow>
          if cmd = ''run''
          then (case parse_options rest None True False of Some a \<Rightarrow> RunCommand a | None \<Rightarrow> UsageError)
          else UsageError)"

section \<open>The reloader\<close>

record fs_event =
  fe_is_directory :: bool
  fe_src_path :: string

record reloader =
  rl_args :: cli_args
  rl_process :: "string list option" \<comment> \<open>the command line of the running child\<close>
  rl_started :: "string list list" \<comment> \<open>every child started, latest first\<close>
  rl_ended :: "string list list" \<comment> \<open>every child terminated and waited for\<close>

definition child_args :: "string \<Rightarrow> cli_args \<Rightarrow> string list" where
  "child_args executable args =
     [executable, ''-m'', ''avtomatika_worker'', ''run'', ''--app'', ar_app args] @
     (if ar_health_check args then [''--health-check''] else [])"

definition start_worker :: "string \<Rightarrow> reloader \<Rightarrow> reloader" where
  "start_worker executable r =
     (let r = (case rl_process r of Some p \<Rightarrow> r\<lparr>rl_process := None, rl_ended := p # rl_ended r\<rparr> | None \<Rightarrow> r);
          p = child_args executable (rl_args r)
      in r\<lparr>rl_process := Some p, rl_started := p # rl_started r\<rparr>)"

definition reload_init :: "string \<Rightarrow> cli_args \<Rightarrow> reloader" where
  "reload_init executable args =
     start_worker executable \<lparr>rl_args = args, rl_process = None, rl_started = [], rl_ended = []\<rparr>"

definition restarts_on :: "fs_event \<Rightarrow> bool" where
  "restarts_on ev = (\<not> (fe_is_directory ev \<or> \<not> ends_with (fe_src_path ev) ''.py''))"

definition on_any_event :: "string \<Rightarrow> fs_event \<Rightarrow> reloader \<Rightarrow> reloader" where
  "on_any_event executable ev r = (if restarts_on ev then start_worker executable r else r)"

text \<open>\<open>KeyboardInterrupt\<close>: the child is terminated and the watcher ends.\<close>

definition stop_reloader :: "reloader \<Rightarrow> reloader" where
  "stop_reloader r =
     (case rl_process r of Some p \<Rightarrow> r\<lparr>rl_process := None, rl_ended := p # rl_ended r\<rparr> | None \<Rightarrow> r)"

datatype cli_end = PrintedHelp | Ran ran | Watched reloader

definition main :: "module_importer \<Rightarrow> bool \<Rightarrow> string \<Rightarrow> fs_event list \<Rightarrow> string list \<Rightarrow> cli_end" where
  "main import_module has_watchdog executable events argv =
     (case parse_args argv of
        NoCommand \<Rightarrow> PrintedHelp
      | UsageError \<Rightarrow> Ran (Exits 2)
      | RunCommand args \<Rightarrow>
          if \<not> ar_reload args then Ran (run_worker import_module args)
          else if \<not> has_watchdog then Ran (Exits 1)
          else Watched (stop_reloader (fold (on_any_event executable) events (reload_init executable args))))"

section \<open>Lemmas\<close>

lemma options_health_check: "parse_options opts app True rl = Some args \<Longrightarrow> ar_health_check args"
  by (induction opts app True rl rule: parse_options.induct) (auto split: option.splits if_splits list.splits)

text \<open>One child runs, and every other child ever started has been terminated and waited for.\<close>

definition one_child :: "string \<Rightarrow> cli_args \<Rightarrow> nat \<Rightarrow> reloader \<Rightarrow> bool" where
  "one_child executable args n r = (rl_args r = args \<and> rl_process r = Some (child_args executable args) \<and>
     rl_started r = replicate (Suc n) (child_args executable args) \<and>
     rl_ended r = replicate n (child_args executable args))"

lemma one_child_init: "one_child executable args 0 (reload_init executable args)"
  by (simp add: one_child_def reload_init_def start_worker_def Let_def)

lemma one_child_step:
  "one_child executable args n r \<Longrightarrow>
   one_child executable args (n + (if restarts_on ev then 1 else 0)) (on_any_event executable ev r)"
  by (simp add: one_child_def on_any_event_def start_worker_def Let_def)

lemma one_child_events:
  "one_child executable args n r \<Longrightarrow>
   one_child executable args (n + length (filter restarts_on events)) (fold (on_any_event executable) events r)"
proof (induction events arbitrary: n r)
  case (Cons ev events)
  from Cons.IH [OF one_child_step [OF Cons.prems, of ev]] show ?case by (simp split: if_splits)
qed simp

section \<open>Properties\<close>


section \<open>The health check cannot be switched off\<close>

text \<open>
  \<open>--health-check\<close> is a switch that is already on: no command line leads to a worker without the
  health check server.
\<close>

theorem health_check_always_on:
  "case main import_module has_watchdog executable events argv of
     Ran (RunsPlain w) \<Rightarrow> False
   | Watched r \<Rightarrow> ar_health_check (rl_args r)
   | _ \<Rightarrow> True"
proof (cases "parse_args argv")
  case (RunCommand args)
  then have "ar_health_check args"
    using options_health_check by (auto simp: parse_args_def split: list.splits if_splits option.splits)
  moreover have "rl_args (stop_reloader (fold (on_any_event executable) events (reload_init executable args))) = args"
    using one_child_events [OF one_child_init, of executable args events]
    by (simp add: one_child_def stop_reloader_def)
  ultimately show ?thesis
    using RunCommand by (auto simp: main_def run_worker_def split: sum.splits attribute.splits)
qed (simp_all add: main_def)

text \<open>A name without a colon, or with more than one, is refused before anything is imported.\<close>

theorem import_string_format:
  assumes "count_list name CHR '':'' \<noteq> 1"
  shows "import_string import_module name = Inl (ImportError (''Invalid format '' @ name))"
  using assms length_split_on [of "CHR '':''" name]
  by (auto simp: import_string_def split: list.splits)

end
