(* ===== verification/Spec2Isabelle.thy ===== *)
theory Spec2Isabelle
  imports Slot_Pool Debounce Cli Task_Files Log_Context
begin

text \<open>
  Verification library of the avtomatika worker SDK (\<open>src/src/avtomatika_worker\<close>).

  The program. A \<open>Worker\<close> (\<open>worker.py\<close>) registers with one or more orchestrators, tells each of them in
  heartbeats what it can do, polls them for tasks, runs every task as a coroutine that calls the
  handler of a skill, and delivers the results through a queue. Large inputs and outputs go
  through an object store (\<open>s3.py\<close>) and a directory per task (\<open>task_files.py\<close>); \<open>config.py\<close> reads the
  environment, \<open>observability.py\<close> and \<open>logging.py\<close> report, \<open>__main__.py\<close> is the command line.

  How the model relates to the code. A record models an object and a definition one method, or the
  part of a method between two points where it waits; names follow the code (\<open>_poll_for_tasks_with_status\<close>
  is \<open>poll_for_tasks_with_status\<close>, attribute \<open>_current_load\<close> is \<open>w_current_load\<close>). The worker object is
  the record \<open>worker\<close> and is passed through; dictionaries are association lists in insertion order.
  Exceptions are the left summand of \<open>result\<close>; \<open>CancelledError\<close> is one that \<open>except Exception\<close> lets
  through. What a coroutine meets while it waits (answers, clock readings, what other coroutines do
  to the worker) are fields of an environment record. rxon, the object store, OpenTelemetry, JSON
  decoding, user callbacks and handlers are parameters: \<open>rxon\<close>, \<open>otel\<close>, and
  functions in the records. Loops over time take the list of their iterations' surroundings;
  loops of the code that end are proved to end.

  The theories, in the order of their imports.
    \<^item> \<open>Prelude\<close>: results, dictionaries and their interface (locale \<open>dictionary\<close>); \<open>Py_Num\<close>: Python numbers,
      floats with infinities and NaN, \<open>int()\<close> and \<open>float()\<close> of strings; \<open>Py_Value\<close>: values, exceptions,
      strings and POSIX paths.
    \<^item> \<open>Config\<close> (\<open>config.py\<close>): the environment, the orchestrator list with its sort (locale \<open>key_order\<close>),
      devices, validation.
    \<^item> \<open>Skills\<close>, \<open>Messages\<close>: skill objects, decorator and blueprints; protocol messages and signing.
    \<^item> \<open>Round_Robin\<close>, \<open>Backoff\<close>, \<open>Worker_State\<close>, \<open>Polling\<close>: choice of the orchestrator, delays (locale
      \<open>backoff_policy\<close>), registration of skills and the three tiers of availability, the poll and its loop
      (locale \<open>poll_invariant\<close>: what one poll keeps, every mode and the loop keep).
    \<^item> \<open>File_System\<close>, \<open>Blob_Store\<close> (\<open>s3.py\<close>), \<open>Task_Files\<close> (\<open>task_files.py\<close>): a file system with links, the
      provider and the manager over it, the files of a task.
    \<^item> \<open>Observability\<close>, \<open>Log_Context\<close>: spans, metrics and shutdown; the log context.
    \<^item> \<open>Task_Run\<close>: \<open>_process_task\<close> from admission to bookkeeping with its callbacks.
    \<^item> \<open>Task_Accounting\<close>: the transition system of polls and tasks in any interleaving and the ledgers
      of the counters (locale \<open>ledger\<close>). \<open>Slot_Pool\<close>: the same with the guards of polling, as a
      refinement of an abstract pool of slots.
    \<^item> \<open>Heartbeat\<close>: resource readings, telemetry deadband, payload, cooldown, answer, heartbeat loop.
      \<open>Debounce\<close>: all heartbeats interleaved.
    \<^item> \<open>Registration\<close>: payload, retry loop and the manager of one orchestrator.
    \<^item> \<open>Result_Queue\<close>: delivery with bounded retries, the queue and its worker.
    \<^item> \<open>Lifecycle\<close>: startup, shutdown, token rotation, commands, events, ways to run. \<open>Cli\<close>: the command
      line and the reloader.

  What is shown. Bookkeeping: every admitted task releases its slot and delivers one result, the
  counters count exactly the tasks in flight and the lost ones, the load stays within the limits and
  no step of a well-formed worker can raise on its tables. Tasks: admission, arguments, middlewares,
  exceptions, output contract, events and signatures are characterised branch by branch, in terms of
  the fields of task and configuration rather than of the functions of the model.
  Communication: fair and prioritised choice of orchestrators, closed forms of the back-offs, what a
  heartbeat carries and withholds, one delayed heartbeat per orchestrator, every field of the
  registration, registration that gets through or is retried for ever, delivery equal to its
  specification, a queue that loses nothing. Files: round trips, the cache, containment of paths,
  cleanup. Life: startup is all or nothing; the shutdown runs to its end exactly when the queue
  worker, run up to its cancellation, has handled every result; token rotation is in time; the
  reloader keeps one child. Each theory also has theorems that pin down behaviour that is not
  meant: see the sections at their ends.

  Bounds. \<open>max_links\<close> is 40, the number of symbolic links the operating system follows in one path.
  Recursions over retries count the attempts left; \<open>wait_all_done\<close> ends by the measure of the time
  left; a cancelled queue worker gets one pass more than there are results, which is enough for it to
  end (\<open>cancelled_worker_ends\<close>); everything else is structural recursion.

  Text and bytes. A character of the model is a byte. A Python string is represented by its UTF-8
  encoding; files are read and written as text in UTF-8 on a POSIX system, so that reading as text
  decodes, translates line ends and fails on malformed bytes.

  Not modelled. Rounding and overflow of floating-point numbers (finite floats are rationals, so a sum of
  naps of a tenth of a second is exact where the program's falls short of a whole second), the
  memory of the process, the event loop and the HTTP and watchdog libraries themselves, log records
  apart from their context, the semaphore of the S3 manager (it delays, it does not order), rxon's
  conversions between messages and objects, the branch that passes unittest mocks through as usage.
  \<open>types.py\<close> and \<open>__init__.py\<close> only re-export names and read the package version.
\<close>

end
